(* ===== verification/Prelude.thy ===== *)
theory Prelude
  imports "HOL-Library.Word" "HOL-Library.Sublist" "HOL-Library.Char_ord"
begin

text \<open>
  Shared base of the development: the machine types of the program, the faults a C++ execution
  can end in, the sequencing of computations that may fault, the two interface locales (codecs
  and invariant-preserving machines) that several components instantiate, and the lemma
  collections the component theories extend.
\<close>

subsection \<open>Machine types\<close>

type_synonym byte = "8 word"
type_synonym dword = "32 word"
type_synonym handle = "64 word"
type_synonym addr = nat

text \<open>
  \<open>LONG\<close> status words are 32 bits wide; they are kept as \<open>dword\<close>, so that
  \<open>SCARD_E_...\<close> codes are written as the headers write them.
\<close>

type_synonym status = dword

subsection \<open>Faults\<close>

text \<open>
  What the source can do besides returning: raise a C++ exception (with the type the
  \<open>catch\<close> clauses distinguish), or run into undefined behaviour. Every such path of
  the code is a value of this type, so no branch of the model is left unspecified.
\<close>

datatype cpp_exn = Exn_Out_Of_Range | Exn_Range_Error | Exn_CString string | Exn_String string

datatype fault =
    Null_Deref
  | Out_Of_Bounds
  | Div_By_Zero
  | Bad_Iterator
  | Double_Free
  | Use_After_Free
  | Uninitialised
  | Hang
  | Throws cpp_exn

type_synonym 'a res = "fault + 'a"

definition bindE :: "'a res \<Rightarrow> ('a \<Rightarrow> 'b res) \<Rightarrow> 'b res" where
  "bindE m f = (case m of Inl e \<Rightarrow> Inl e | Inr x \<Rightarrow> f x)"

lemma bindE_simps [simp]:
  "bindE (Inl e) f = Inl e"
  "bindE (Inr x) f = f x"
  by (simp_all add: bindE_def)

lemma bindE_eq_Inr: "bindE m f = Inr y \<longleftrightarrow> (\<exists>x. m = Inr x \<and> f x = Inr y)"
  by (cases m) simp_all

lemma bindE_eq_Inl: "bindE m f = Inl e \<longleftrightarrow> m = Inl e \<or> (\<exists>x. m = Inr x \<and> f x = Inl e)"
  by (cases m) simp_all

lemma bindE_assoc: "bindE (bindE m f) g = bindE m (\<lambda>x. bindE (f x) g)"
  by (cases m) simp_all

definition guardE :: "bool \<Rightarrow> fault \<Rightarrow> unit res" where
  "guardE b e = (if b then Inr () else Inl e)"

lemma guardE_simps [simp]:
  "guardE True e = Inr ()"
  "guardE False e = Inl e"
  "guardE b e = Inr u \<longleftrightarrow> b"
  "guardE b e = Inl e' \<longleftrightarrow> \<not> b \<and> e' = e"
  by (auto simp: guardE_def)

text \<open>Iterating a computation that may fault over a list, left to right.\<close>

fun foldE :: "('a \<Rightarrow> 's \<Rightarrow> 's res) \<Rightarrow> 'a list \<Rightarrow> 's \<Rightarrow> 's res" where
  "foldE f [] s = Inr s"
| "foldE f (x # xs) s = bindE (f x s) (foldE f xs)"

lemma foldE_append: "foldE f (xs @ ys) s = bindE (foldE f xs s) (foldE f ys)"
proof (induction xs arbitrary: s)
  case (Cons x xs)
  then show ?case by (cases "f x s") simp_all
qed simp

lemma foldE_invariant:
  assumes "\<And>x s s'. x \<in> set xs \<Longrightarrow> P s \<Longrightarrow> f x s = Inr s' \<Longrightarrow> P s'"
    and "P s" and "foldE f xs s = Inr s'"
  shows "P s'"
  using assms
proof (induction xs arbitrary: s)
  case Nil
  then show ?case by simp
next
  case (Cons x xs)
  from Cons.prems(3) obtain s1 where s1: "f x s = Inr s1" "foldE f xs s1 = Inr s'"
    by (auto simp: bindE_eq_Inr)
  have "P s1" using Cons.prems(1)[of x s s1] Cons.prems(2) s1(1) by simp
  show ?case
  proof (rule Cons.IH[OF _ \<open>P s1\<close> s1(2)])
    fix y t t'
    assume "y \<in> set xs" "P t" "f y t = Inr t'"
    then show "P t'" using Cons.prems(1)[of y t t'] by simp
  qed
qed

subsection \<open>Lemma collections\<close>

named_theorems frame_simps \<open>what an operation leaves unchanged\<close>
named_theorems handler_defs \<open>definitions of the forwarding handlers\<close>

subsection \<open>Lists\<close>

text \<open>Writing a block into a buffer at an offset (\<open>memcpy(buf + off, src, n)\<close>).\<close>

definition blit :: "'a list \<Rightarrow> nat \<Rightarrow> 'a list \<Rightarrow> 'a list" where
  "blit buf off src = take off buf @ src @ drop (off + length src) buf"

lemma length_blit [simp]: "off + length src \<le> length buf \<Longrightarrow> length (blit buf off src) = length buf"
  by (simp add: blit_def)

lemma take_blit_0: "n = length src \<Longrightarrow> take n (blit buf 0 src) = src"
  by (simp add: blit_def)

lemma blit_0: "blit buf 0 src = src @ drop (length src) buf"
  by (simp add: blit_def)

subsection \<open>Codecs\<close>

text \<open>
  The contract of every encoder/decoder pair of the program (hexadecimal strings, base64,
  separated arrays, the proxy's message format): decoding an encoded valid value returns it.
\<close>

locale codec =
  fixes enc :: "'a \<Rightarrow> 'b" and dec :: "'b \<Rightarrow> 'a option" and valid :: "'a \<Rightarrow> bool"
  assumes roundtrip: "valid x \<Longrightarrow> dec (enc x) = Some x"
begin

lemma enc_inject: "valid x \<Longrightarrow> valid y \<Longrightarrow> enc x = enc y \<longleftrightarrow> x = y"
  by (metis option.inject roundtrip)

lemma dec_enc_is: "valid x \<Longrightarrow> dec (enc x) = Some y \<longleftrightarrow> y = x"
  by (auto simp: roundtrip)

lemma enc_inj_on: "inj_on enc {x. valid x}"
  by (rule inj_onI) (simp add: enc_inject)

end

subsection \<open>Machines with an invariant\<close>

text \<open>
  The contract of a stateful component: its steps keep an invariant that holds initially.
  \<open>run\<close> folds the steps; every state a run reaches satisfies the invariant.
\<close>

locale inv_machine =
  fixes step :: "'e \<Rightarrow> 's \<Rightarrow> 's" and inv :: "'s \<Rightarrow> bool"
  assumes step_inv: "inv s \<Longrightarrow> inv (step e s)"
begin

lemma fold_inv: "inv s \<Longrightarrow> inv (fold step es s)"
  by (induction es arbitrary: s) (simp_all add: step_inv)

end

end
