(* ===== verification/Cxx_Library.thy ===== *)
theory Cxx_Library
  imports Prelude
begin

text \<open>
  The parts of the C and C++ standard library the program computes with: character
  classification and case mapping of the C locale, \<open>std::string\<close> searching, \<open>substr\<close> and
  \<open>erase\<close> with their exceptions, \<open>strtol\<close> on a 32-bit \<open>long\<close>, and the \<open>printf\<close>
  conversions that occur in the source. Strings are \<^typ>\<open>string\<close> (lists of 8-bit characters).
  The position \<open>npos\<close> is \<^term>\<open>None\<close>.
\<close>

subsection \<open>Characters\<close>

abbreviation NL :: char where "NL \<equiv> CHR 0x0A"

definition is_space :: "char \<Rightarrow> bool" where
  "is_space c \<longleftrightarrow> c \<in> {CHR '' '', CHR 0x09, CHR 0x0A, CHR 0x0B, CHR 0x0C, CHR 0x0D}"

definition is_digit :: "char \<Rightarrow> bool" where
  "is_digit c \<longleftrightarrow> CHR ''0'' \<le> c \<and> c \<le> CHR ''9''"

definition is_alpha :: "char \<Rightarrow> bool" where
  "is_alpha c \<longleftrightarrow> (CHR ''A'' \<le> c \<and> c \<le> CHR ''Z'') \<or> (CHR ''a'' \<le> c \<and> c \<le> CHR ''z'')"

definition to_upper :: "char \<Rightarrow> char" where
  "to_upper c = (if CHR ''a'' \<le> c \<and> c \<le> CHR ''z'' then char_of (of_char c - (32::nat)) else c)"

definition to_lower :: "char \<Rightarrow> char" where
  "to_lower c = (if CHR ''A'' \<le> c \<and> c \<le> CHR ''Z'' then char_of (of_char c + (32::nat)) else c)"

definition byte_of_char :: "char \<Rightarrow> byte" where
  "byte_of_char c = of_nat (of_char c)"

definition char_of_byte :: "byte \<Rightarrow> char" where
  "char_of_byte b = char_of (unat b)"

lemma char_of_byte_inverse [simp]: "byte_of_char (char_of_byte b) = b"
proof -
  have "unat b < 2 ^ LENGTH(8)" by (rule unsigned_less)
  then show ?thesis by (simp add: byte_of_char_def char_of_byte_def)
qed

lemma unat_byte_less: "unat (b :: byte) < 256"
proof -
  have "unat b < 2 ^ LENGTH(8)" by (rule unsigned_less)
  then show ?thesis by simp
qed

lemma byte_of_char_inverse [simp]: "char_of_byte (byte_of_char c) = c"
proof -
  have "(of_char c :: nat) < 256" by simp
  then show ?thesis
    by (simp add: byte_of_char_def char_of_byte_def unat_of_nat take_bit_eq_mod)
qed

subsection \<open>Searching and slicing \<open>std::string\<close>\<close>

text \<open>\<open>find\<close> of a substring; \<open>s.find(p, from)\<close> is \<open>None\<close> for \<open>npos\<close>.\<close>

fun find_sub :: "'a list \<Rightarrow> 'a list \<Rightarrow> nat option" where
  "find_sub p [] = (if p = [] then Some 0 else None)"
| "find_sub p (x # xs) = (if prefix p (x # xs) then Some 0 else map_option Suc (find_sub p xs))"

definition str_find_from :: "string \<Rightarrow> string \<Rightarrow> nat \<Rightarrow> nat option" where
  "str_find_from s p from =
     (if from \<le> length s then map_option (\<lambda>i. i + from) (find_sub p (drop from s)) else None)"

abbreviation str_find :: "string \<Rightarrow> string \<Rightarrow> nat option" where
  "str_find s p \<equiv> str_find_from s p 0"

text \<open>\<open>find_first_of\<close>, \<open>find_first_not_of\<close>, \<open>find_last_not_of\<close> over a character set.\<close>

fun find_idx :: "('a \<Rightarrow> bool) \<Rightarrow> 'a list \<Rightarrow> nat option" where
  "find_idx P [] = None"
| "find_idx P (x # xs) = (if P x then Some 0 else map_option Suc (find_idx P xs))"

definition find_last_idx :: "('a \<Rightarrow> bool) \<Rightarrow> 'a list \<Rightarrow> nat option" where
  "find_last_idx P xs = map_option (\<lambda>i. length xs - Suc i) (find_idx P (rev xs))"

text \<open>\<open>pos + 1\<close> on \<open>size_t\<close>: \<open>npos + 1\<close> wraps to 0, which the code relies on.\<close>

definition npos_succ :: "nat option \<Rightarrow> nat" where
  "npos_succ p = (case p of None \<Rightarrow> 0 | Some i \<Rightarrow> Suc i)"

text \<open>\<open>substr(pos, n)\<close> throws \<open>std::out_of_range\<close> when \<open>pos\<close> is past the end.\<close>

definition substr_n :: "string \<Rightarrow> nat \<Rightarrow> nat \<Rightarrow> string res" where
  "substr_n s pos n = (if pos \<le> length s then Inr (take n (drop pos s)) else Inl (Throws Exn_Out_Of_Range))"

definition substr_from :: "string \<Rightarrow> nat \<Rightarrow> string res" where
  "substr_from s pos = (if pos \<le> length s then Inr (drop pos s) else Inl (Throws Exn_Out_Of_Range))"

text \<open>
  \<open>s.erase(pos, s.find(c, pos) - pos + 1)\<close>, the idiom that removes up to and including the next
  separator: with no separator left the count wraps and everything from \<open>pos\<close> on goes, except at
  position 0, where the wrapped count is 0 and nothing goes.
\<close>

definition erase_through :: "string \<Rightarrow> nat \<Rightarrow> string \<Rightarrow> string" where
  "erase_through s pos sep =
     (case str_find_from s sep pos of None \<Rightarrow> if pos = 0 then s else take pos s | Some q \<Rightarrow> take pos s @ drop (Suc q) s)"

text \<open>\<open>s.erase(s.find_last_not_of(set) + 1)\<close>: trims the trailing characters of the set.\<close>

definition erase_trailing :: "(char \<Rightarrow> bool) \<Rightarrow> string \<Rightarrow> string" where
  "erase_trailing P s = take (npos_succ (find_last_idx (\<lambda>c. \<not> P c) s)) s"

text \<open>\<open>std::replace\<close> of one character by another.\<close>

definition replace_char :: "char \<Rightarrow> char \<Rightarrow> string \<Rightarrow> string" where
  "replace_char a b s = map (\<lambda>c. if c = a then b else c) s"

subsection \<open>Comparison without case\<close>

text \<open>
  \<open>strcmp\<close> with the values -1, 0, 1, as the Windows runtime returns them, and the project's
  \<open>compareWithNoCase\<close>: its \<open>int\<close> result is converted to a 64-bit \<open>size_t\<close>.
\<close>

fun strcmp :: "string \<Rightarrow> string \<Rightarrow> int" where
  "strcmp [] [] = 0"
| "strcmp [] (d # ds) = -1"
| "strcmp (c # cs) [] = 1"
| "strcmp (c # cs) (d # ds) = (if c < d then -1 else if d < c then 1 else strcmp cs ds)"

definition compareWithNoCase :: "string \<Rightarrow> string \<Rightarrow> nat" where
  "compareWithNoCase str1 str2 =
     (if length str1 \<noteq> length str2 then max (length str1) (length str2)
      else nat (strcmp (map to_upper str1) (map to_upper str2) mod 2 ^ 64))"

lemma strcmp_range: "strcmp s t = -1 \<or> strcmp s t = 0 \<or> strcmp s t = 1"
  by (induction s t rule: strcmp.induct) auto

lemma strcmp_0: "strcmp s t = 0 \<longleftrightarrow> s = t"
  by (induction s t rule: strcmp.induct) auto

lemma compareWithNoCase_0:
  "compareWithNoCase s t = 0 \<longleftrightarrow> map to_upper s = map to_upper t"
proof (cases "length s = length t")
  case True
  have "nat (strcmp u v mod 2 ^ 64) = 0 \<longleftrightarrow> strcmp u v = 0" for u v
    using strcmp_range[of u v] by auto
  then show ?thesis using True by (simp add: compareWithNoCase_def strcmp_0)
next
  case False
  then have "map to_upper s \<noteq> map to_upper t" by (metis length_map)
  with False show ?thesis by (auto simp: compareWithNoCase_def max_def)
qed

subsection \<open>\<open>strtol\<close>\<close>

definition digit_val :: "char \<Rightarrow> nat option" where
  "digit_val c =
     (if CHR ''0'' \<le> c \<and> c \<le> CHR ''9'' then Some (of_char c - 48)
      else if CHR ''a'' \<le> c \<and> c \<le> CHR ''z'' then Some (of_char c - 87)
      else if CHR ''A'' \<le> c \<and> c \<le> CHR ''Z'' then Some (of_char c - 55)
      else None)"

definition digit_in :: "nat \<Rightarrow> char \<Rightarrow> nat option" where
  "digit_in base c = (case digit_val c of None \<Rightarrow> None | Some d \<Rightarrow> if d < base then Some d else None)"

fun digits_val :: "nat \<Rightarrow> nat \<Rightarrow> string \<Rightarrow> nat" where
  "digits_val base acc [] = acc"
| "digits_val base acc (c # cs) =
     (case digit_in base c of None \<Rightarrow> acc | Some d \<Rightarrow> digits_val base (acc * base + d) cs)"

definition clamp_long :: "int \<Rightarrow> int" where
  "clamp_long v = max (- (2 ^ 31)) (min (2 ^ 31 - 1) v)"

definition skip_hex_prefix :: "string \<Rightarrow> string" where
  "skip_hex_prefix s =
     (case s of
        c0 # cx # d # _ \<Rightarrow>
          if c0 = CHR ''0'' \<and> (cx = CHR ''x'' \<or> cx = CHR ''X'') \<and> digit_in 16 d \<noteq> None
          then drop 2 s else s
      | _ \<Rightarrow> s)"

definition unsigned_part :: "nat \<Rightarrow> string \<Rightarrow> int" where
  "unsigned_part base s =
     int (digits_val base 0 (if base = 16 then skip_hex_prefix s else s))"

definition strtol :: "nat \<Rightarrow> string \<Rightarrow> int" where
  "strtol base str =
     (case dropWhile is_space str of
        [] \<Rightarrow> 0
      | c # cs \<Rightarrow>
          clamp_long
            (if c = CHR ''-'' then - unsigned_part base cs
             else if c = CHR ''+'' then unsigned_part base cs
             else unsigned_part base (c # cs)))"

subsection \<open>\<open>printf\<close> conversions\<close>

definition hex_digit :: "nat \<Rightarrow> char" where
  "hex_digit n = (if n < 10 then char_of (48 + n) else char_of (87 + n))"

definition upper_hex_digit :: "nat \<Rightarrow> char" where
  "upper_hex_digit n = (if n < 10 then char_of (48 + n) else char_of (55 + n))"

fun radix_string :: "(nat \<Rightarrow> char) \<Rightarrow> nat \<Rightarrow> nat \<Rightarrow> string" where
  "radix_string dig b n =
     (if b < 2 \<or> n < b then [dig n] else radix_string dig b (n div b) @ [dig (n mod b)])"

declare radix_string.simps [simp del]

definition pad_left :: "nat \<Rightarrow> string \<Rightarrow> string" where
  "pad_left n s = replicate (n - length s) (CHR ''0'') @ s"

text \<open>\<open>%x\<close>, \<open>%.2x\<close>, \<open>%0.8X\<close>, \<open>%d\<close>.\<close>

definition fmt_x :: "nat \<Rightarrow> string" where
  "fmt_x n = radix_string hex_digit 16 n"

definition fmt_02x :: "byte \<Rightarrow> string" where
  "fmt_02x b = [hex_digit (unat b div 16), hex_digit (unat b mod 16)]"

definition fmt_08X :: "nat \<Rightarrow> string" where
  "fmt_08X n = pad_left 8 (radix_string upper_hex_digit 16 n)"

definition fmt_u :: "nat \<Rightarrow> string" where
  "fmt_u n = radix_string hex_digit 10 n"

definition fmt_d :: "dword \<Rightarrow> string" where
  "fmt_d w = (let v = sint w in if v < 0 then CHR ''-'' # fmt_u (nat (- v)) else fmt_u (nat v))"

subsection \<open>Facts about searching\<close>

lemma find_idx_None: "find_idx P xs = None \<longleftrightarrow> (\<forall>x \<in> set xs. \<not> P x)"
  by (induction xs) auto

lemma find_idx_Some:
  "find_idx P xs = Some i \<longleftrightarrow> i < length xs \<and> P (xs ! i) \<and> (\<forall>j < i. \<not> P (xs ! j))"
proof (induction xs arbitrary: i)
  case (Cons x xs)
  then show ?case by (cases i) (auto simp: less_Suc_eq_0_disj)
qed simp

lemma find_sub_single: "find_sub [c] xs = find_idx (\<lambda>x. x = c) xs"
  by (induction xs) auto

lemma find_idx_append:
  "find_idx P (xs @ ys) =
     (case find_idx P xs of Some i \<Rightarrow> Some i | None \<Rightarrow> map_option (\<lambda>i. i + length xs) (find_idx P ys))"
  by (induction xs) (auto split: option.splits simp: option.map_comp comp_def option.map_ident)

lemma find_sub_Some_bound: "find_sub p xs = Some i \<Longrightarrow> i + length p \<le> length xs \<and> take (length p) (drop i xs) = p"
proof (induction xs arbitrary: i)
  case (Cons x xs)
  show ?case
  proof (cases "prefix p (x # xs)")
    case True
    then obtain zs where "x # xs = p @ zs" by (auto simp: prefix_def)
    moreover from this have "length p \<le> length (x # xs)" by simp
    moreover have "i = 0" using True Cons.prems by simp
    ultimately show ?thesis by simp
  next
    case False
    with Cons show ?thesis by auto
  qed
qed (auto split: if_splits)

lemma find_sub_prefix: "find_sub p (p @ xs) = Some 0"
  using prefixI[of "p @ xs" p xs] by (cases "p @ xs") auto

lemma find_sub_minimal:
  "find_sub p xs = Some i \<Longrightarrow> j < i \<Longrightarrow> take (length p) (drop j xs) \<noteq> p"
proof (induction xs arbitrary: i j)
  case (Cons x xs)
  show ?case
  proof (cases "prefix p (x # xs)")
    case True
    with Cons.prems show ?thesis by simp
  next
    case False
    then obtain i' where i': "find_sub p xs = Some i'" "i = Suc i'" using Cons.prems by auto
    show ?thesis
    proof (cases j)
      case 0
      with False show ?thesis by (metis append_take_drop_id drop0 prefixI)
    next
      case (Suc j')
      with Cons.IH[OF i'(1), of j'] i'(2) Cons.prems(2) show ?thesis by simp
    qed
  qed
qed (auto split: if_splits)

lemma erase_trailing_eq: "erase_trailing P s = rev (dropWhile P (rev s))"
proof (induction s rule: rev_induct)
  case Nil
  then show ?case by (simp add: erase_trailing_def)
next
  case (snoc c s)
  show ?case
  proof (cases "P c")
    case True
    let ?f = "find_idx (\<lambda>c. \<not> P c) (rev s)"
    have len: "i < length s" if "?f = Some i" for i
      using that by (auto simp: find_idx_Some)
    have "erase_trailing P (s @ [c]) = erase_trailing P s"
      using True len by (auto simp: erase_trailing_def find_last_idx_def npos_succ_def
          option.map_comp comp_def split: option.splits)
    with snoc True show ?thesis by simp
  next
    case False
    then show ?thesis by (simp add: erase_trailing_def find_last_idx_def npos_succ_def)
  qed
qed

lemma erase_trailing_id: "s = [] \<or> \<not> P (last s) \<Longrightarrow> erase_trailing P s = s"
  by (cases s rule: rev_cases) (auto simp: erase_trailing_eq)

subsection \<open>Hexadecimal digits\<close>

lemma hex_digit_table:
  "\<forall>n \<in> set [0..<16]. digit_in 16 (hex_digit n) = Some n \<and> \<not> is_space (hex_digit n) \<and>
     hex_digit n \<notin> {CHR ''-'', CHR ''+'', CHR ''x'', CHR ''X'', CHR '' '', NL}"
  by code_simp

lemma digit_in_hex_digit [simp]: "n < 16 \<Longrightarrow> digit_in 16 (hex_digit n) = Some n"
  using hex_digit_table by simp

lemma hex_digit_not_special [simp]:
  assumes "n < 16"
  shows "\<not> is_space (hex_digit n)" "hex_digit n \<noteq> CHR ''-''" "hex_digit n \<noteq> CHR ''+''"
    "hex_digit n \<noteq> CHR ''x''" "hex_digit n \<noteq> CHR ''X''" "hex_digit n \<noteq> CHR '' ''"
    "hex_digit n \<noteq> NL"
  using hex_digit_table assms by simp_all

lemma strtol_two_hex_digits:
  assumes "m < 16" "n < 16"
  shows "strtol 16 [hex_digit m, hex_digit n] = int (16 * m + n)"
  using assms
  by (simp add: strtol_def unsigned_part_def skip_hex_prefix_def clamp_long_def)

subsection \<open>Decimal numbers\<close>

lemma digit_in_10 [simp]: "m < 10 \<Longrightarrow> digit_in 10 (hex_digit m) = Some m"
  using digit_in_hex_digit[of m] by (auto simp: digit_in_def split: option.splits if_splits)

lemma digits_val_append:
  "\<forall>c \<in> set cs. digit_in b c \<noteq> None \<Longrightarrow> digits_val b acc (cs @ ds) = digits_val b (digits_val b acc cs) ds"
  by (induction cs arbitrary: acc) (auto split: option.splits)

lemma radix_10_digits: "c \<in> set (radix_string hex_digit 10 n) \<Longrightarrow> \<exists>m < 10. c = hex_digit m"
proof (induction n rule: less_induct)
  case (less n)
  show ?case
  proof (cases "n < 10")
    case True
    with less.prems show ?thesis by (auto simp: radix_string.simps[of _ _ n])
  next
    case False
    then have "radix_string hex_digit 10 n = radix_string hex_digit 10 (n div 10) @ [hex_digit (n mod 10)]"
      by (subst radix_string.simps) simp
    with less.prems have "c \<in> set (radix_string hex_digit 10 (n div 10)) \<or> c = hex_digit (n mod 10)" by auto
    moreover have "n mod 10 < 10" by simp
    ultimately show ?thesis using less.IH[of "n div 10"] False by (metis div_less_dividend not_less not_less_zero one_less_numeral_iff semiring_norm(76) bot_nat_0.not_eq_extremum zero_less_numeral)
  qed
qed

lemma digits_val_radix_10: "digits_val 10 0 (radix_string hex_digit 10 n) = n"
proof (induction n rule: less_induct)
  case (less n)
  show ?case
  proof (cases "n < 10")
    case True
    then show ?thesis by (simp add: radix_string.simps)
  next
    case False
    then have "radix_string hex_digit 10 n = radix_string hex_digit 10 (n div 10) @ [hex_digit (n mod 10)]"
      by (subst radix_string.simps) simp
    moreover have "\<forall>c \<in> set (radix_string hex_digit 10 (n div 10)). digit_in 10 c \<noteq> None"
      using radix_10_digits by fastforce
    moreover have "n div 10 < n" using False by simp
    moreover have "n div 10 * 10 + n mod 10 = n" by simp
    ultimately show ?thesis using less.IH[of "n div 10"] by (simp add: digits_val_append)
  qed
qed

lemma fmt_u_digits: "c \<in> set (fmt_u n) \<Longrightarrow> \<exists>m < 10. c = hex_digit m"
  unfolding fmt_u_def by (rule radix_10_digits)

lemma fmt_u_nonempty [simp]: "fmt_u n \<noteq> []"
  unfolding fmt_u_def by (subst radix_string.simps) simp

text \<open>Reading back a printed \<open>int\<close>, also with text behind it that does not start with a digit.\<close>

lemma strtol_decimal:
  "strtol 10 (fmt_u n) = clamp_long (int n)" "strtol 10 (CHR ''-'' # fmt_u n) = clamp_long (- int n)"
proof -
  obtain c cs where u: "fmt_u n = c # cs" by (cases "fmt_u n") simp_all
  then obtain m where m: "m < 10" "c = hex_digit m" using fmt_u_digits[of c n] by auto
  have val: "digits_val 10 0 (c # cs) = n" using digits_val_radix_10[of n] by (simp add: fmt_u_def flip: u)
  have c: "\<not> is_space c" "c \<noteq> CHR ''-''" "c \<noteq> CHR ''+''" using m by simp_all
  show "strtol 10 (fmt_u n) = clamp_long (int n)"
    unfolding u using c val by (simp add: strtol_def unsigned_part_def del: digits_val.simps)
  have "\<not> is_space (CHR ''-'')" by (simp add: is_space_def)
  then show "strtol 10 (CHR ''-'' # fmt_u n) = clamp_long (- int n)"
    unfolding u using val by (simp add: strtol_def unsigned_part_def del: digits_val.simps)
qed

lemma strtol_fmt_d: "strtol 10 (fmt_d w) = sint w"
proof -
  have "- (2 ^ 31) \<le> sint w" "sint w < 2 ^ 31"
    using sint_ge[of w] sint_lt[of w] by simp_all
  then have "clamp_long (sint w) = sint w" by (simp add: clamp_long_def)
  then show ?thesis by (simp add: fmt_d_def Let_def strtol_decimal)
qed

lemma fmt_d_chars: "c \<in> set (fmt_d w) \<Longrightarrow> c = CHR ''-'' \<or> (\<exists>m < 10. c = hex_digit m)"
  using fmt_u_digits by (fastforce simp: fmt_d_def Let_def split: if_splits)

lemma strtol_decimal_then:
  assumes "digit_in 10 c = None"
  shows "strtol 10 (fmt_u n @ c # rest) = clamp_long (int n)"
proof -
  obtain d ds where u: "fmt_u n = d # ds" by (cases "fmt_u n") simp_all
  then obtain m where m: "m < 10" "d = hex_digit m" using fmt_u_digits[of d n] by auto
  have "\<forall>x \<in> set (fmt_u n). digit_in 10 x \<noteq> None" using fmt_u_digits by fastforce
  then have "digits_val 10 0 (fmt_u n @ c # rest) = n"
    using assms digits_val_radix_10[of n] by (simp add: digits_val_append fmt_u_def)
  then have val: "digits_val 10 0 (d # ds @ c # rest) = n" unfolding u by simp
  have "\<not> is_space d" "d \<noteq> CHR ''-''" "d \<noteq> CHR ''+''" using m by simp_all
  then show ?thesis
    unfolding u append_Cons using val by (simp add: strtol_def unsigned_part_def del: digits_val.simps)
qed

lemma find_sub_skip:
  "c \<notin> set xs \<Longrightarrow> find_sub (c # p) (xs @ (c # p) @ rest) = Some (length xs)"
proof (induction xs)
  case Nil
  show ?case using find_sub_prefix[of "c # p" rest] by simp
next
  case (Cons x xs)
  then show ?case by simp
qed

lemma find_sub_absent: "c \<notin> set xs \<Longrightarrow> find_sub (c # p) xs = None"
  by (induction xs) (auto simp: prefix_def)

lemma length_fmt_u: "n < 10 ^ k \<Longrightarrow> 0 < k \<Longrightarrow> length (fmt_u n) \<le> k"
  unfolding fmt_u_def
proof (induction k arbitrary: n)
  case (Suc k)
  show ?case
  proof (cases "n < 10")
    case True
    then show ?thesis by (simp add: radix_string.simps[of _ _ n])
  next
    case False
    then have k: "0 < k" using Suc.prems(1) by (cases k) simp_all
    have "n div 10 < 10 ^ k" using Suc.prems(1) by (simp add: less_mult_imp_div_less)
    from Suc.IH[OF this k] False show ?thesis by (subst radix_string.simps) simp
  qed
qed simp

end
