(* ===== verification/Base64_Codec.thy ===== *)
theory Base64_Codec
  imports Cxx_Library
begin

unbundle bit_operations_syntax

text \<open>
  \<open>CCommonFnc::base64_encode\<close> and \<open>base64_decode\<close> (\<open>CommonFnc.cpp\<close>), used for the reader names
  the remote proxy sends. The shifts and masks are those of the source, on 8-bit words; the
  encoder's three-byte and the decoder's four-character blocks are the recursion's steps.
\<close>

definition base64_chars :: string where
  "base64_chars =
     ''ABCDEFGHIJKLMNOPQRSTUVWXYZ'' @ ''abcdefghijklmnopqrstuvwxyz'' @ ''0123456789+/''"

definition is_base64 :: "char \<Rightarrow> bool" where
  "is_base64 c \<longleftrightarrow> is_alpha c \<or> is_digit c \<or> c = CHR ''+'' \<or> c = CHR ''/''"

definition b64_char :: "byte \<Rightarrow> char" where
  "b64_char i = base64_chars ! unat i"

text \<open>\<open>base64_chars.find(c)\<close> stored into a \<open>BYTE\<close>: \<open>npos\<close> becomes 255.\<close>

definition b64_index :: "char \<Rightarrow> byte" where
  "b64_index c = (case find_idx (\<lambda>x. x = c) base64_chars of None \<Rightarrow> 255 | Some i \<Rightarrow> of_nat i)"

definition enc4 :: "byte \<Rightarrow> byte \<Rightarrow> byte \<Rightarrow> byte list" where
  "enc4 x y z =
     [drop_bit 2 (x AND 0xfc),
      push_bit 4 (x AND 0x03) + drop_bit 4 (y AND 0xf0),
      push_bit 2 (y AND 0x0f) + drop_bit 6 (z AND 0xc0),
      z AND 0x3f]"

definition dec3 :: "byte \<Rightarrow> byte \<Rightarrow> byte \<Rightarrow> byte \<Rightarrow> byte list" where
  "dec3 c0 c1 c2 c3 =
     [push_bit 2 c0 + drop_bit 4 (c1 AND 0x30),
      push_bit 4 (c1 AND 0xf) + drop_bit 2 (c2 AND 0x3c),
      push_bit 6 (c2 AND 0x3) + c3]"

fun base64_encode :: "byte list \<Rightarrow> string" where
  "base64_encode [] = []"
| "base64_encode [x] = map b64_char (take 2 (enc4 x 0 0)) @ ''==''"
| "base64_encode [x, y] = map b64_char (take 3 (enc4 x y 0)) @ ''=''"
| "base64_encode (x # y # z # rest) = map b64_char (enc4 x y z) @ base64_encode rest"

text \<open>
  The decoder reads up to the first \<open>=\<close> or character outside the alphabet; a last block of
  \<open>i\<close> characters is padded with zero characters, whose index is 255, and yields \<open>i - 1\<close> bytes.
\<close>

fun b64_blocks :: "string \<Rightarrow> byte list" where
  "b64_blocks [] = []"
| "b64_blocks [a] = take 0 (dec3 (b64_index a) (b64_index (CHR 0x00)) (b64_index (CHR 0x00)) (b64_index (CHR 0x00)))"
| "b64_blocks [a, b] = take 1 (dec3 (b64_index a) (b64_index b) (b64_index (CHR 0x00)) (b64_index (CHR 0x00)))"
| "b64_blocks [a, b, c] = take 2 (dec3 (b64_index a) (b64_index b) (b64_index c) (b64_index (CHR 0x00)))"
| "b64_blocks (a # b # c # d # rest) =
     dec3 (b64_index a) (b64_index b) (b64_index c) (b64_index d) @ b64_blocks rest"

definition base64_decode :: "string \<Rightarrow> byte list" where
  "base64_decode s = b64_blocks (takeWhile (\<lambda>c. c \<noteq> CHR ''='' \<and> is_base64 c) s)"

subsection \<open>One block\<close>

text \<open>Facts about all indices and all bytes, by evaluation over the finite range.\<close>

lemma b64_table:
  "\<forall>n \<in> set [0..63]. let c = base64_chars ! nat n in
     b64_index c = word_of_int n \<and> is_base64 c \<and> c \<noteq> CHR ''=''"
  by code_simp

lemma b64_index_char:
  assumes "uint i < 64"
  shows "b64_index (b64_char i) = i" "is_base64 (b64_char i)" "b64_char i \<noteq> CHR ''=''"
proof -
  have "uint i \<in> set [0..63]" using assms by simp
  from bspec[OF b64_table this]
  show "b64_index (b64_char i) = i" "is_base64 (b64_char i)" "b64_char i \<noteq> CHR ''=''"
    by (simp_all add: b64_char_def Let_def flip: unat_eq_nat_uint)
qed

text \<open>The masks and shifts, read as division and remainder.\<close>

lemma byte_mask_table:
  "\<forall>n \<in> set [0..255]. let x = (word_of_int n :: byte) in
     uint (drop_bit 2 (x AND 0xfc)) = n div 4 \<and>
     uint (push_bit 4 (x AND 0x03)) = 16 * (n mod 4) \<and>
     uint (drop_bit 4 (x AND 0xf0)) = n div 16 \<and>
     uint (push_bit 2 (x AND 0x0f)) = 4 * (n mod 16) \<and>
     uint (drop_bit 6 (x AND 0xc0)) = n div 64 \<and>
     uint (x AND 0x3f) = n mod 64 \<and>
     uint (push_bit 2 x) = 4 * n mod 256 \<and>
     uint (drop_bit 4 (x AND 0x30)) = n div 16 mod 4 \<and>
     uint (push_bit 4 (x AND 0xf)) = 16 * (n mod 16) \<and>
     uint (drop_bit 2 (x AND 0x3c)) = n div 4 mod 16 \<and>
     uint (push_bit 6 (x AND 0x3)) = 64 * (n mod 4)"
  by code_simp

lemma byte_mask:
  fixes x :: byte
  shows "uint (drop_bit 2 (x AND 0xfc)) = uint x div 4"
    and "uint (push_bit 4 (x AND 0x03)) = 16 * (uint x mod 4)"
    and "uint (drop_bit 4 (x AND 0xf0)) = uint x div 16"
    and "uint (push_bit 2 (x AND 0x0f)) = 4 * (uint x mod 16)"
    and "uint (drop_bit 6 (x AND 0xc0)) = uint x div 64"
    and "uint (x AND 0x3f) = uint x mod 64"
    and "uint (drop_bit 4 (x AND 0x30)) = uint x div 16 mod 4"
    and "uint (push_bit 4 (x AND 0xf)) = 16 * (uint x mod 16)"
    and "uint (drop_bit 2 (x AND 0x3c)) = uint x div 4 mod 16"
    and "uint (push_bit 6 (x AND 0x3)) = 64 * (uint x mod 4)"
proof -
  have "uint x < 2 ^ LENGTH(8)" by (rule uint_lt2p)
  then have "uint x \<in> set [0..255]" by simp
  note t = bspec[OF byte_mask_table this, unfolded Let_def word_of_int_uint]
  show "uint (drop_bit 2 (x AND 0xfc)) = uint x div 4"
    and "uint (push_bit 4 (x AND 0x03)) = 16 * (uint x mod 4)"
    and "uint (drop_bit 4 (x AND 0xf0)) = uint x div 16"
    and "uint (push_bit 2 (x AND 0x0f)) = 4 * (uint x mod 16)"
    and "uint (drop_bit 6 (x AND 0xc0)) = uint x div 64"
    and "uint (x AND 0x3f) = uint x mod 64"
    and "uint (drop_bit 4 (x AND 0x30)) = uint x div 16 mod 4"
    and "uint (push_bit 4 (x AND 0xf)) = 16 * (uint x mod 16)"
    and "uint (drop_bit 2 (x AND 0x3c)) = uint x div 4 mod 16"
    and "uint (push_bit 6 (x AND 0x3)) = 64 * (uint x mod 4)"
    using t by blast+
qed

lemma byte_shift2: "uint (push_bit 2 (x :: byte)) = 4 * uint x mod 256"
proof -
  have "uint x < 2 ^ LENGTH(8)" by (rule uint_lt2p)
  then have "uint x \<in> set [0..255]" by simp
  from bspec[OF byte_mask_table this, unfolded Let_def word_of_int_uint] show ?thesis by blast
qed

lemma uint_byte: "0 \<le> uint (x :: byte)" "uint x < 256"
  using uint_lt2p[of x] by simp_all

lemma uint_add_small: "uint x + uint y < 256 \<Longrightarrow> uint (x + y :: byte) = uint x + uint y"
  using uint_add_lem[of x y] by simp

lemma uint_enc4:
  "map uint (enc4 x y z) =
     [uint x div 4, 16 * (uint x mod 4) + uint y div 16, 4 * (uint y mod 16) + uint z div 64, uint z mod 64]"
proof -
  note xyz = uint_byte[of x] uint_byte[of y] uint_byte[of z]
  have "16 * (uint x mod 4) + uint y div 16 < 256" using xyz by presburger
  then have "uint (push_bit 4 (x AND 0x03) + drop_bit 4 (y AND 0xf0)) = 16 * (uint x mod 4) + uint y div 16"
    by (subst uint_add_small) (simp_all only: byte_mask)
  moreover have "4 * (uint y mod 16) + uint z div 64 < 256" using xyz by presburger
  then have "uint (push_bit 2 (y AND 0x0f) + drop_bit 6 (z AND 0xc0)) = 4 * (uint y mod 16) + uint z div 64"
    by (subst uint_add_small) (simp_all only: byte_mask)
  ultimately show ?thesis by (simp only: enc4_def list.map byte_mask)
qed

lemma enc4_less: "i \<in> set (enc4 x y z) \<Longrightarrow> uint i < 64"
proof -
  note xyz = uint_byte[of x] uint_byte[of y] uint_byte[of z]
  have "uint x div 4 < 64" "16 * (uint x mod 4) + uint y div 16 < 64"
    "4 * (uint y mod 16) + uint z div 64 < 64" "uint z mod 64 < 64"
    using xyz by presburger+
  then have "\<forall>n \<in> set (map uint (enc4 x y z)). n < 64"
    unfolding uint_enc4 by simp
  then show "i \<in> set (enc4 x y z) \<Longrightarrow> ?thesis" by simp
qed

lemma block_arith:
  fixes X Y Z :: int
  assumes "0 \<le> X" "X < 256" "0 \<le> Y" "Y < 256" "0 \<le> Z" "Z < 256"
  shows "4 * (X div 4) mod 256 + (16 * (X mod 4) + Y div 16) div 16 mod 4 = X"
    and "16 * ((16 * (X mod 4) + Y div 16) mod 16) + (4 * (Y mod 16) + Z div 64) div 4 mod 16 = Y"
    and "64 * ((4 * (Y mod 16) + Z div 64) mod 4) + Z mod 64 = Z"
proof -
  have Y: "0 \<le> Y div 16" "Y div 16 < 16" and Z: "0 \<le> Z div 64" "Z div 64 < 4" using assms by auto
  have "(16 * (X mod 4) + Y div 16) div 16 = X mod 4" using Y by (simp add: div_add1_eq)
  moreover have "4 * (X div 4) mod 256 = 4 * (X div 4)" using assms by auto
  ultimately show "4 * (X div 4) mod 256 + (16 * (X mod 4) + Y div 16) div 16 mod 4 = X" by simp
  have "(16 * (X mod 4) + Y div 16) mod 16 = Y div 16" using Y by (simp add: mod_add_eq)
  moreover have "(4 * (Y mod 16) + Z div 64) div 4 = Y mod 16" using Z by (simp add: div_add1_eq)
  ultimately show "16 * ((16 * (X mod 4) + Y div 16) mod 16) + (4 * (Y mod 16) + Z div 64) div 4 mod 16 = Y"
    by simp
  have "(4 * (Y mod 16) + Z div 64) mod 4 = Z div 64" using Z by (simp add: mod_add_eq)
  then show "64 * ((4 * (Y mod 16) + Z div 64) mod 4) + Z mod 64 = Z" by simp
qed

lemma dec3_enc4:
  assumes "enc4 x y z = [c0, c1, c2, c3]"
  shows "dec3 c0 c1 c2 c3 = [x, y, z]"
proof -
  note xyz = uint_byte[of x] uint_byte[of y] uint_byte[of z]
  have c: "uint c0 = uint x div 4" "uint c1 = 16 * (uint x mod 4) + uint y div 16"
    "uint c2 = 4 * (uint y mod 16) + uint z div 64" "uint c3 = uint z mod 64"
    using uint_enc4[of x y z] assms by simp_all
  note arith = block_arith[OF xyz, folded c]
  have "push_bit 2 c0 + drop_bit 4 (c1 AND 0x30) = x"
    using arith(1) xyz by (simp only: word_uint_eq_iff byte_mask byte_shift2 uint_add_small)
  moreover have "push_bit 4 (c1 AND 0xf) + drop_bit 2 (c2 AND 0x3c) = y"
    using arith(2) xyz by (simp only: word_uint_eq_iff byte_mask uint_add_small)
  moreover have "push_bit 6 (c2 AND 0x3) + c3 = z"
    using arith(3) xyz by (simp only: word_uint_eq_iff byte_mask uint_add_small)
  ultimately show ?thesis by (simp add: dec3_def)
qed

subsection \<open>Round trip\<close>

lemma enc4_shape: "\<exists>c0 c1 c2 c3. enc4 x y z = [c0, c1, c2, c3]"
  by (simp add: enc4_def)

lemma b64_blocks_enc:
  "b64_blocks (takeWhile (\<lambda>c. c \<noteq> CHR ''='' \<and> is_base64 c) (base64_encode bs)) = bs"
proof (induction bs rule: base64_encode.induct)
  case (2 x)
  obtain c0 c1 c2 c3 where e: "enc4 x 0 0 = [c0, c1, c2, c3]" using enc4_shape by blast
  have "uint c0 < 64" "uint c1 < 64" using enc4_less[of _ x 0 0] by (simp_all add: e)
  then show ?case using dec3_enc4[OF e] by (simp add: e b64_index_char dec3_def)
next
  case (3 x y)
  obtain c0 c1 c2 c3 where e: "enc4 x y 0 = [c0, c1, c2, c3]" using enc4_shape by blast
  have "uint c0 < 64" "uint c1 < 64" "uint c2 < 64" using enc4_less[of _ x y 0] by (simp_all add: e)
  then show ?case using dec3_enc4[OF e] by (simp add: e b64_index_char dec3_def numeral_3_eq_3)
next
  case (4 x y z rest)
  obtain c0 c1 c2 c3 where e: "enc4 x y z = [c0, c1, c2, c3]" using enc4_shape by blast
  have "uint c0 < 64" "uint c1 < 64" "uint c2 < 64" "uint c3 < 64"
    using enc4_less[of _ x y z] by (simp_all add: e)
  then show ?case using dec3_enc4[OF e] 4 by (simp add: e b64_index_char)
qed simp

interpretation base64: codec base64_encode "\<lambda>s. Some (base64_decode s)" "\<lambda>_. True"
  by unfold_locales (simp add: base64_decode_def b64_blocks_enc)

subsection \<open>Properties\<close>

lemma takeWhile_before: "t = [] \<or> \<not> P (hd t) \<Longrightarrow> takeWhile P (s @ t) = takeWhile P s"
  by (induction s) (cases t; auto)+

text \<open>
  C34: Base64 text is read back. Decoding the encoding of any bytes, followed by nothing or by a
  character outside the alphabet such as the line end a proxy sends, returns the bytes, whatever
  the padding.
\<close>

theorem base64_text_roundtrip:
  assumes "t = [] \<or> \<not> is_base64 (hd t)"
  shows "base64_decode (base64_encode bs @ t) = bs"
  using assms b64_blocks_enc[of bs] unfolding base64_decode_def by (subst takeWhile_before) auto

theorem base64_text_roundtrip_witness:
  "base64_decode (base64_encode [0x53, 0x69, 0x6d, 0xff] @ [CHR 0x0D, CHR 0x0A]) = [0x53, 0x69, 0x6d, 0xff]"
  by (rule base64_text_roundtrip) code_simp

end
