(* ===== verification/Hex_Codec.thy ===== *)
theory Hex_Codec
  imports Cxx_Library
begin

text \<open>
  The hexadecimal conversions of \<open>CommonFnc.cpp\<close>: \<open>BYTE_ConvertFromHexStringToArray\<close> (both
  overloads), \<open>BYTE_ConvertFromHexNumToByte\<close>, \<open>BYTE_ConvertFromArrayToHexString\<close> and
  \<open>APDU_ConvertToString\<close>. Every APDU the library logs, sends to the remote proxy or receives from
  it passes through them.
\<close>

subsection \<open>Status codes of \<open>status.H\<close> used by the modelled code\<close>

abbreviation STAT_OK :: status where "STAT_OK \<equiv> 0"
abbreviation STAT_NOT_ENOUGHT_MEMORY :: status where "STAT_NOT_ENOUGHT_MEMORY \<equiv> 3"
abbreviation STAT_DATA_INCORRECT_LENGTH :: status where "STAT_DATA_INCORRECT_LENGTH \<equiv> 11"
abbreviation STAT_FILE_OPEN_FAIL :: status where "STAT_FILE_OPEN_FAIL \<equiv> 16"
abbreviation STAT_NOT_ENOUGHT_DATA_TYPE :: status where "STAT_NOT_ENOUGHT_DATA_TYPE \<equiv> 20"
abbreviation STAT_SCARD_ERROR :: status where "STAT_SCARD_ERROR \<equiv> 34"

subsection \<open>From bytes to text\<close>

definition BYTE_ConvertFromArrayToHexString :: "byte list \<Rightarrow> bool \<Rightarrow> string" where
  "BYTE_ConvertFromArrayToHexString pArray bAddSpace =
     erase_trailing (\<lambda>c. c = CHR '' '')
       (concat (map (\<lambda>b. fmt_02x b @ (if bAddSpace then '' '' else [])) pArray))"

subsection \<open>From text to bytes\<close>

definition hex_byte :: "string \<Rightarrow> byte" where
  "hex_byte hexNum = (let num = strtol 16 hexNum in if num = 255 then 255 else word_of_int num)"

definition BYTE_ConvertFromHexNumToByte :: "string \<Rightarrow> byte \<times> status" where
  "BYTE_ConvertFromHexNumToByte hexNum = (hex_byte hexNum, STAT_OK)"

text \<open>The scan of the compacted string, two characters at a time; an odd last digit counts.\<close>

fun hex_pairs :: "string \<Rightarrow> byte list" where
  "hex_pairs [] = []"
| "hex_pairs [c] = [hex_byte [c]]"
| "hex_pairs (c # d # s) = hex_byte [c, d] # hex_pairs s"

definition compact_hex :: "string \<Rightarrow> string" where
  "compact_hex hexaString =
     (let h1 = replace_char NL (CHR '' '') (erase_trailing (\<lambda>c. c = CHR '' '') hexaString);
          h2 = (case find_idx (\<lambda>c. c \<noteq> CHR '' '') h1 of None \<Rightarrow> h1 | Some p \<Rightarrow> drop p h1)
      in filter (\<lambda>c. c \<noteq> CHR '' '') h2)"

text \<open>
  The result: status, the array after the call, and the value stored through \<open>pbArrayLen\<close>. The
  capacity test uses the length the caller announces; the copy needs the array to have that room.
\<close>

definition BYTE_ConvertFromHexStringToArray ::
    "string \<Rightarrow> byte list \<Rightarrow> nat \<Rightarrow> (status \<times> byte list \<times> nat) res" where
  "BYTE_ConvertFromHexStringToArray hexaString pArray arrayLen =
     (let temp = hex_pairs (compact_hex hexaString); n = length temp
      in if n > arrayLen then Inr (STAT_NOT_ENOUGHT_MEMORY, pArray, n)
         else bindE (guardE (n \<le> length pArray) Out_Of_Bounds)
                (\<lambda>_. Inr (STAT_OK, blit pArray 0 temp, n)))"

text \<open>The overload with a \<open>BYTE\<close> length.\<close>

definition BYTE_ConvertFromHexStringToArray_BYTE ::
    "string \<Rightarrow> byte list \<Rightarrow> byte \<Rightarrow> (status \<times> byte list \<times> byte) res" where
  "BYTE_ConvertFromHexStringToArray_BYTE hexaString pArray pbArrayLen =
     bindE (BYTE_ConvertFromHexStringToArray hexaString pArray (unat pbArrayLen))
       (\<lambda>(status, arr, arrayLen).
          if arrayLen > 255 then Inr (STAT_NOT_ENOUGHT_DATA_TYPE, arr, pbArrayLen)
          else Inr (status, arr, of_nat arrayLen))"

subsection \<open>Printing an APDU\<close>

record CARDAPDU =
  cla :: byte
  ins :: byte
  p1 :: byte
  p2 :: byte
  lc :: byte
  le :: byte
  DataIn :: "byte list"
  DataOut :: "byte list"
  sw :: "16 word"

definition CARDAPDU_clear :: CARDAPDU where
  "CARDAPDU_clear = \<lparr>cla = 0, ins = 0, p1 = 0, p2 = 0, lc = 0, le = 0,
     DataIn = replicate 256 0, DataOut = replicate 256 0, sw = 0\<rparr>"

definition fmt_02x_int :: "nat \<Rightarrow> string" where
  "fmt_02x_int n = pad_left 2 (fmt_x n)"

definition APDU_ConvertToString :: "CARDAPDU \<Rightarrow> bool \<Rightarrow> string" where
  "APDU_ConvertToString a toSendAPDU =
     (if toSendAPDU then
        ''-> '' @ fmt_02x (cla a) @ '' '' @ fmt_02x (ins a) @ '' '' @ fmt_02x (p1 a) @ '' '' @
        fmt_02x (p2 a) @ '' '' @ fmt_02x (lc a) @ '' '' @
        BYTE_ConvertFromArrayToHexString (take (unat (lc a)) (DataIn a)) True @ '' '' @ fmt_02x (le a)
      else
        ''<- '' @ BYTE_ConvertFromArrayToHexString (take (unat (le a)) (DataOut a)) True @ '' '' @
        fmt_02x_int (unat (sw a) div 256) @ '' '' @ fmt_02x_int (unat (sw a) mod 256))"

subsection \<open>Round trip\<close>

lemma hex_byte_fmt_02x: "hex_byte (fmt_02x b) = b"
proof -
  have b: "unat b < 256" by (rule unat_byte_less)
  then have "unat b div 16 < 16" "unat b mod 16 < 16" by (simp_all add: less_mult_imp_div_less)
  then have "strtol 16 (fmt_02x b) = int (unat b)"
    by (simp add: fmt_02x_def strtol_two_hex_digits del: of_nat_add of_nat_mult)
  moreover have "word_of_int (int (unat b)) = b" by simp
  moreover have "b = 255" if "int (unat b) = 255"
    using \<open>word_of_int (int (unat b)) = b\<close> unfolding that by simp
  ultimately show ?thesis
    by (auto simp only: hex_byte_def Let_def split: if_splits)
qed

lemma fmt_02x_chars: "c \<in> set (fmt_02x b) \<Longrightarrow> c \<noteq> CHR '' '' \<and> c \<noteq> NL"
proof -
  have "unat b div 16 < 16" "unat b mod 16 < 16"
    using unat_byte_less[of b] by (simp_all add: less_mult_imp_div_less)
  then show "c \<in> set (fmt_02x b) \<Longrightarrow> ?thesis" by (auto simp: fmt_02x_def)
qed

lemma hex_pairs_concat: "hex_pairs (concat (map fmt_02x bs)) = bs"
proof (induction bs)
  case (Cons b bs)
  have "hex_pairs (fmt_02x b @ s) = hex_byte (fmt_02x b) # hex_pairs s" for s
    by (simp add: fmt_02x_def)
  with Cons show ?case by (simp add: hex_byte_fmt_02x)
qed simp

lemma filter_erase_trailing:
  "filter (\<lambda>c. \<not> P c) (erase_trailing P s) = filter (\<lambda>c. \<not> P c) s"
proof -
  have "filter (\<lambda>c. \<not> P c) (dropWhile P xs) = filter (\<lambda>c. \<not> P c) xs" for xs
    by (induction xs) auto
  then show ?thesis by (simp add: erase_trailing_eq flip: rev_filter)
qed

lemma filter_two: "filter (\<lambda>c. c \<noteq> b) (filter (\<lambda>c. c \<noteq> a) s) = filter (\<lambda>c. c \<noteq> a \<and> c \<noteq> b) s"
  by (induction s) auto

text \<open>The whole trimming of the decoder is the removal of blanks and newlines.\<close>

lemma compact_hex_eq: "compact_hex s = filter (\<lambda>c. c \<noteq> CHR '' '' \<and> c \<noteq> NL) s"
proof -
  let ?h = "replace_char NL (CHR '' '') (erase_trailing (\<lambda>c. c = CHR '' '') s)"
  have skip: "filter (\<lambda>c. c \<noteq> CHR '' '') (drop p h) = filter (\<lambda>c. c \<noteq> CHR '' '') h"
    if "find_idx (\<lambda>c. c \<noteq> CHR '' '') h = Some p" for h p
    using that
  proof (induction h arbitrary: p)
    case (Cons c h)
    then show ?case by (auto split: if_splits)
  qed simp
  have repl: "filter (\<lambda>c. c \<noteq> CHR '' '') (replace_char NL (CHR '' '') t) =
        filter (\<lambda>c. c \<noteq> CHR '' '' \<and> c \<noteq> NL) t" for t
    by (induction t) (auto simp: replace_char_def)
  have "compact_hex s = filter (\<lambda>c. c \<noteq> CHR '' '') ?h"
    using skip by (auto simp: compact_hex_def Let_def split: option.splits)
  also have "\<dots> = filter (\<lambda>c. c \<noteq> NL) (filter (\<lambda>c. c \<noteq> CHR '' '')
      (erase_trailing (\<lambda>c. c = CHR '' '') s))"
    by (simp only: repl filter_two \<open>compact_hex s = _\<close>)
  also have "\<dots> = filter (\<lambda>c. c \<noteq> NL) (filter (\<lambda>c. c \<noteq> CHR '' '') s)"
    by (simp only: filter_erase_trailing)
  finally show ?thesis by (simp only: filter_two)
qed

lemma compact_hex_encode: "compact_hex (BYTE_ConvertFromArrayToHexString bs sp) = concat (map fmt_02x bs)"
proof -
  let ?e = "concat (map (\<lambda>b. fmt_02x b @ (if sp then '' '' else [])) bs)"
  have keep: "filter (\<lambda>c. c \<noteq> CHR '' '' \<and> c \<noteq> NL) (fmt_02x b) = fmt_02x b" for b
    using fmt_02x_chars by (simp add: filter_id_conv)
  have "compact_hex (BYTE_ConvertFromArrayToHexString bs sp) =
      filter (\<lambda>c. c \<noteq> NL) (filter (\<lambda>c. c \<noteq> CHR '' '') (erase_trailing (\<lambda>c. c = CHR '' '') ?e))"
    by (simp only: compact_hex_eq BYTE_ConvertFromArrayToHexString_def filter_two)
  also have "\<dots> = filter (\<lambda>c. c \<noteq> NL) (filter (\<lambda>c. c \<noteq> CHR '' '') ?e)"
    by (simp only: filter_erase_trailing)
  also have "\<dots> = filter (\<lambda>c. c \<noteq> CHR '' '' \<and> c \<noteq> NL) ?e" by (simp only: filter_two)
  also have "\<dots> = concat (map fmt_02x bs)"
    by (induction bs) (simp_all add: keep)
  finally show ?thesis .
qed

definition hex_decode :: "string \<Rightarrow> byte list option" where
  "hex_decode s = Some (hex_pairs (compact_hex s))"

interpretation hex_plain:
  codec "\<lambda>bs. BYTE_ConvertFromArrayToHexString bs False" hex_decode "\<lambda>_. True"
  by unfold_locales (simp add: hex_decode_def compact_hex_encode hex_pairs_concat)

interpretation hex_spaced:
  codec "\<lambda>bs. BYTE_ConvertFromArrayToHexString bs True" hex_decode "\<lambda>_. True"
  by unfold_locales (simp add: hex_decode_def compact_hex_encode hex_pairs_concat)

lemma hex_pairs_compact_encode [simp]:
  "hex_pairs (compact_hex (BYTE_ConvertFromArrayToHexString bs sp)) = bs"
  by (simp add: compact_hex_encode hex_pairs_concat)

lemma length_hex_pairs: "length (hex_pairs s) = (length s + 1) div 2"
  by (induction s rule: hex_pairs.induct) auto

subsection \<open>Properties\<close>

text \<open>
  C33: Hexadecimal text is read back. For bytes printed with or without blanks the conversion to
  an array of announced size \<open>n\<close> stores exactly these bytes and their number when they fit, and
  otherwise leaves the array alone, reports the required length and a memory error.
\<close>

theorem hex_text_roundtrip:
  assumes "n \<le> length arr"
  shows "BYTE_ConvertFromHexStringToArray (BYTE_ConvertFromArrayToHexString bs sp) arr n =
    Inr (if length bs \<le> n then (STAT_OK, blit arr 0 bs, length bs) else (STAT_NOT_ENOUGHT_MEMORY, arr, length bs))"
  using assms by (simp add: BYTE_ConvertFromHexStringToArray_def Let_def guardE_def)

theorem hex_text_roundtrip_witness:
  "BYTE_ConvertFromHexStringToArray (BYTE_ConvertFromArrayToHexString [0x00, 0xA4, 0x0f] True) [1, 2, 3, 4] 4 =
    Inr (STAT_OK, [0x00, 0xA4, 0x0f, 4], 3)"
  using hex_text_roundtrip[of 4 "[1, 2, 3, 4]" "[0x00, 0xA4, 0x0f]" True] by (simp add: blit_def)

end
