(* ===== verification/Sep_Array.thy ===== *)
theory Sep_Array
  imports Hex_Codec
begin

text \<open>
  Lists of names packed into one character array with a separator after each name
  (\<open>String_ParseSeparatedArray\<close>, \<open>String_ParseNullSeparatedArray\<close> and
  \<open>String_SerializeAsSeparatedArray\<close> of \<open>CommonFnc.cpp\<close>): the format in which PC/SC returns
  reader names, and with \<open>|\<close> as separator the format of the configured and remote readers.
  The functions are polymorphic in the character type, as the source has them for \<open>char\<close> and
  \<open>WCHAR\<close>. An array is the list of its readable cells; a read or write outside it is the fault
  \<^const>\<open>Out_Of_Bounds\<close>.
\<close>

type_synonym wchar = "16 word"

text \<open>Assigning a (signed) \<open>char\<close> to a \<open>WCHAR\<close>.\<close>

definition wchar_of_char :: "char \<Rightarrow> wchar" where
  "wchar_of_char c = word_of_int (sint (byte_of_char c))"

subsection \<open>Parsing\<close>

text \<open>
  The loop from position \<open>pos\<close>: \<open>rem\<close> is \<open>arraySize - pos\<close>, \<open>mem\<close> the cells from \<open>pos\<close> on.
  The condition reads \<open>array[pos]\<close> (and \<open>array[pos + 1]\<close> after a separator) before it compares
  \<open>pos\<close> with the size.
\<close>

fun parse_loop :: "'c \<Rightarrow> nat \<Rightarrow> 'c list \<Rightarrow> 'c list \<Rightarrow> 'c list list \<Rightarrow> ('c list \<times> 'c list list) res" where
  "parse_loop sep rem [] item out = Inl Out_Of_Bounds"
| "parse_loop sep rem (c # mem) item out =
     (if c = sep then
        (case mem of
           [] \<Rightarrow> Inl Out_Of_Bounds
         | d # _ \<Rightarrow>
             if d = sep \<or> rem = 0 then Inr (item, out)
             else parse_loop sep (rem - 1) mem [] (if item \<noteq> [] then out @ [item] else out))
      else if rem = 0 then Inr (item, out)
      else parse_loop sep (rem - 1) mem (item @ [c]) out)"

definition String_ParseSeparatedArray :: "'c list \<Rightarrow> nat \<Rightarrow> 'c \<Rightarrow> 'c list list \<Rightarrow> 'c list list res" where
  "String_ParseSeparatedArray array arraySize sep pValueString =
     bindE (if arraySize > 0 then parse_loop sep arraySize array [] pValueString
            else Inr ([], pValueString))
       (\<lambda>(item, out). Inr (if item \<noteq> [] then out @ [item] else out))"

definition String_ParseNullSeparatedArray :: "char list \<Rightarrow> nat \<Rightarrow> string list \<Rightarrow> string list res" where
  "String_ParseNullSeparatedArray array arraySize pValueString =
     String_ParseSeparatedArray array arraySize (CHR 0x00) pValueString"

definition String_ParseNullSeparatedArrayW ::
    "wchar list \<Rightarrow> nat \<Rightarrow> wchar list list \<Rightarrow> wchar list list res" where
  "String_ParseNullSeparatedArrayW array arraySize pValueString =
     String_ParseSeparatedArray array arraySize 0 pValueString"

subsection \<open>Serialising\<close>

text \<open>The sum of the lengths of the non-empty items, each with its separator.\<close>

fun reqLength :: "string list \<Rightarrow> nat" where
  "reqLength [] = 0"
| "reqLength (s # ss) = (if length s > 0 then length s + 1 else 0) + reqLength ss"

fun ser_items :: "(char \<Rightarrow> 'c) \<Rightarrow> 'c \<Rightarrow> string list \<Rightarrow> 'c list" where
  "ser_items conv sep [] = []"
| "ser_items conv sep (s # ss) =
     (if length s > 0 then map conv s @ [sep] else []) @ ser_items conv sep ss"

text \<open>
  \<open>conv\<close> is the conversion to the array's character type: the identity for \<open>char\<close>,
  \<^const>\<open>wchar_of_char\<close> for \<open>WCHAR\<close>. The result is the status, the array and the size.
\<close>

definition String_SerializeAsSeparatedArray ::
    "(char \<Rightarrow> 'c) \<Rightarrow> string list \<Rightarrow> 'c \<Rightarrow> 'c list option \<Rightarrow> nat \<Rightarrow> (status \<times> 'c list option \<times> nat) res" where
  "String_SerializeAsSeparatedArray conv items sep outArray arraySize =
     (case outArray of
        None \<Rightarrow> Inr (STAT_OK, None, reqLength items)
      | Some mem \<Rightarrow>
          if arraySize \<le> reqLength items then
            (let bytes = ser_items conv sep items
             in bindE (guardE (length bytes \<le> length mem) Out_Of_Bounds)
                  (\<lambda>_. Inr (STAT_OK, Some (blit mem 0 bytes), length bytes)))
          else Inr (STAT_NOT_ENOUGHT_MEMORY, Some mem, arraySize))"

subsection \<open>Round trip\<close>

lemma length_ser_items [simp]: "length (ser_items conv sep ss) = reqLength ss"
  by (induction ss) auto

text \<open>Reading one separator-free item extends the current item.\<close>

lemma parse_loop_item:
  assumes "sep \<notin> set w" and "length w \<le> rem"
  shows "parse_loop sep rem (w @ mem) item out = parse_loop sep (rem - length w) mem (item @ w) out"
  using assms
proof (induction w arbitrary: rem item)
  case (Cons c w)
  then show ?case by (cases rem) auto
qed simp

lemma parse_loop_sep:
  assumes "rem > 0" and "d \<noteq> sep"
  shows "parse_loop sep rem (sep # d # mem) item out =
    parse_loop sep (rem - 1) (d # mem) [] (if item \<noteq> [] then out @ [item] else out)"
  using assms by simp

lemma parse_loop_end:
  "parse_loop sep rem (sep # sep # mem) item out = Inr (item, out)"
  by simp

definition sep_free :: "(char \<Rightarrow> 'c) \<Rightarrow> 'c \<Rightarrow> string list \<Rightarrow> bool" where
  "sep_free conv sep ss \<longleftrightarrow> (\<forall>s \<in> set ss. s \<noteq> [] \<and> sep \<notin> conv ` set s)"

text \<open>
  The array of a non-empty list of proper names, closed by one more separator, parses back to
  the names; what follows in memory is not read.
\<close>

lemma parse_loop_ser_items:
  assumes "sep_free conv sep (s # ss)" and "rem = reqLength (s # ss)"
  shows "parse_loop sep rem (ser_items conv sep (s # ss) @ sep # mem) [] out =
    Inr (map conv (last (s # ss)), out @ map (map conv) (butlast (s # ss)))"
  using assms
proof (induction ss arbitrary: s rem out)
  case Nil
  then have "sep \<notin> set (map conv s)" "s \<noteq> []" by (auto simp: sep_free_def)
  moreover have "length (map conv s) \<le> rem" using Nil.prems(2) by (auto split: if_splits)
  ultimately have "parse_loop sep rem (map conv s @ sep # sep # mem) [] out =
      parse_loop sep (rem - length (map conv s)) (sep # sep # mem) ([] @ map conv s) out"
    by (intro parse_loop_item)
  with \<open>s \<noteq> []\<close> show ?case by simp
next
  case (Cons t ss)
  let ?rest = "ser_items conv sep (t # ss) @ sep # mem"
  from Cons.prems have s: "sep \<notin> set (map conv s)" "s \<noteq> []" "t \<noteq> []"
    and free: "sep_free conv sep (t # ss)"
    by (auto simp: sep_free_def)
  then obtain c t' where t: "t = c # t'" by (cases t) auto
  have c: "conv c \<noteq> sep" using free by (auto simp: sep_free_def t)
  have rem: "rem = length s + 1 + reqLength (t # ss)" using Cons.prems(2) s by simp
  have rest: "\<exists>r. ?rest = conv c # r" by (simp add: t)
  then obtain r where r: "?rest = conv c # r" by blast
  have "parse_loop sep rem (ser_items conv sep (s # t # ss) @ sep # mem) [] out =
      parse_loop sep rem (map conv s @ sep # ?rest) [] out"
    using s by simp
  also have "\<dots> = parse_loop sep (rem - length s) (sep # ?rest) (map conv s) out"
    using parse_loop_item[OF s(1), of rem "sep # ?rest" "[]" out] rem by simp
  also have "\<dots> = parse_loop sep (reqLength (t # ss)) ?rest [] (out @ [map conv s])"
    using parse_loop_sep[OF _ c, of "rem - length s" r "map conv s" out] s rem r by simp
  finally show ?case
    using Cons.IH[OF free refl, of "out @ [map conv s]"] by simp
qed

lemma parse_serialized:
  assumes "sep_free conv sep ss" and "ss \<noteq> []"
  shows "String_ParseSeparatedArray (ser_items conv sep ss @ sep # mem) (reqLength ss) sep [] =
    Inr (map (map conv) ss)"
proof -
  obtain s ss' where ss: "ss = s # ss'" using assms(2) by (cases ss) auto
  have "last ss \<noteq> []" and "s \<noteq> []"
    using assms last_in_set[OF assms(2)] by (auto simp: sep_free_def ss)
  moreover have "reqLength ss > 0" using \<open>s \<noteq> []\<close> by (simp add: ss)
  moreover have "map (map conv) (butlast ss) @ [map conv (last ss)] = map (map conv) ss"
    using assms(2) by (metis append_butlast_last_id list.simps(8,9) map_append)
  ultimately show ?thesis
    using parse_loop_ser_items[of conv sep s ss' "reqLength ss" mem "[]"] assms(1)
    by (simp add: String_ParseSeparatedArray_def flip: ss)
qed

subsection \<open>Properties\<close>

text \<open>
  C35: Serialised names are parsed back. A non-empty list of non-empty names without the separator,
  written at the start of an array and closed by one more separator, is what parsing the array
  with the serialised length yields, in the array's character type; what follows is not read.
\<close>

theorem serialized_names_parse:
  assumes "sep_free conv sep ss" and "ss \<noteq> []" and "n \<le> reqLength ss" and "reqLength ss < length mem"
    and "mem ! reqLength ss = sep"
  shows "\<exists>arr. String_SerializeAsSeparatedArray conv ss sep (Some mem) n = Inr (STAT_OK, Some arr, reqLength ss) \<and>
    String_ParseSeparatedArray arr (reqLength ss) sep [] = Inr (map (map conv) ss)"
proof -
  have "blit mem 0 (ser_items conv sep ss) = ser_items conv sep ss @ sep # drop (Suc (reqLength ss)) mem"
    using assms(4,5) by (simp add: blit_0 Cons_nth_drop_Suc[symmetric])
  then show ?thesis
    using parse_serialized[OF assms(1,2)] assms(3,4)
    by (simp add: String_SerializeAsSeparatedArray_def Let_def guardE_def)
qed

theorem serialized_names_parse_witness:
  "\<exists>arr. String_SerializeAsSeparatedArray id [''ab'', ''c''] (CHR ''|'') (Some ''.....|'') 5 =
      Inr (STAT_OK, Some arr, 5) \<and>
    String_ParseSeparatedArray arr 5 (CHR ''|'') [] = Inr [''ab'', ''c'']"
  using serialized_names_parse[of id "CHR ''|''" "[''ab'', ''c'']" 5 "''.....|''"]
  by (simp add: sep_free_def numeral_eq_Suc)

text \<open>
  Only an array of exactly the required size is served. Given the true size of the array,
  the serialisation writes all bytes when the size is the required one, refuses a larger array
  for lack of memory, and writes past the end of a smaller one.
\<close>

theorem serialization_size_check:
  "String_SerializeAsSeparatedArray conv ss sep (Some mem) (length mem) =
    (if length mem = reqLength ss then Inr (STAT_OK, Some (ser_items conv sep ss), reqLength ss)
     else if reqLength ss < length mem then Inr (STAT_NOT_ENOUGHT_MEMORY, Some mem, length mem)
     else Inl Out_Of_Bounds)"
  by (auto simp: String_SerializeAsSeparatedArray_def Let_def guardE_def blit_0)

end
