(* ===== verification/Ini_Dict.thy ===== *)
theory Ini_Dict
  imports Cxx_Library
begin

unbundle bit_operations_syntax

text \<open>
  The dictionary of \<open>Iniparser/iniparser_all.h\<close>: three parallel arrays of values, keys and
  hashes with free slots in between, searched linearly and grown by doubling. It is the store
  behind every configuration lookup of the library. The section ends with its refinement: on
  well-formed dictionaries \<open>dictionary_get\<close>, \<open>dictionary_set\<close> and \<open>dictionary_unset\<close> are lookup,
  update and removal of a finite map, stated as an instance of a map interface.
\<close>

subsection \<open>Data\<close>

text \<open>A \<open>char*\<close> the code handles: \<open>NULL\<close>, the token \<open>(char*)-1\<close>, or a C string.\<close>

datatype charp = NULL | INI_INVALID_KEY | Str string

record dictionary =
  d_n :: nat
  d_size :: nat
  d_val :: "charp list"
  d_key :: "string option list"
  d_hash :: "dword list"

definition DICTMINSZ :: nat where "DICTMINSZ = 128"

text \<open>The one-at-a-time hash on \<open>unsigned\<close>; a \<open>char\<close> is sign-extended.\<close>

definition hash_step :: "dword \<Rightarrow> char \<Rightarrow> dword" where
  "hash_step h c =
     (let h1 = h + word_of_int (sint (byte_of_char c));
          h2 = h1 + push_bit 10 h1
      in h2 XOR drop_bit 6 h2)"

definition dictionary_hash :: "string \<Rightarrow> dword" where
  "dictionary_hash key =
     (let h = foldl hash_step 0 key;
          h1 = h + push_bit 3 h;
          h2 = h1 XOR drop_bit 11 h1
      in h2 + push_bit 15 h2)"

subsection \<open>Operations\<close>

definition dictionary_new :: "nat \<Rightarrow> dictionary" where
  "dictionary_new size0 =
     (let size1 = (if size0 < DICTMINSZ then DICTMINSZ else size0)
      in \<lparr>d_n = 0, d_size = size1, d_val = replicate size1 NULL,
          d_key = replicate size1 None, d_hash = replicate size1 0\<rparr>)"

text \<open>\<open>ok\<close> is the answer of the allocator; on failure nothing changes and -1 is returned.\<close>

definition dictionary_grow :: "bool \<Rightarrow> dictionary \<Rightarrow> dictionary \<times> int" where
  "dictionary_grow ok d =
     (if \<not> ok then (d, -1)
      else (d\<lparr>d_size := d_size d * 2,
              d_val := d_val d @ replicate (d_size d) NULL,
              d_key := d_key d @ replicate (d_size d) None,
              d_hash := d_hash d @ replicate (d_size d) 0\<rparr>, 0))"

text \<open>
  The search loop shared by the operations: the first slot whose hash agrees and whose key is
  the given one.
\<close>

definition slot_matches :: "dictionary \<Rightarrow> dword \<Rightarrow> string \<Rightarrow> nat \<Rightarrow> bool" where
  "slot_matches d hash key i =
     (case d_key d ! i of None \<Rightarrow> False | Some k \<Rightarrow> hash = d_hash d ! i \<and> key = k)"

definition find_slot :: "dictionary \<Rightarrow> string \<Rightarrow> nat option" where
  "find_slot d key =
     (let hash = dictionary_hash key in List.find (slot_matches d hash key) [0..<d_size d])"

definition dictionary_get :: "dictionary \<Rightarrow> string \<Rightarrow> charp \<Rightarrow> charp" where
  "dictionary_get d key def =
     (case find_slot d key of None \<Rightarrow> def | Some i \<Rightarrow> d_val d ! i)"

text \<open>The probe for a free slot from index \<open>n\<close> on, wrapping at the size.\<close>

fun next_free :: "nat \<Rightarrow> string option list \<Rightarrow> nat \<Rightarrow> nat option" where
  "next_free 0 keys i = None"
| "next_free (Suc fuel) keys i =
     (if i < length keys \<and> keys ! i = None then Some i
      else next_free fuel keys (if Suc i = length keys then 0 else Suc i))"

definition put_slot :: "dictionary \<Rightarrow> nat \<Rightarrow> string \<Rightarrow> charp \<Rightarrow> dictionary" where
  "put_slot d i key v =
     d\<lparr>d_key := (d_key d)[i := Some key], d_val := (d_val d)[i := v],
       d_hash := (d_hash d)[i := dictionary_hash key], d_n := d_n d + 1\<rparr>"

definition dictionary_set :: "bool \<Rightarrow> dictionary \<Rightarrow> string \<Rightarrow> charp \<Rightarrow> (dictionary \<times> int) res" where
  "dictionary_set ok d key v =
     (case (if d_n d > 0 then find_slot d key else None) of
        Some i \<Rightarrow> Inr (d\<lparr>d_val := (d_val d)[i := v]\<rparr>, 0)
      | None \<Rightarrow>
          (let (d1, rc) = (if d_n d = d_size d then dictionary_grow ok d else (d, 0))
           in if rc \<noteq> 0 then Inr (d1, -1)
              else (case next_free (d_size d1) (d_key d1) (d_n d1) of
                      None \<Rightarrow> Inl Hang
                    | Some i \<Rightarrow> Inr (put_slot d1 i key v, 0))))"

definition dictionary_unset :: "dictionary \<Rightarrow> string \<Rightarrow> dictionary" where
  "dictionary_unset d key =
     (case find_slot d key of
        None \<Rightarrow> d
      | Some i \<Rightarrow> d\<lparr>d_key := (d_key d)[i := None], d_val := (d_val d)[i := NULL],
                    d_hash := (d_hash d)[i := 0], d_n := d_n d - 1\<rparr>)"

subsection \<open>Well-formedness\<close>

definition used_slots :: "string option list \<Rightarrow> nat" where
  "used_slots ks = length (filter (\<lambda>k. k \<noteq> None) ks)"

definition dict_wf :: "dictionary \<Rightarrow> bool" where
  "dict_wf d \<longleftrightarrow>
     length (d_val d) = d_size d \<and> length (d_key d) = d_size d \<and> length (d_hash d) = d_size d \<and>
     0 < d_size d \<and> d_n d = used_slots (d_key d) \<and>
     (\<forall>i < d_size d. \<forall>k. d_key d ! i = Some k \<longrightarrow> d_hash d ! i = dictionary_hash k) \<and>
     (\<forall>i < d_size d. \<forall>j < d_size d. d_key d ! i \<noteq> None \<longrightarrow> d_key d ! i = d_key d ! j \<longrightarrow> i = j)"

lemma dict_wfD:
  assumes "dict_wf d"
  shows "length (d_val d) = d_size d" "length (d_key d) = d_size d" "length (d_hash d) = d_size d"
    "0 < d_size d" "d_n d = used_slots (d_key d)"
    "\<And>i k. i < d_size d \<Longrightarrow> d_key d ! i = Some k \<Longrightarrow> d_hash d ! i = dictionary_hash k"
    "\<And>i j k. i < d_size d \<Longrightarrow> j < d_size d \<Longrightarrow> d_key d ! i = Some k \<Longrightarrow> d_key d ! j = Some k \<Longrightarrow> i = j"
proof -
  from assms show "length (d_val d) = d_size d" "length (d_key d) = d_size d"
    "length (d_hash d) = d_size d" "0 < d_size d" "d_n d = used_slots (d_key d)"
    by (simp_all add: dict_wf_def)
  fix i j k
  assume i: "i < d_size d" "d_key d ! i = Some k"
  with assms show "d_hash d ! i = dictionary_hash k" by (simp add: dict_wf_def)
  assume "j < d_size d" "d_key d ! j = Some k"
  with i assms show "i = j" by (simp add: dict_wf_def)
qed

lemma used_slots_update:
  "i < length ks \<Longrightarrow>
     used_slots (ks[i := Some k]) = (if ks ! i = None then used_slots ks + 1 else used_slots ks)"
proof (induction ks arbitrary: i)
  case (Cons x ks)
  then show ?case by (cases i) (auto simp: used_slots_def)
qed simp

lemma used_slots_clear:
  "i < length ks \<Longrightarrow> ks ! i \<noteq> None \<Longrightarrow> used_slots (ks[i := None]) = used_slots ks - 1"
proof (induction ks arbitrary: i)
  case (Cons x ks)
  show ?case
  proof (cases i)
    case 0
    with Cons show ?thesis by (auto simp: used_slots_def)
  next
    case (Suc j)
    with Cons have j: "j < length ks" "ks ! j \<noteq> None" by auto
    then have "ks ! j \<in> set (filter (\<lambda>k. k \<noteq> None) ks)" by simp
    then have "used_slots ks > 0" unfolding used_slots_def by (metis length_pos_if_in_set)
    with Cons.IH[OF j] Suc show ?thesis by (auto simp: used_slots_def)
  qed
qed simp

lemma used_slots_le: "used_slots ks \<le> length ks"
  by (simp add: used_slots_def)

lemma used_slots_full: "used_slots ks = length ks \<longleftrightarrow> None \<notin> set ks"
  unfolding used_slots_def using length_filter_less[of None ks "\<lambda>k. k \<noteq> None"]
  by (metis (mono_tags, lifting) filter_True nat_neq_iff)

lemma find_slot_eq:
  assumes "dict_wf d"
  shows "find_slot d key = Some i \<longleftrightarrow> i < d_size d \<and> d_key d ! i = Some key"
proof
  assume "find_slot d key = Some i"
  then show "i < d_size d \<and> d_key d ! i = Some key"
    by (auto simp: find_slot_def Let_def find_Some_iff slot_matches_def split: option.splits)
next
  assume i: "i < d_size d \<and> d_key d ! i = Some key"
  then have "slot_matches d (dictionary_hash key) key i"
    using dict_wfD(6)[OF assms, of i key] by (simp add: slot_matches_def)
  moreover have "\<not> slot_matches d (dictionary_hash key) key j" if "j < i" for j
    using that i dict_wfD(7)[OF assms, of j i key] by (auto simp: slot_matches_def split: option.splits)
  ultimately show "find_slot d key = Some i"
    using i by (auto simp: find_slot_def Let_def find_Some_iff)
qed

lemma find_slot_None:
  assumes "dict_wf d"
  shows "find_slot d key = None \<longleftrightarrow> (\<forall>i < d_size d. d_key d ! i \<noteq> Some key)"
  using find_slot_eq[OF assms] by (metis option.exhaust option.distinct(1))

text \<open>The probe finds a free slot whenever there is one: enough fuel is the table size.\<close>

lemma next_free_sound: "next_free f keys i = Some j \<Longrightarrow> j < length keys \<and> keys ! j = None"
  by (induction f keys i rule: next_free.induct) (auto split: if_splits)

lemma next_free_reaches:
  "i \<le> j \<Longrightarrow> j < length keys \<Longrightarrow> keys ! j = None \<Longrightarrow> j - i < f \<Longrightarrow> next_free f keys i \<noteq> None"
proof (induction f arbitrary: i)
  case (Suc f)
  show ?case
  proof (cases "keys ! i = None")
    case True
    with Suc.prems show ?thesis by simp
  next
    case False
    with Suc.prems have "i < j" by (metis le_neq_implies_less)
    then have "Suc i \<noteq> length keys" "next_free f keys (Suc i) \<noteq> None"
      using Suc.prems Suc.IH[of "Suc i"] by auto
    with False show ?thesis by simp
  qed
qed simp

lemma next_free_mono: "next_free f keys i \<noteq> None \<Longrightarrow> f \<le> g \<Longrightarrow> next_free g keys i \<noteq> None"
proof (induction f keys i arbitrary: g rule: next_free.induct)
  case (2 f keys i)
  then obtain g' where g: "g = Suc g'" "f \<le> g'" by (cases g) auto
  with 2 show ?case by auto
qed simp

lemma next_free_wraps:
  "i < length keys \<Longrightarrow> j < i \<Longrightarrow> keys ! j = None \<Longrightarrow> next_free (length keys - i + Suc j) keys i \<noteq> None"
proof (induction "length keys - i" arbitrary: i)
  case (Suc m)
  have f: "length keys - i + Suc j = Suc (m + Suc j)" using Suc.hyps(2) by simp
  show ?case
  proof (cases "keys ! i = None \<or> Suc i = length keys")
    case True
    moreover have "next_free (m + Suc j) keys 0 \<noteq> None"
      using next_free_reaches[of 0 j keys "m + Suc j"] Suc.prems by simp
    ultimately show ?thesis using Suc.prems unfolding f by auto
  next
    case False
    then have "next_free (length keys - Suc i + Suc j) keys (Suc i) \<noteq> None"
      using Suc.hyps(1)[of "Suc i"] Suc.hyps(2) Suc.prems by auto
    moreover have "length keys - Suc i + Suc j = m + Suc j" using Suc.hyps(2) by simp
    ultimately show ?thesis using False unfolding f by auto
  qed
qed simp

lemma next_free_total:
  assumes "None \<in> set keys" and "i < length keys"
  shows "\<exists>j. next_free (length keys) keys i = Some j"
proof -
  obtain j where j: "j < length keys" "keys ! j = None" using assms(1) by (auto simp: in_set_conv_nth)
  have "next_free (length keys) keys i \<noteq> None"
  proof (cases "i \<le> j")
    case True
    then show ?thesis using next_free_reaches[of i j keys "length keys"] j by simp
  next
    case False
    then have "next_free (length keys - i + Suc j) keys i \<noteq> None"
      using next_free_wraps[OF assms(2)] j by simp
    then show ?thesis by (rule next_free_mono) (use False assms(2) in simp)
  qed
  then show ?thesis by blast
qed

subsection \<open>Refinement to a finite map\<close>

text \<open>What a key is mapped to: \<open>None\<close> when no slot holds it.\<close>

definition dict_abs :: "dictionary \<Rightarrow> string \<Rightarrow> charp option" where
  "dict_abs d key = map_option (\<lambda>i. d_val d ! i) (find_slot d key)"

lemma dictionary_get_abs: "dictionary_get d key def = (case dict_abs d key of None \<Rightarrow> def | Some v \<Rightarrow> v)"
  by (simp add: dictionary_get_def dict_abs_def split: option.split)

lemma dict_abs_Some:
  assumes "dict_wf d"
  shows "dict_abs d key = Some v \<longleftrightarrow> (\<exists>i < d_size d. d_key d ! i = Some key \<and> v = d_val d ! i)"
  using find_slot_eq[OF assms] by (auto simp: dict_abs_def)

lemma dict_abs_None:
  assumes "dict_wf d"
  shows "dict_abs d key = None \<longleftrightarrow> (\<forall>i < d_size d. d_key d ! i \<noteq> Some key)"
  using find_slot_None[OF assms] by (simp add: dict_abs_def)

lemma dict_abs_eqI:
  assumes "dict_wf d" and "\<And>v. m key = Some v \<Longrightarrow> \<exists>i < d_size d. d_key d ! i = Some key \<and> v = d_val d ! i"
    and "m key = None \<Longrightarrow> \<forall>i < d_size d. d_key d ! i \<noteq> Some key"
  shows "dict_abs d key = m key"
proof (cases "m key")
  case None
  then show ?thesis using assms(3) dict_abs_None[OF assms(1)] by simp
next
  case (Some v)
  then show ?thesis using assms(2) dict_abs_Some[OF assms(1)] by simp
qed

lemma dict_wf_new [simp]: "dict_wf (dictionary_new n)"
  by (auto simp: dict_wf_def dictionary_new_def Let_def DICTMINSZ_def used_slots_def)

lemma dict_abs_new: "dict_abs (dictionary_new n) key = None"
  by (simp add: dict_abs_None, simp add: dictionary_new_def Let_def)

lemma dict_wf_grow:
  assumes "dict_wf d"
  shows "dict_wf (fst (dictionary_grow ok d))"
proof -
  have "used_slots (d_key d @ replicate m None) = used_slots (d_key d)" for m
    by (simp add: used_slots_def)
  moreover have "d_key d ! i = (d_key d @ replicate (d_size d) None) ! i" if "i < d_size d" for i
    using that dict_wfD(2)[OF assms] by (simp add: nth_append)
  ultimately show ?thesis
    using assms by (auto simp: dictionary_grow_def dict_wf_def nth_append split: if_splits)
qed

lemma dict_abs_grow:
  assumes "dict_wf d"
  shows "dict_abs (fst (dictionary_grow ok d)) = dict_abs d"
proof
  fix key
  let ?g = "fst (dictionary_grow ok d)"
  have g: "dict_wf ?g" using assms by (rule dict_wf_grow)
  note wf = dict_wfD(1-4)[OF assms]
  have old: "d_key ?g ! i = d_key d ! i" "d_val ?g ! i = d_val d ! i" "i < d_size ?g"
    if "i < d_size d" for i
    using that wf by (auto simp: dictionary_grow_def nth_append)
  have new: "d_key ?g ! i = None" if "d_size d \<le> i" "i < d_size ?g" for i
    using that wf by (auto simp: dictionary_grow_def nth_append split: if_splits)
  show "dict_abs ?g key = dict_abs d key"
  proof (rule dict_abs_eqI[OF g])
    fix v
    assume "dict_abs d key = Some v"
    then obtain i where "i < d_size d" "d_key d ! i = Some key" "v = d_val d ! i"
      by (auto simp: dict_abs_Some[OF assms])
    then show "\<exists>i<d_size ?g. d_key ?g ! i = Some key \<and> v = d_val ?g ! i"
      using old by metis
  next
    assume "dict_abs d key = None"
    then show "\<forall>i<d_size ?g. d_key ?g ! i \<noteq> Some key"
      using old new by (metis dict_abs_None[OF assms] not_le option.distinct(1))
  qed
qed

lemma put_slot_wf_abs:
  assumes wf: "dict_wf d" and i: "i < d_size d" "d_key d ! i = None"
    and fresh: "\<forall>j < d_size d. d_key d ! j \<noteq> Some key"
  shows "dict_wf (put_slot d i key v)" "dict_abs (put_slot d i key v) = (dict_abs d)(key \<mapsto> v)"
proof -
  note w = dict_wfD[OF wf]
  show g: "dict_wf (put_slot d i key v)"
    unfolding dict_wf_def
  proof (intro conjI allI impI)
    show "d_n (put_slot d i key v) = used_slots (d_key (put_slot d i key v))"
      using w(2,5) i by (simp add: put_slot_def used_slots_update)
  next
    fix a k
    assume "a < d_size (put_slot d i key v)" "d_key (put_slot d i key v) ! a = Some k"
    then show "d_hash (put_slot d i key v) ! a = dictionary_hash k"
      using w(1-3) w(6)[of a k] i by (cases "a = i") (simp_all add: put_slot_def)
  next
    fix a b
    assume "a < d_size (put_slot d i key v)" "b < d_size (put_slot d i key v)"
      "d_key (put_slot d i key v) ! a \<noteq> None" "d_key (put_slot d i key v) ! a = d_key (put_slot d i key v) ! b"
    then show "a = b"
      using w(1-3) w(7)[of a b] i fresh
      by (cases "a = i"; cases "b = i") (force simp: put_slot_def)+
  qed (use w in \<open>simp_all add: put_slot_def\<close>)
  show "dict_abs (put_slot d i key v) = (dict_abs d)(key \<mapsto> v)"
  proof
    fix k
    show "dict_abs (put_slot d i key v) k = ((dict_abs d)(key \<mapsto> v)) k"
    proof (rule dict_abs_eqI[OF g])
      fix u
      assume u: "((dict_abs d)(key \<mapsto> v)) k = Some u"
      show "\<exists>a<d_size (put_slot d i key v). d_key (put_slot d i key v) ! a = Some k \<and>
          u = d_val (put_slot d i key v) ! a"
      proof (cases "k = key")
        case True
        then show ?thesis using u i w(1-3) by (intro exI[of _ i]) (simp add: put_slot_def)
      next
        case False
        with u obtain a where "a < d_size d" "d_key d ! a = Some k" "u = d_val d ! a"
          by (auto simp: dict_abs_Some[OF wf])
        then show ?thesis using i by (intro exI[of _ a]) (auto simp: put_slot_def nth_list_update w(1-3))
      qed
    next
      assume "((dict_abs d)(key \<mapsto> v)) k = None"
      then have "k \<noteq> key" "\<forall>j < d_size d. d_key d ! j \<noteq> Some k"
        by (auto simp: dict_abs_None[OF wf] split: if_splits)
      then show "\<forall>a<d_size (put_slot d i key v). d_key (put_slot d i key v) ! a \<noteq> Some k"
        using i w(2) by (auto simp: put_slot_def nth_list_update)
    qed
  qed
qed

text \<open>Overwriting the value of a present key.\<close>

lemma set_val_wf_abs:
  assumes wf: "dict_wf d" and i: "find_slot d key = Some i"
  shows "dict_wf (d\<lparr>d_val := (d_val d)[i := v]\<rparr>)"
    "dict_abs (d\<lparr>d_val := (d_val d)[i := v]\<rparr>) = (dict_abs d)(key \<mapsto> v)"
proof -
  let ?d = "d\<lparr>d_val := (d_val d)[i := v]\<rparr>"
  have slot: "i < d_size d" "d_key d ! i = Some key" using i find_slot_eq[OF wf] by simp_all
  show g: "dict_wf ?d"
    unfolding dict_wf_def
  proof (intro conjI allI impI)
    fix a b
    assume "a < d_size ?d" "b < d_size ?d" "d_key ?d ! a \<noteq> None" "d_key ?d ! a = d_key ?d ! b"
    then show "a = b" using dict_wfD(7)[OF wf, of a b] by auto
  qed (use dict_wfD[OF wf] in simp_all)
  have "slot_matches ?d h k = slot_matches d h k" for h k
    by (rule ext) (simp add: slot_matches_def split: option.split)
  then have same: "find_slot ?d k = find_slot d k" for k by (simp add: find_slot_def)
  show "dict_abs ?d = (dict_abs d)(key \<mapsto> v)"
  proof
    fix k
    show "dict_abs ?d k = ((dict_abs d)(key \<mapsto> v)) k"
    proof (cases "k = key")
      case True
      then show ?thesis using i slot dict_wfD(1)[OF wf] by (simp add: dict_abs_def same)
    next
      case False
      then have "find_slot d k \<noteq> Some i" using slot find_slot_eq[OF wf, of k i] by auto
      with False show ?thesis by (cases "find_slot d k") (auto simp: dict_abs_def same)
    qed
  qed
qed

text \<open>\<open>dictionary_set\<close> always returns when memory is available, and updates the map.\<close>

lemma dictionary_set_correct:
  assumes wf: "dict_wf d"
  shows "\<exists>d'. dictionary_set True d key v = Inr (d', 0) \<and> dict_wf d' \<and> dict_abs d' = (dict_abs d)(key \<mapsto> v)"
proof (cases "find_slot d key")
  case (Some i)
  have "d_n d > 0"
  proof -
    from Some have "Some key \<in> set (d_key d)"
      using find_slot_eq[OF wf] dict_wfD(2)[OF wf] by (metis nth_mem)
    then have "Some key \<in> set (filter (\<lambda>k. k \<noteq> None) (d_key d))" by simp
    then show ?thesis unfolding dict_wfD(5)[OF wf] used_slots_def by (rule length_pos_if_in_set)
  qed
  with Some set_val_wf_abs[OF wf Some] show ?thesis by (simp add: dictionary_set_def)
next
  case None
  let ?d = "if d_n d = d_size d then fst (dictionary_grow True d) else d"
  have wf1: "dict_wf ?d" using wf dict_wf_grow by simp
  have abs1: "dict_abs ?d = dict_abs d" using dict_abs_grow[OF wf] by simp
  have len: "length (d_key ?d) = d_size ?d" using dict_wfD(2)[OF wf1] .
  have n: "d_n ?d = d_n d" by (simp add: dictionary_grow_def)
  have lt: "d_n ?d < d_size ?d"
    using used_slots_le[of "d_key d"] dict_wfD(2,4,5)[OF wf] by (auto simp: dictionary_grow_def)
  then have "None \<in> set (d_key ?d)"
    using used_slots_full[of "d_key ?d"] dict_wfD(5)[OF wf1] len by linarith
  then obtain i where i: "next_free (d_size ?d) (d_key ?d) (d_n d) = Some i"
    using next_free_total[of "d_key ?d" "d_n d"] lt len n by auto
  then have slot: "i < d_size ?d" "d_key ?d ! i = None" using next_free_sound len by metis+
  have "dict_abs ?d key = None" using None abs1 by (simp add: dict_abs_def)
  then have fresh: "\<forall>j < d_size ?d. d_key ?d ! j \<noteq> Some key" using dict_abs_None[OF wf1] by simp
  have "dictionary_set True d key v = Inr (put_slot ?d i key v, 0)"
    unfolding dictionary_set_def None if_cancel option.case
    using i by (cases "d_n d = d_size d") (simp_all add: dictionary_grow_def)
  then show ?thesis using put_slot_wf_abs[OF wf1 slot fresh, of v] abs1 by simp
qed

lemma dictionary_unset_correct:
  assumes wf: "dict_wf d"
  shows "dict_wf (dictionary_unset d key)" "dict_abs (dictionary_unset d key) = (dict_abs d)(key := None)"
proof -
  have "dict_wf (dictionary_unset d key) \<and> dict_abs (dictionary_unset d key) = (dict_abs d)(key := None)"
  proof (cases "find_slot d key")
    case None
    then show ?thesis using wf by (auto simp: dictionary_unset_def dict_abs_def)
  next
    case (Some i)
    then have i: "i < d_size d" "d_key d ! i = Some key" using find_slot_eq[OF wf] by simp_all
    note w = dict_wfD[OF wf]
    let ?d = "dictionary_unset d key"
    have keys: "d_key ?d ! a = (if a = i then None else d_key d ! a)"
      "d_val ?d ! a = (if a = i then NULL else d_val d ! a)"
      "d_hash ?d ! a = (if a = i then 0 else d_hash d ! a)" if "a < d_size d" for a
      using that Some w(1-3) by (simp_all add: dictionary_unset_def)
    have sz: "d_size ?d = d_size d" using Some by (simp add: dictionary_unset_def)
    have g: "dict_wf ?d"
      unfolding dict_wf_def
    proof (intro conjI allI impI)
      show "d_n ?d = used_slots (d_key ?d)"
        using Some i w(2,5) by (simp add: dictionary_unset_def used_slots_clear)
    next
      fix a k
      assume "a < d_size ?d" "d_key ?d ! a = Some k"
      then show "d_hash ?d ! a = dictionary_hash k" using keys[of a] w(6)[of a k] sz by (auto split: if_splits)
    next
      fix a b
      assume "a < d_size ?d" "b < d_size ?d" "d_key ?d ! a \<noteq> None" "d_key ?d ! a = d_key ?d ! b"
      then show "a = b" using keys(1)[of a] keys(1)[of b] w(7)[of a b] sz by (auto split: if_splits)
    qed (use w Some in \<open>simp_all add: dictionary_unset_def\<close>)
    have "dict_abs ?d k = ((dict_abs d)(key := None)) k" for k
    proof (rule dict_abs_eqI[OF g])
      fix v
      assume v: "((dict_abs d)(key := None)) k = Some v"
      then have "k \<noteq> key" "dict_abs d k = Some v" by (auto split: if_splits)
      then obtain a where "a < d_size d" "d_key d ! a = Some k" "v = d_val d ! a"
        by (auto simp: dict_abs_Some[OF wf])
      moreover from this have "a \<noteq> i" using i \<open>k \<noteq> key\<close> by auto
      ultimately show "\<exists>a<d_size ?d. d_key ?d ! a = Some k \<and> v = d_val ?d ! a"
        using keys[of a] sz by auto
    next
      assume "((dict_abs d)(key := None)) k = None"
      then have "\<forall>a < d_size d. d_key d ! a = Some k \<longrightarrow> k = key"
        by (auto simp: dict_abs_None[OF wf] split: if_splits)
      then show "\<forall>a<d_size ?d. d_key ?d ! a \<noteq> Some k"
        using keys(1) i w(7) sz by (metis option.distinct(1))
    qed
    with g show ?thesis by blast
  qed
  then show "dict_wf (dictionary_unset d key)" "dict_abs (dictionary_unset d key) = (dict_abs d)(key := None)"
    by simp_all
qed

text \<open>
  The contract the configuration code relies on: a well-formedness kept by every operation, and
  lookups that answer as a finite map does.
\<close>

locale map_store =
  fixes lookup :: "'d \<Rightarrow> 'k \<Rightarrow> 'v option" and update :: "'k \<Rightarrow> 'v \<Rightarrow> 'd \<Rightarrow> 'd"
    and delete :: "'k \<Rightarrow> 'd \<Rightarrow> 'd" and wf :: "'d \<Rightarrow> bool"
  assumes wf_update: "wf d \<Longrightarrow> wf (update k v d)"
    and wf_delete: "wf d \<Longrightarrow> wf (delete k d)"
    and lookup_update: "wf d \<Longrightarrow> lookup (update k v d) = (lookup d)(k \<mapsto> v)"
    and lookup_delete: "wf d \<Longrightarrow> lookup (delete k d) = (lookup d)(k := None)"
begin

definition store_all :: "('k \<times> 'v) list \<Rightarrow> 'd \<Rightarrow> 'd" where
  "store_all kvs = fold (\<lambda>(k, v). update k v) kvs"

lemma wf_store_all: "wf d \<Longrightarrow> wf (store_all kvs d)"
  by (induction kvs arbitrary: d) (auto simp: store_all_def wf_update)

lemma lookup_store_all: "wf d \<Longrightarrow> lookup (store_all kvs d) = lookup d ++ map_of (rev kvs)"
proof (induction kvs arbitrary: d)
  case Nil
  then show ?case by (simp add: store_all_def)
next
  case (Cons kv kvs)
  obtain k v where kv: "kv = (k, v)" by (cases kv)
  have "lookup (store_all (kv # kvs) d) = lookup (update k v d) ++ map_of (rev kvs)"
    using Cons.IH[OF wf_update[OF Cons.prems]] by (simp add: store_all_def kv)
  then show ?case using Cons.prems by (simp add: kv lookup_update)
qed

lemma update_other: "wf d \<Longrightarrow> k' \<noteq> k \<Longrightarrow> lookup (update k v d) k' = lookup d k'"
  by (simp add: lookup_update)

lemma delete_after_update:
  "wf d \<Longrightarrow> lookup d k = None \<Longrightarrow> lookup (delete k (update k v d)) = lookup d"
  by (auto simp: lookup_delete wf_update lookup_update)

end

definition dict_put :: "string \<Rightarrow> charp \<Rightarrow> dictionary \<Rightarrow> dictionary" where
  "dict_put k v d = (case dictionary_set True d k v of Inl _ \<Rightarrow> d | Inr (d', _) \<Rightarrow> d')"

lemma dict_put_correct:
  assumes "dict_wf d"
  shows "dict_wf (dict_put k v d)" "dict_abs (dict_put k v d) = (dict_abs d)(k \<mapsto> v)"
  using dictionary_set_correct[OF assms, of k v] by (auto simp: dict_put_def)

interpretation dict: map_store dict_abs dict_put "\<lambda>k d. dictionary_unset d k" dict_wf
  by unfold_locales (simp_all add: dict_put_correct dictionary_unset_correct)

end
