(* ===== verification/Ini_Parser.thy ===== *)
theory Ini_Parser
  imports Ini_Dict
begin

text \<open>
  The ini-file reader of \<open>Iniparser/iniparser_all.h\<close>: the lookup functions the configuration
  code calls, the classification of one line (\<open>iniparser_line\<close>, with its \<open>sscanf\<close> patterns) and
  the loading of a whole file (\<open>iniparser_load\<close>). Texts contain no NUL character, and the
  allocator answers every request.
\<close>

definition ASCIILINESZ :: nat where "ASCIILINESZ = 1024"

subsection \<open>String helpers\<close>

definition strlwc :: "string \<Rightarrow> nat \<Rightarrow> string" where
  "strlwc s len = map to_lower (take (len - 1) s)"

definition rstrip :: "string \<Rightarrow> string" where
  "rstrip s = rev (dropWhile is_space (rev s))"

definition strstrip :: "string \<Rightarrow> string" where
  "strstrip s = rstrip (dropWhile is_space s)"

subsection \<open>Lookups\<close>

definition iniparser_getstring :: "dictionary option \<Rightarrow> string \<Rightarrow> charp \<Rightarrow> charp" where
  "iniparser_getstring d key def =
     (case d of None \<Rightarrow> def | Some dict \<Rightarrow> dictionary_get dict (strlwc key (ASCIILINESZ + 1)) def)"

text \<open>The first character decides; reading it through \<open>NULL\<close> is a fault.\<close>

definition iniparser_getboolean :: "dictionary option \<Rightarrow> string \<Rightarrow> int \<Rightarrow> int res" where
  "iniparser_getboolean d key notfound =
     (case iniparser_getstring d key INI_INVALID_KEY of
        INI_INVALID_KEY \<Rightarrow> Inr notfound
      | NULL \<Rightarrow> Inl Null_Deref
      | Str [] \<Rightarrow> Inr notfound
      | Str (c # _) \<Rightarrow>
          Inr (if c = CHR ''y'' \<or> c = CHR ''Y'' \<or> c = CHR ''1'' \<or> c = CHR ''t'' \<or> c = CHR ''T'' then 1
               else if c = CHR ''n'' \<or> c = CHR ''N'' \<or> c = CHR ''0'' \<or> c = CHR ''f'' \<or> c = CHR ''F'' then 0
               else notfound))"

definition is_section_key :: "string option \<Rightarrow> bool" where
  "is_section_key k = (case k of None \<Rightarrow> False | Some s \<Rightarrow> CHR '':'' \<notin> set s)"

definition iniparser_getnsec :: "dictionary option \<Rightarrow> int" where
  "iniparser_getnsec d =
     (case d of None \<Rightarrow> -1 | Some dict \<Rightarrow> int (length (filter is_section_key (d_key dict))))"

text \<open>The \<open>n\<close>-th section name in slot order.\<close>

fun nth_section :: "string option list \<Rightarrow> nat \<Rightarrow> string option" where
  "nth_section [] n = None"
| "nth_section (k # ks) n =
     (if is_section_key k then (case n of 0 \<Rightarrow> k | Suc m \<Rightarrow> nth_section ks m) else nth_section ks n)"

definition iniparser_getsecname :: "dictionary option \<Rightarrow> int \<Rightarrow> string option" where
  "iniparser_getsecname d n =
     (case d of None \<Rightarrow> None | Some dict \<Rightarrow> if n < 0 then None else nth_section (d_key dict) (nat n))"

subsection \<open>One line\<close>

datatype line_status =
  LINE_UNPROCESSED | LINE_ERROR | LINE_EMPTY | LINE_COMMENT | LINE_SECTION | LINE_VALUE

text \<open>
  The \<open>sscanf\<close> patterns. All key/value patterns start with \<open>%[^=]\<close>; what follows is matched on
  the rest of the line and yields the value: a quoted value, a plain value up to a comment
  character, a comment character alone, and the key followed by equal signs only.
\<close>

definition scan_key :: "string \<Rightarrow> string \<times> string" where
  "scan_key l = (takeWhile (\<lambda>c. c \<noteq> CHR ''='') l, dropWhile (\<lambda>c. c \<noteq> CHR ''='') l)"

definition skip_ws :: "string \<Rightarrow> string" where
  "skip_ws = dropWhile is_space"

definition scan_set :: "(char \<Rightarrow> bool) \<Rightarrow> string \<Rightarrow> string option" where
  "scan_set P s = (case takeWhile P s of [] \<Rightarrow> None | v \<Rightarrow> Some v)"

definition scan_eq :: "string \<Rightarrow> string option" where
  "scan_eq rest = (case skip_ws rest of [] \<Rightarrow> None | c # cs \<Rightarrow> if c = CHR ''='' then Some (skip_ws cs) else None)"

definition scan_quoted :: "char \<Rightarrow> string \<Rightarrow> string option" where
  "scan_quoted q rest =
     (case scan_eq rest of
        Some (c # cs) \<Rightarrow> if c = q then scan_set (\<lambda>x. x \<noteq> q) cs else None
      | _ \<Rightarrow> None)"

definition scan_plain :: "string \<Rightarrow> string option" where
  "scan_plain rest =
     (case scan_eq rest of Some cs \<Rightarrow> scan_set (\<lambda>x. x \<noteq> CHR '';'' \<and> x \<noteq> CHR ''#'') cs | None \<Rightarrow> None)"

definition scan_novalue :: "string \<Rightarrow> bool" where
  "scan_novalue rest \<longleftrightarrow>
     (case scan_eq rest of Some cs \<Rightarrow> scan_set (\<lambda>x. x = CHR '';'' \<or> x = CHR ''#'') cs \<noteq> None | None \<Rightarrow> False) \<or>
     scan_set (\<lambda>x. x = CHR ''='') (skip_ws rest) \<noteq> None"

text \<open>The buffers \<open>section\<close>, \<open>key\<close> and \<open>value\<close> keep their content where a pattern fails.\<close>

definition iniparser_line ::
    "string \<Rightarrow> string \<Rightarrow> string \<Rightarrow> string \<Rightarrow> line_status \<times> string \<times> string \<times> string" where
  "iniparser_line input_line sec key val =
     (let line = strstrip input_line; len = length line
      in if len < 1 then (LINE_EMPTY, sec, key, val)
         else if hd line = CHR ''#'' \<or> hd line = CHR '';'' then (LINE_COMMENT, sec, key, val)
         else if hd line = CHR ''['' \<and> last line = CHR '']'' then
           (let s = (case scan_set (\<lambda>c. c \<noteq> CHR '']'') (tl line) of None \<Rightarrow> sec | Some s \<Rightarrow> s)
            in (LINE_SECTION, strlwc (strstrip s) len, key, val))
         else
           (let (k, rest) = scan_key line; lk = strlwc (strstrip k) len
            in if k = [] then (LINE_ERROR, sec, key, val)
               else case (case scan_quoted (CHR 0x22) rest of Some v \<Rightarrow> Some v | None \<Rightarrow> scan_quoted (CHR 0x27) rest) of
                 Some v \<Rightarrow> (LINE_VALUE, sec, lk, v)
               | None \<Rightarrow>
                  (case scan_plain rest of
                     Some v \<Rightarrow>
                       (let v' = strstrip v
                        in (LINE_VALUE, sec, lk,
                            if v' = [CHR 0x22, CHR 0x22] \<or> v' = [CHR 0x27, CHR 0x27] then [] else v'))
                   | None \<Rightarrow>
                       if scan_novalue rest then (LINE_VALUE, sec, lk, [])
                       else (LINE_ERROR, sec, k, val))))"

subsection \<open>A whole file\<close>

record load_state =
  ls_line :: string
  ls_section :: string
  ls_key :: string
  ls_val :: string
  ls_dict :: dictionary
  ls_errs :: nat

definition load_init :: load_state where
  "load_init = \<lparr>ls_line = [], ls_section = [], ls_key = [], ls_val = [],
     ls_dict = dictionary_new 0, ls_errs = 0\<rparr>"

text \<open>What the \<open>switch\<close> over the line status does with a complete logical line.\<close>

definition load_line :: "string \<Rightarrow> load_state \<Rightarrow> load_state" where
  "load_line line s =
     (let (sta, sec, key, val) = iniparser_line line (ls_section s) (ls_key s) (ls_val s);
          s1 = s\<lparr>ls_line := [], ls_section := sec, ls_key := key, ls_val := val\<rparr>
      in case sta of
           LINE_SECTION \<Rightarrow> s1\<lparr>ls_dict := dict_put sec NULL (ls_dict s)\<rparr>
         | LINE_VALUE \<Rightarrow> s1\<lparr>ls_dict := dict_put (sec @ '':'' @ key) (Str val) (ls_dict s)\<rparr>
         | LINE_ERROR \<Rightarrow> s1\<lparr>ls_errs := ls_errs s + 1\<rparr>
         | _ \<Rightarrow> s1)"

text \<open>\<open>fgets\<close>: at most \<open>n - 1\<close> characters, up to and including a newline.\<close>

definition fgets :: "nat \<Rightarrow> string \<Rightarrow> string \<times> string" where
  "fgets n rest =
     (let m = (case find_idx (\<lambda>c. c = NL) (take (n - 1) rest) of Some i \<Rightarrow> Suc i | None \<Rightarrow> min (n - 1) (length rest))
      in (take m rest, drop m rest))"

text \<open>
  The loop over the file. \<open>ls_line\<close> is the part of the line buffer before \<open>last\<close>, kept from a
  line that ended in a backslash. A chunk without newline that did not hit the end of the file
  is a line too long: \<open>None\<close>.
\<close>

function load_loop :: "string \<Rightarrow> load_state \<Rightarrow> load_state option" where
  "load_loop rest s =
     (if rest = [] then Some s
      else if length (ls_line s) + 2 > ASCIILINESZ then None
      else
        (let n = ASCIILINESZ - length (ls_line s);
             (chunk, rest') = fgets n rest;
             line = ls_line s @ chunk
         in if length line \<le> 1 then load_loop rest' s
            else if last line \<noteq> NL \<and> \<not> (rest' = [] \<and> length chunk < n - 1) then None
            else
              (let stripped = rstrip line
               in if stripped \<noteq> [] \<and> last stripped = CHR 0x5C
                  then load_loop rest' (s\<lparr>ls_line := butlast stripped\<rparr>)
                  else load_loop rest' (load_line stripped s))))"
  by pat_completeness auto

lemma fgets_consumes:
  assumes "rest \<noteq> []" and "n \<ge> 2"
  shows "length (snd (fgets n rest)) < length rest"
  using assms by (auto simp: fgets_def Let_def min_def split: option.splits)

termination load_loop
proof (relation "measure (\<lambda>(rest, s). length rest)", goal_cases)
  case (2 rest s n p chunk rest' line)
  then show ?case using fgets_consumes[of rest n] by (cases "fgets n rest") auto
next
  case (3 rest s n p chunk rest' line stripped)
  then show ?case using fgets_consumes[of rest n] by (cases "fgets n rest") auto
next
  case (4 rest s n p chunk rest' line stripped)
  then show ?case using fgets_consumes[of rest n] by (cases "fgets n rest") auto
qed simp

declare load_loop.simps [simp del]

text \<open>The result is \<open>NULL\<close> (\<open>None\<close>) for a missing file, an overlong line or any syntax error.\<close>

definition iniparser_load :: "string option \<Rightarrow> dictionary option" where
  "iniparser_load file =
     (case file of
        None \<Rightarrow> None
      | Some content \<Rightarrow>
          (case load_loop content load_init of
             None \<Rightarrow> None
           | Some s \<Rightarrow> if ls_errs s > 0 then None else Some (ls_dict s)))"

end
