(* ===== verification/App_State.thy ===== *)
theory App_State
  imports Ini_Parser Hex_Codec
begin

text \<open>
  The state of the library and its logging. \<open>app\<close> collects the members of \<open>CWinscardApp\<close>
  (\<open>Winscard.h\<close>), the structures \<open>REMOTE_CONFIG\<close>, \<open>WINSCARD_CONFIG\<close>, \<open>APDU_RULE\<close> and
  \<open>APDU_SINGLE_RULE\<close> (\<open>stdafx.h\<close>), and the global variables of \<open>Winscard.cpp\<close>. What the
  program does not compute itself (clock, environment variables, files, network events, random
  numbers) is the record \<open>environment\<close>, a field of the state that no operation changes except by
  consuming events; what it emits (appended log text, sent bytes, requested delays) is collected
  in the state in order.
\<close>

subsection \<open>Rules\<close>

definition MAX_APDU_LENGTH :: nat where "MAX_APDU_LENGTH = 300"
definition OFFSET_CDATA :: int where "OFFSET_CDATA = 5"
definition INPUT_APDU :: int where "INPUT_APDU = 1"
definition OUTPUT_APDU :: int where "OUTPUT_APDU = 0"
definition CLA_ELEM :: int where "CLA_ELEM = 0"
definition INS_ELEM :: int where "INS_ELEM = 1"
definition P1_ELEM :: int where "P1_ELEM = 2"
definition P2_ELEM :: int where "P2_ELEM = 3"
definition LC_ELEM :: int where "LC_ELEM = 4"
definition LE_ELEM :: int where "LE_ELEM = 299"

lemmas elem_defs = MAX_APDU_LENGTH_def OFFSET_CDATA_def INPUT_APDU_def OUTPUT_APDU_def
  CLA_ELEM_def INS_ELEM_def P1_ELEM_def P2_ELEM_def LC_ELEM_def LE_ELEM_def

record APDU_SINGLE_RULE =
  sr_valid :: bool
  sr_history :: int
  sr_apduDirection :: int
  sr_element :: int
  sr_value :: byte

text \<open>
  \<open>clear()\<close>, also the body of the constructor: it does not set \<open>apduDirection\<close>. A new object
  holds an arbitrary value there, the argument of \<open>APDU_SINGLE_RULE_new\<close>.
\<close>

definition APDU_SINGLE_RULE_clear :: "APDU_SINGLE_RULE \<Rightarrow> APDU_SINGLE_RULE" where
  "APDU_SINGLE_RULE_clear r = r\<lparr>sr_valid := False, sr_history := 0, sr_element := 0, sr_value := 0\<rparr>"

definition APDU_SINGLE_RULE_new :: "int \<Rightarrow> APDU_SINGLE_RULE" where
  "APDU_SINGLE_RULE_new junk =
     \<lparr>sr_valid = False, sr_history = 0, sr_apduDirection = junk, sr_element = 0, sr_value = 0\<rparr>"

record APDU_RULE =
  r_ruleName :: string
  r_usage :: int
  r_direction :: int
  r_matchRules :: "APDU_SINGLE_RULE list"
  r_actionRules :: "APDU_SINGLE_RULE list"
  r_msDelay :: int

definition APDU_RULE_clear :: "APDU_RULE \<Rightarrow> APDU_RULE" where
  "APDU_RULE_clear r =
     r\<lparr>r_msDelay := 0, r_ruleName := [], r_usage := 0, r_direction := INPUT_APDU,
       r_matchRules := map APDU_SINGLE_RULE_clear (r_matchRules r),
       r_actionRules := map APDU_SINGLE_RULE_clear (r_actionRules r)\<rparr>"

definition APDU_RULE_new :: APDU_RULE where
  "APDU_RULE_new = \<lparr>r_ruleName = [], r_usage = 0, r_direction = INPUT_APDU,
     r_matchRules = [], r_actionRules = [], r_msDelay = 0\<rparr>"

subsection \<open>Configuration\<close>

type_synonym sockid = nat

record REMOTE_CONFIG =
  bRedirect :: bool
  bOpenSocketForEveryCommand :: bool
  rc_IP :: string
  rc_port :: string
  rc_cfgScript :: string
  remoteReaderPrefix :: string
  remoteTag :: string
  measureApdu :: "byte list"
  measureApduLen :: byte
  measureApduByteCounter :: int
  measureApduByteDelay :: int
  pSocket :: "sockid option"
  baseReadOffset :: int
  readRatio :: int
  numSamples :: dword
  sampleReaded :: bool
  nextCommandID :: dword
  bDisableLogging :: bool

text \<open>\<open>clear()\<close> keeps the tag, which a new object has empty.\<close>

definition REMOTE_CONFIG_clear :: "REMOTE_CONFIG \<Rightarrow> REMOTE_CONFIG" where
  "REMOTE_CONFIG_clear c = c\<lparr>bRedirect := False, bOpenSocketForEveryCommand := False,
     rc_IP := [], rc_port := [], rc_cfgScript := [], remoteReaderPrefix := ''Simona'',
     measureApdu := replicate 255 0, measureApduLen := 0, measureApduByteCounter := 0,
     measureApduByteDelay := 0, pSocket := None, baseReadOffset := 0, readRatio := 1,
     numSamples := 1000, sampleReaded := False, nextCommandID := 1, bDisableLogging := False\<rparr>"

definition REMOTE_CONFIG_new :: REMOTE_CONFIG where
  "REMOTE_CONFIG_new = \<lparr>bRedirect = False, bOpenSocketForEveryCommand = False,
     rc_IP = [], rc_port = [], rc_cfgScript = [], remoteReaderPrefix = ''Simona'', remoteTag = [],
     measureApdu = replicate 255 0, measureApduLen = 0, measureApduByteCounter = 0,
     measureApduByteDelay = 0, pSocket = None, baseReadOffset = 0, readRatio = 1,
     numSamples = 1000, sampleReaded = False, nextCommandID = 1, bDisableLogging = False\<rparr>"

record WINSCARD_CONFIG =
  bAUTO_REQUEST_DATA :: bool
  bFORCE_CONNECT_SHARED_MODE :: bool
  bFORCE_APDU_NONZERO_INPUT_DATA :: bool
  bLOG_EXCHANGED_APDU :: bool
  bMODIFY_APDU_BY_RULES :: bool
  bLOG_WRITE_DESCRIPTION :: bool
  sREADER_ORDERED_FIRST :: string
  sVIRTUAL_READERS_STATIC :: string
  listVIRTUAL_READERS_STATIC :: "string list"
  listVIRTUAL_READERS :: "string list"
  sLOG_BASE_PATH :: string

text \<open>
  The two variants of \<open>clear()\<close>: with \<open>TRAFFIC_LOGGING\<close> defined (the logging build) and
  without.
\<close>

definition WINSCARD_CONFIG_clear :: "bool \<Rightarrow> WINSCARD_CONFIG \<Rightarrow> WINSCARD_CONFIG" where
  "WINSCARD_CONFIG_clear traffic_logging c = c\<lparr>bAUTO_REQUEST_DATA := False,
     bFORCE_CONNECT_SHARED_MODE := False, bFORCE_APDU_NONZERO_INPUT_DATA := False,
     bLOG_EXCHANGED_APDU := traffic_logging, bMODIFY_APDU_BY_RULES := traffic_logging,
     sREADER_ORDERED_FIRST := [], sLOG_BASE_PATH := []\<rparr>"

definition WINSCARD_CONFIG_new :: "bool \<Rightarrow> WINSCARD_CONFIG" where
  "WINSCARD_CONFIG_new traffic_logging = WINSCARD_CONFIG_clear traffic_logging
     \<lparr>bAUTO_REQUEST_DATA = False, bFORCE_CONNECT_SHARED_MODE = False,
      bFORCE_APDU_NONZERO_INPUT_DATA = False, bLOG_EXCHANGED_APDU = False,
      bMODIFY_APDU_BY_RULES = False, bLOG_WRITE_DESCRIPTION = False, sREADER_ORDERED_FIRST = [],
      sVIRTUAL_READERS_STATIC = [], listVIRTUAL_READERS_STATIC = [], listVIRTUAL_READERS = [],
      sLOG_BASE_PATH = []\<rparr>"

subsection \<open>The environment\<close>

text \<open>
  One \<open>recv\<close> after a successful \<open>select\<close>: a byte, an orderly shutdown (0), an error (-1, with
  \<open>errno = EAGAIN\<close> or not), or a timeout of the \<open>select\<close> (-2).
\<close>

datatype recv_event = RecvByte char | RecvClosed | RecvError bool | RecvTimeout

text \<open>
  The outcome of constructing a \<open>SocketClient\<close>: connected, the Winsock start or \<open>socket()\<close>
  failed (a \<open>char*\<close> is thrown), or the host lookup or \<open>connect\<close> failed (a \<open>std::string\<close>).
\<close>

datatype conn_event = ConnOk | ConnNoSocket string | ConnFailed string

record environment =
  ctime_text :: "nat \<Rightarrow> string"
  env_var :: "string \<Rightarrow> string option"
  file_text :: "string \<Rightarrow> string option"
  appendable :: "string \<Rightarrow> bool"
  module_file_name :: "string option"
  rand_value :: "nat \<Rightarrow> nat"

subsection \<open>The state\<close>

record app =
  rulesList :: "APDU_RULE list"
  apduInList :: "byte list list"
  apduOutList :: "byte list list"
  m_bRulesActive :: bool
  instructionDict :: "dictionary option"
  cardReaderMap :: "handle \<rightharpoonup> string"
  remoteReadersMap :: "handle \<rightharpoonup> string"
  remoteCardsATRMap :: "string \<rightharpoonup> string"
  m_nextRemoteCardID :: dword
  loadingBinaryName :: string
  m_remoteConfig :: REMOTE_CONFIG
  m_winscardConfig :: WINSCARD_CONFIG
  m_processedApduByteCounter :: dword
  m_charAllocatedMemoryList :: "addr list"
  m_wcharAllocatedMemoryList :: "addr list"
  apduCounter :: dword
  APDUPLAY_DEBUG_FILE :: string
  WINSCARD_LOG :: string
  WINSCARD_RULES_LOG :: string
  INSTRUCTION_FILE :: string
  w_env :: environment
  w_clock :: nat
  w_rands :: nat
  w_out :: "(string \<times> string) list"
  w_sleeps :: "int list"
  w_freed :: "addr list"
  w_live :: "sockid list"
  w_nextsock :: sockid
  w_conns :: "conn_event list"
  w_rx :: "recv_event list"
  w_tx :: "string list"
  w_dialed :: "(string \<times> 16 word) list"

text \<open>The state at the load of the library, in a given environment.\<close>

definition app_init :: "bool \<Rightarrow> environment \<Rightarrow> conn_event list \<Rightarrow> recv_event list \<Rightarrow> app" where
  "app_init traffic_logging env conns rx =
     \<lparr>rulesList = [], apduInList = [], apduOutList = [], m_bRulesActive = False,
      instructionDict = None, cardReaderMap = Map.empty, remoteReadersMap = Map.empty,
      remoteCardsATRMap = Map.empty, m_nextRemoteCardID = 1, loadingBinaryName = [],
      m_remoteConfig = REMOTE_CONFIG_new, m_winscardConfig = WINSCARD_CONFIG_new traffic_logging,
      m_processedApduByteCounter = 0, m_charAllocatedMemoryList = [],
      m_wcharAllocatedMemoryList = [], apduCounter = 0,
      APDUPLAY_DEBUG_FILE = ''c:'' @ [CHR 0x5C] @ ''Temp'' @ [CHR 0x5C] @ ''apduplay_debug.txt'',
      WINSCARD_LOG = ''winscard_log.txt'', WINSCARD_RULES_LOG = ''winscard_rules_log.txt'',
      INSTRUCTION_FILE = ''Instructions.txt'',
      w_env = env, w_clock = 0, w_rands = 0, w_out = [], w_sleeps = [], w_freed = [],
      w_live = [], w_nextsock = 0, w_conns = conns, w_rx = rx, w_tx = [], w_dialed = []\<rparr>"

subsection \<open>Actions\<close>

text \<open>
  A member function that may fault or throw: it returns its result or the fault, and in both
  cases the state it leaves behind, which is what a \<open>catch\<close> clause continues with.
\<close>

type_synonym 'a act = "app \<Rightarrow> 'a res \<times> app"

definition returnA :: "'a \<Rightarrow> 'a act" where "returnA x s = (Inr x, s)"
definition failA :: "fault \<Rightarrow> 'a act" where "failA e s = (Inl e, s)"
definition modA :: "(app \<Rightarrow> app) \<Rightarrow> unit act" where "modA f s = (Inr (), f s)"
definition getA :: "(app \<Rightarrow> 'a) \<Rightarrow> 'a act" where "getA f s = (Inr (f s), s)"
definition liftA :: "'a res \<Rightarrow> 'a act" where "liftA r s = (r, s)"

definition bindA :: "'a act \<Rightarrow> ('a \<Rightarrow> 'b act) \<Rightarrow> 'b act" where
  "bindA m f s = (case m s of (Inl e, s1) \<Rightarrow> (Inl e, s1) | (Inr x, s1) \<Rightarrow> f x s1)"

text \<open>\<open>try { m } catch (...) { h }\<close>: only exceptions are caught, undefined behaviour is not.\<close>

definition tryA :: "'a act \<Rightarrow> (cpp_exn \<Rightarrow> 'a act) \<Rightarrow> 'a act" where
  "tryA m h s = (case m s of (Inl (Throws x), s1) \<Rightarrow> h x s1 | r \<Rightarrow> r)"

fun forA :: "('a \<Rightarrow> unit act) \<Rightarrow> 'a list \<Rightarrow> unit act" where
  "forA f [] = returnA ()"
| "forA f (x # xs) = bindA (f x) (\<lambda>_. forA f xs)"

lemma act_simps [simp]:
  "returnA x s = (Inr x, s)"
  "failA e s = (Inl e, s)"
  "modA f s = (Inr (), f s)"
  "getA g s = (Inr (g s), s)"
  "liftA r s = (r, s)"
  by (simp_all add: returnA_def failA_def modA_def getA_def liftA_def)

lemma bindA_simps [simp]:
  "m s = (Inl e, s1) \<Longrightarrow> bindA m f s = (Inl e, s1)"
  "m s = (Inr x, s1) \<Longrightarrow> bindA m f s = f x s1"
  by (simp_all add: bindA_def)

lemma bindA_unfold:
  "bindA (modA g) f s = f () (g s)"
  "bindA (getA h) f s = f (h s) s"
  "bindA (returnA x) f s = f x s"
  by (simp_all add: bindA_def)

lemma bindA_eq_Inr:
  "bindA m f s = (Inr y, s2) \<longleftrightarrow> (\<exists>x s1. m s = (Inr x, s1) \<and> f x s1 = (Inr y, s2))"
  by (auto simp: bindA_def split: prod.split sum.split)

lemma tryA_Inr [simp]: "m s = (Inr x, s1) \<Longrightarrow> tryA m h s = (Inr x, s1)"
  by (simp add: tryA_def)

lemma tryA_Throws [simp]: "m s = (Inl (Throws e), s1) \<Longrightarrow> tryA m h s = h e s1"
  by (simp add: tryA_def)

text \<open>A property of the state that every step of a sequence keeps is kept by the sequence.\<close>

definition keeps :: "(app \<Rightarrow> bool) \<Rightarrow> 'a act \<Rightarrow> bool" where
  "keeps P m \<longleftrightarrow> (\<forall>s. P s \<longrightarrow> P (snd (m s)))"

lemma keepsI: "(\<And>s. P s \<Longrightarrow> P (snd (m s))) \<Longrightarrow> keeps P m"
  by (simp add: keeps_def)

lemma keepsD: "keeps P m \<Longrightarrow> P s \<Longrightarrow> P (snd (m s))"
  by (simp add: keeps_def)

lemma keeps_pure [intro]: "keeps P (returnA x)" "keeps P (failA e)" "keeps P (getA g)" "keeps P (liftA r)"
  by (simp_all add: keeps_def)

lemma keeps_modA: "(\<And>s. P s \<Longrightarrow> P (f s)) \<Longrightarrow> keeps P (modA f)"
  by (simp add: keeps_def)

lemma keeps_bindA: "keeps P m \<Longrightarrow> (\<And>x. keeps P (f x)) \<Longrightarrow> keeps P (bindA m f)"
  unfolding keeps_def bindA_def by (auto split: prod.split sum.split)

lemma keeps_tryA: "keeps P m \<Longrightarrow> (\<And>x. keeps P (h x)) \<Longrightarrow> keeps P (tryA m h)"
  unfolding keeps_def tryA_def by (auto split: prod.split sum.split fault.split)

lemma keeps_forA: "(\<And>x. keeps P (f x)) \<Longrightarrow> keeps P (forA f xs)"
  by (induction xs) (auto intro: keeps_bindA)

subsection \<open>Logging\<close>

text \<open>\<open>c_str()\<close> handed to a \<open>%s\<close> conversion ends at the first zero character.\<close>

definition c_str :: "string \<Rightarrow> string" where
  "c_str s = takeWhile (\<lambda>c. c \<noteq> CHR 0x00) s"

lemma c_str_id [simp]: "CHR 0x00 \<notin> set s \<Longrightarrow> c_str s = s"
  unfolding c_str_def by (induction s) auto

text \<open>A context or card handle printed with \<open>%x\<close>: its low 32 bits.\<close>

definition fmt_handle :: "handle \<Rightarrow> string" where
  "fmt_handle h = fmt_x (unat h mod 2 ^ 32)"

definition fmt_handle_08X :: "handle \<Rightarrow> string" where
  "fmt_handle_08X h = fmt_08X (unat h mod 2 ^ 32)"

definition getCurrentTimeString :: "app \<Rightarrow> string \<times> app" where
  "getCurrentTimeString s =
     (let temp = ctime_text (w_env s) (w_clock s)
      in (filter (\<lambda>c. c \<noteq> NL) (replace_char (CHR '':'') (CHR ''_'') (replace_char (CHR '' '') (CHR ''-'') temp)),
          s\<lparr>w_clock := w_clock s + 1\<rparr>))"

definition File_AppendString :: "string \<Rightarrow> string \<Rightarrow> app \<Rightarrow> status \<times> app" where
  "File_AppendString filePath data s =
     (if appendable (w_env s) filePath then (STAT_OK, s\<lparr>w_out := w_out s @ [(filePath, data)]\<rparr>)
      else (STAT_FILE_OPEN_FAIL, s))"

definition append_file :: "string \<Rightarrow> string \<Rightarrow> app \<Rightarrow> app" where
  "append_file filePath data s = snd (File_AppendString filePath data s)"

definition LogDebugString :: "string \<Rightarrow> bool \<Rightarrow> app \<Rightarrow> app" where
  "LogDebugString message bInsertTime s =
     (if \<not> bDisableLogging (m_remoteConfig s) then
        (if bInsertTime then
           (let (date_and_time, s1) = getCurrentTimeString s
            in append_file (APDUPLAY_DEBUG_FILE s1) (c_str date_and_time @ '': '' @ c_str message) s1)
         else append_file (APDUPLAY_DEBUG_FILE s) message s)
      else s)"

definition LogWinscardRules :: "string \<Rightarrow> app \<Rightarrow> app" where
  "LogWinscardRules message s =
     (if \<not> bDisableLogging (m_remoteConfig s) then
        (let s1 = LogDebugString message True s in append_file (WINSCARD_RULES_LOG s1) message s1)
      else s)"

definition DumpMemory :: "byte list \<Rightarrow> app \<Rightarrow> app" where
  "DumpMemory location s =
     (let message = BYTE_ConvertFromArrayToHexString location True;
          s1 = append_file (WINSCARD_LOG s) message s
      in append_file (WINSCARD_LOG s1) [NL] s1)"

abbreviation logA :: "string \<Rightarrow> unit act" where "logA m \<equiv> modA (LogWinscardRules m)"
abbreviation debugA :: "string \<Rightarrow> bool \<Rightarrow> unit act" where "debugA m b \<equiv> modA (LogDebugString m b)"

subsection \<open>What logging leaves unchanged\<close>

text \<open>Logging advances the clock and appends to files; every other part of the state stays.\<close>

lemma append_file_frame [simp, frame_simps]:
  "rulesList (append_file p d s) = rulesList s"
  "apduInList (append_file p d s) = apduInList s"
  "apduOutList (append_file p d s) = apduOutList s"
  "m_bRulesActive (append_file p d s) = m_bRulesActive s"
  "instructionDict (append_file p d s) = instructionDict s"
  "cardReaderMap (append_file p d s) = cardReaderMap s"
  "remoteReadersMap (append_file p d s) = remoteReadersMap s"
  "remoteCardsATRMap (append_file p d s) = remoteCardsATRMap s"
  "m_nextRemoteCardID (append_file p d s) = m_nextRemoteCardID s"
  "loadingBinaryName (append_file p d s) = loadingBinaryName s"
  "m_remoteConfig (append_file p d s) = m_remoteConfig s"
  "m_winscardConfig (append_file p d s) = m_winscardConfig s"
  "m_processedApduByteCounter (append_file p d s) = m_processedApduByteCounter s"
  "m_charAllocatedMemoryList (append_file p d s) = m_charAllocatedMemoryList s"
  "m_wcharAllocatedMemoryList (append_file p d s) = m_wcharAllocatedMemoryList s"
  "apduCounter (append_file p d s) = apduCounter s"
  "APDUPLAY_DEBUG_FILE (append_file p d s) = APDUPLAY_DEBUG_FILE s"
  "WINSCARD_LOG (append_file p d s) = WINSCARD_LOG s"
  "WINSCARD_RULES_LOG (append_file p d s) = WINSCARD_RULES_LOG s"
  "INSTRUCTION_FILE (append_file p d s) = INSTRUCTION_FILE s"
  "w_env (append_file p d s) = w_env s"
  "w_rands (append_file p d s) = w_rands s"
  "w_sleeps (append_file p d s) = w_sleeps s"
  "w_freed (append_file p d s) = w_freed s"
  "w_live (append_file p d s) = w_live s"
  "w_nextsock (append_file p d s) = w_nextsock s"
  "w_conns (append_file p d s) = w_conns s"
  "w_rx (append_file p d s) = w_rx s"
  "w_tx (append_file p d s) = w_tx s"
  "w_dialed (append_file p d s) = w_dialed s"
  by (simp_all add: append_file_def File_AppendString_def)

lemma append_file_clock [simp]: "w_clock (append_file p d s) = w_clock s"
  by (simp add: append_file_def File_AppendString_def)

lemma LogDebugString_frame [simp, frame_simps]:
  "rulesList (LogDebugString m b s) = rulesList s"
  "apduInList (LogDebugString m b s) = apduInList s"
  "apduOutList (LogDebugString m b s) = apduOutList s"
  "m_bRulesActive (LogDebugString m b s) = m_bRulesActive s"
  "instructionDict (LogDebugString m b s) = instructionDict s"
  "cardReaderMap (LogDebugString m b s) = cardReaderMap s"
  "remoteReadersMap (LogDebugString m b s) = remoteReadersMap s"
  "remoteCardsATRMap (LogDebugString m b s) = remoteCardsATRMap s"
  "m_nextRemoteCardID (LogDebugString m b s) = m_nextRemoteCardID s"
  "loadingBinaryName (LogDebugString m b s) = loadingBinaryName s"
  "m_remoteConfig (LogDebugString m b s) = m_remoteConfig s"
  "m_winscardConfig (LogDebugString m b s) = m_winscardConfig s"
  "m_processedApduByteCounter (LogDebugString m b s) = m_processedApduByteCounter s"
  "m_charAllocatedMemoryList (LogDebugString m b s) = m_charAllocatedMemoryList s"
  "m_wcharAllocatedMemoryList (LogDebugString m b s) = m_wcharAllocatedMemoryList s"
  "apduCounter (LogDebugString m b s) = apduCounter s"
  "APDUPLAY_DEBUG_FILE (LogDebugString m b s) = APDUPLAY_DEBUG_FILE s"
  "WINSCARD_LOG (LogDebugString m b s) = WINSCARD_LOG s"
  "WINSCARD_RULES_LOG (LogDebugString m b s) = WINSCARD_RULES_LOG s"
  "INSTRUCTION_FILE (LogDebugString m b s) = INSTRUCTION_FILE s"
  "w_env (LogDebugString m b s) = w_env s"
  "w_rands (LogDebugString m b s) = w_rands s"
  "w_sleeps (LogDebugString m b s) = w_sleeps s"
  "w_freed (LogDebugString m b s) = w_freed s"
  "w_live (LogDebugString m b s) = w_live s"
  "w_nextsock (LogDebugString m b s) = w_nextsock s"
  "w_conns (LogDebugString m b s) = w_conns s"
  "w_rx (LogDebugString m b s) = w_rx s"
  "w_tx (LogDebugString m b s) = w_tx s"
  "w_dialed (LogDebugString m b s) = w_dialed s"
  by (simp_all add: LogDebugString_def getCurrentTimeString_def Let_def)

lemma LogWinscardRules_frame [simp, frame_simps]:
  "rulesList (LogWinscardRules m s) = rulesList s"
  "apduInList (LogWinscardRules m s) = apduInList s"
  "apduOutList (LogWinscardRules m s) = apduOutList s"
  "m_bRulesActive (LogWinscardRules m s) = m_bRulesActive s"
  "instructionDict (LogWinscardRules m s) = instructionDict s"
  "cardReaderMap (LogWinscardRules m s) = cardReaderMap s"
  "remoteReadersMap (LogWinscardRules m s) = remoteReadersMap s"
  "remoteCardsATRMap (LogWinscardRules m s) = remoteCardsATRMap s"
  "m_nextRemoteCardID (LogWinscardRules m s) = m_nextRemoteCardID s"
  "loadingBinaryName (LogWinscardRules m s) = loadingBinaryName s"
  "m_remoteConfig (LogWinscardRules m s) = m_remoteConfig s"
  "m_winscardConfig (LogWinscardRules m s) = m_winscardConfig s"
  "m_processedApduByteCounter (LogWinscardRules m s) = m_processedApduByteCounter s"
  "m_charAllocatedMemoryList (LogWinscardRules m s) = m_charAllocatedMemoryList s"
  "m_wcharAllocatedMemoryList (LogWinscardRules m s) = m_wcharAllocatedMemoryList s"
  "apduCounter (LogWinscardRules m s) = apduCounter s"
  "APDUPLAY_DEBUG_FILE (LogWinscardRules m s) = APDUPLAY_DEBUG_FILE s"
  "WINSCARD_LOG (LogWinscardRules m s) = WINSCARD_LOG s"
  "WINSCARD_RULES_LOG (LogWinscardRules m s) = WINSCARD_RULES_LOG s"
  "INSTRUCTION_FILE (LogWinscardRules m s) = INSTRUCTION_FILE s"
  "w_env (LogWinscardRules m s) = w_env s"
  "w_rands (LogWinscardRules m s) = w_rands s"
  "w_sleeps (LogWinscardRules m s) = w_sleeps s"
  "w_freed (LogWinscardRules m s) = w_freed s"
  "w_live (LogWinscardRules m s) = w_live s"
  "w_nextsock (LogWinscardRules m s) = w_nextsock s"
  "w_conns (LogWinscardRules m s) = w_conns s"
  "w_rx (LogWinscardRules m s) = w_rx s"
  "w_tx (LogWinscardRules m s) = w_tx s"
  "w_dialed (LogWinscardRules m s) = w_dialed s"
  by (simp_all add: LogWinscardRules_def Let_def)

lemma DumpMemory_frame [simp, frame_simps]:
  "rulesList (DumpMemory l s) = rulesList s"
  "apduInList (DumpMemory l s) = apduInList s"
  "apduOutList (DumpMemory l s) = apduOutList s"
  "m_bRulesActive (DumpMemory l s) = m_bRulesActive s"
  "instructionDict (DumpMemory l s) = instructionDict s"
  "cardReaderMap (DumpMemory l s) = cardReaderMap s"
  "remoteReadersMap (DumpMemory l s) = remoteReadersMap s"
  "remoteCardsATRMap (DumpMemory l s) = remoteCardsATRMap s"
  "m_nextRemoteCardID (DumpMemory l s) = m_nextRemoteCardID s"
  "loadingBinaryName (DumpMemory l s) = loadingBinaryName s"
  "m_remoteConfig (DumpMemory l s) = m_remoteConfig s"
  "m_winscardConfig (DumpMemory l s) = m_winscardConfig s"
  "m_processedApduByteCounter (DumpMemory l s) = m_processedApduByteCounter s"
  "m_charAllocatedMemoryList (DumpMemory l s) = m_charAllocatedMemoryList s"
  "m_wcharAllocatedMemoryList (DumpMemory l s) = m_wcharAllocatedMemoryList s"
  "apduCounter (DumpMemory l s) = apduCounter s"
  "APDUPLAY_DEBUG_FILE (DumpMemory l s) = APDUPLAY_DEBUG_FILE s"
  "WINSCARD_LOG (DumpMemory l s) = WINSCARD_LOG s"
  "WINSCARD_RULES_LOG (DumpMemory l s) = WINSCARD_RULES_LOG s"
  "INSTRUCTION_FILE (DumpMemory l s) = INSTRUCTION_FILE s"
  "w_env (DumpMemory l s) = w_env s"
  "w_rands (DumpMemory l s) = w_rands s"
  "w_sleeps (DumpMemory l s) = w_sleeps s"
  "w_freed (DumpMemory l s) = w_freed s"
  "w_live (DumpMemory l s) = w_live s"
  "w_nextsock (DumpMemory l s) = w_nextsock s"
  "w_conns (DumpMemory l s) = w_conns s"
  "w_rx (DumpMemory l s) = w_rx s"
  "w_tx (DumpMemory l s) = w_tx s"
  "w_dialed (DumpMemory l s) = w_dialed s"
  by (simp_all add: DumpMemory_def Let_def)

lemma Log_disabled [simp]:
  "bDisableLogging (m_remoteConfig s) \<Longrightarrow> LogDebugString m b s = s"
  "bDisableLogging (m_remoteConfig s) \<Longrightarrow> LogWinscardRules m s = s"
  by (simp_all add: LogDebugString_def LogWinscardRules_def)

text \<open>The log only grows.\<close>

definition log_extends :: "app \<Rightarrow> app \<Rightarrow> bool" where
  "log_extends s t \<longleftrightarrow> prefix (w_out s) (w_out t)"

lemma log_extends_refl [simp]: "log_extends s s"
  by (simp add: log_extends_def)

lemma log_extends_trans [trans]: "log_extends s t \<Longrightarrow> log_extends t u \<Longrightarrow> log_extends s u"
  by (simp add: log_extends_def)

lemma append_file_extends [simp]: "log_extends s (append_file p d s)"
  by (simp add: log_extends_def append_file_def File_AppendString_def)

lemma LogDebugString_extends [simp]: "log_extends s (LogDebugString m b s)"
  by (simp add: log_extends_def LogDebugString_def getCurrentTimeString_def Let_def
      append_file_def File_AppendString_def)

lemma LogWinscardRules_extends [simp]: "log_extends s (LogWinscardRules m s)"
  unfolding LogWinscardRules_def Let_def
  by (auto intro: log_extends_trans[OF LogDebugString_extends append_file_extends])

subsection \<open>Cards and readers\<close>

text \<open>
  \<open>operator[]\<close> of the map inserts an empty name for an unknown handle.
\<close>

definition GetReaderName :: "handle \<Rightarrow> app \<Rightarrow> string \<times> app" where
  "GetReaderName hCard s =
     (case cardReaderMap s hCard of
        Some name \<Rightarrow> (name, s)
      | None \<Rightarrow> ([], s\<lparr>cardReaderMap := (cardReaderMap s)(hCard \<mapsto> [])\<rparr>))"

definition IsRemoteCard :: "handle \<Rightarrow> app \<Rightarrow> bool" where
  "IsRemoteCard hCard s \<longleftrightarrow> remoteReadersMap s hCard \<noteq> None"

definition IsRemoteReader :: "string \<Rightarrow> app \<Rightarrow> bool" where
  "IsRemoteReader readerName s \<longleftrightarrow> readerName \<in> set (listVIRTUAL_READERS (m_winscardConfig s))"

lemma IsRemote_log [simp]:
  "IsRemoteCard h (LogWinscardRules m s) = IsRemoteCard h s"
  "IsRemoteCard h (LogDebugString m b s) = IsRemoteCard h s"
  "IsRemoteReader r (LogWinscardRules m s) = IsRemoteReader r s"
  "IsRemoteReader r (LogDebugString m b s) = IsRemoteReader r s"
  by (simp_all add: IsRemoteCard_def IsRemoteReader_def)

subsection \<open>A concrete environment\<close>

text \<open>An environment without files and variables, used where a theorem is applied to a concrete state.\<close>

definition quiet_env :: environment where
  "quiet_env = \<lparr>ctime_text = (\<lambda>_. ''Mon Jan  1 00:00:00 2024'' @ [NL]), env_var = (\<lambda>_. None),
     file_text = (\<lambda>_. None), appendable = (\<lambda>_. False), module_file_name = None,
     rand_value = (\<lambda>_. 0)\<rparr>"

definition quiet_app :: app where
  "quiet_app = app_init False quiet_env [] []"

end
