(* ===== verification/Sockets.thy ===== *)
theory Sockets
  imports App_State
begin

text \<open>
  The socket client (\<open>socket.cpp\<close>). A \<open>SocketClient\<close> object is an identifier; the live ones are
  listed in the state, so that deleting one twice and using a deleted one are faults. The network
  is two queues of the state: outcomes of connection attempts and of single \<open>recv\<close> calls, both
  taken in order; a drained queue fails to connect and times out.
\<close>

subsection \<open>Life of a socket object\<close>

definition new_SocketClient :: "string \<Rightarrow> int \<Rightarrow> sockid act" where
  "new_SocketClient host port s =
     (let s1 = s\<lparr>w_conns := tl (w_conns s), w_dialed := w_dialed s @ [(host, word_of_int port)]\<rparr>
      in case (case w_conns s of [] \<Rightarrow> ConnFailed [] | c # _ \<Rightarrow> c) of
           ConnNoSocket msg \<Rightarrow> (Inl (Throws (Exn_CString msg)), s1)
         | ConnFailed err \<Rightarrow> (Inl (Throws (Exn_String err)), s1)
         | ConnOk \<Rightarrow> (Inr (w_nextsock s),
              s1\<lparr>w_live := w_nextsock s # w_live s, w_nextsock := w_nextsock s + 1\<rparr>))"

definition delete_Socket :: "sockid \<Rightarrow> unit act" where
  "delete_Socket p s =
     (if p \<in> set (w_live s) then (Inr (), s\<lparr>w_live := removeAll p (w_live s)\<rparr>) else (Inl Double_Free, s))"

text \<open>Every member call through a pointer to a deleted object is a use after free.\<close>

definition deref_Socket :: "sockid \<Rightarrow> unit act" where
  "deref_Socket p s = (if p \<in> set (w_live s) then (Inr (), s) else (Inl Use_After_Free, s))"

definition Socket_Close :: "sockid \<Rightarrow> unit act" where
  "Socket_Close p = deref_Socket p"

definition SendLine :: "sockid \<Rightarrow> string \<Rightarrow> unit act" where
  "SendLine p l = bindA (deref_Socket p) (\<lambda>_. modA (\<lambda>s. s\<lparr>w_tx := w_tx s @ [l @ [NL]]\<rparr>))"

subsection \<open>Receiving text\<close>

text \<open>
  \<open>ReceiveLine\<close>: up to and including a newline. A closed connection or an error discards what
  was read and yields the empty string; a timeout yields the incomplete line. Without a timeout
  (0) the call blocks.
\<close>

fun receive_line :: "int \<Rightarrow> recv_event list \<Rightarrow> string \<Rightarrow> (string \<times> recv_event list) res" where
  "receive_line timeout [] ret = (if timeout = 0 then Inl Hang else Inr (ret, []))"
| "receive_line timeout (RecvTimeout # es) ret =
     (if timeout = 0 then receive_line timeout es ret else Inr (ret, es))"
| "receive_line timeout (RecvClosed # es) ret = Inr ([], es)"
| "receive_line timeout (RecvError eagain # es) ret = Inr (if eagain then ret else [], es)"
| "receive_line timeout (RecvByte r # es) ret =
     (if r = NL then Inr (ret @ [r], es) else receive_line timeout es (ret @ [r]))"

lemma receive_line_consumes:
  "receive_line timeout es ret = Inr (l, es') \<Longrightarrow> length es' \<le> length es"
  by (induction timeout es ret rule: receive_line.induct) (auto split: if_splits)

lemma receive_line_progress:
  "receive_line timeout es ret = Inr (l, es') \<Longrightarrow> l = ret \<or> l = [] \<or> length es' < length es"
  by (induction timeout es ret rule: receive_line.induct)
    (auto split: if_splits dest: receive_line_consumes)

text \<open>
  \<open>ReceiveResponse\<close>: lines up to the first that is empty or contains the end sequence, which is
  included.
\<close>

function receive_lines :: "string \<Rightarrow> int \<Rightarrow> recv_event list \<Rightarrow> string \<Rightarrow> (string \<times> recv_event list) res" where
  "receive_lines endSeq timeout es ret =
     (case receive_line timeout es [] of
        Inl e \<Rightarrow> Inl e
      | Inr (line, es') \<Rightarrow>
          if line \<noteq> [] \<and> str_find line endSeq = None then receive_lines endSeq timeout es' (ret @ line)
          else Inr (ret @ line, es'))"
  by pat_completeness auto

termination receive_lines
proof (relation "measure (\<lambda>(endSeq, timeout, es, ret). length es)", goal_cases)
  case (2 endSeq timeout es ret p line es')
  then show ?case using receive_line_progress[of timeout es "[]" line es'] by simp
qed simp

declare receive_lines.simps [simp del]

definition ReceiveLine :: "sockid \<Rightarrow> int \<Rightarrow> string act" where
  "ReceiveLine p timeout =
     bindA (deref_Socket p) (\<lambda>_ s.
       case receive_line timeout (w_rx s) [] of
         Inl e \<Rightarrow> (Inl e, s) | Inr (l, es) \<Rightarrow> (Inr l, s\<lparr>w_rx := es\<rparr>))"

definition ReceiveResponse :: "sockid \<Rightarrow> string \<Rightarrow> int \<Rightarrow> string act" where
  "ReceiveResponse p endSeq timeout =
     bindA (deref_Socket p) (\<lambda>_ s.
       case receive_lines endSeq timeout (w_rx s) [] of
         Inl e \<Rightarrow> (Inl e, s) | Inr (l, es) \<Rightarrow> (Inr l, s\<lparr>w_rx := es\<rparr>))"

text \<open>A line that arrives in full is received in full, and what follows stays in the queue.\<close>

lemma receive_line_full:
  "NL \<notin> set l \<Longrightarrow>
     receive_line timeout (map RecvByte (l @ [NL]) @ es) ret = Inr (ret @ l @ [NL], es)"
  by (induction l arbitrary: ret) auto

lemma receive_lines_full:
  assumes "\<forall>l \<in> set ls. NL \<notin> set l \<and> str_find (l @ [NL]) endSeq = None"
    and "NL \<notin> set final" and "str_find (final @ [NL]) endSeq \<noteq> None"
  shows "receive_lines endSeq timeout
      (map RecvByte (concat (map (\<lambda>l. l @ [NL]) ls) @ final @ [NL]) @ es) ret =
    Inr (ret @ concat (map (\<lambda>l. l @ [NL]) ls) @ final @ [NL], es)"
  using assms(1)
proof (induction ls arbitrary: ret)
  case Nil
  show ?case
    using receive_line_full[OF assms(2), of timeout es "[]"] assms(3)
    by (subst receive_lines.simps) auto
next
  case (Cons l ls)
  let ?tail = "map RecvByte (concat (map (\<lambda>l. l @ [NL]) ls) @ final @ [NL]) @ es"
  have l: "NL \<notin> set l" "str_find (l @ [NL]) endSeq = None" using Cons.prems by simp_all
  have "receive_lines endSeq timeout (map RecvByte (l @ [NL]) @ ?tail) ret =
      receive_lines endSeq timeout ?tail (ret @ l @ [NL])"
    using receive_line_full[OF l(1), of timeout ?tail "[]"] l(2)
    by (subst receive_lines.simps) simp
  also have "\<dots> = Inr ((ret @ l @ [NL]) @ concat (map (\<lambda>l. l @ [NL]) ls) @ final @ [NL], es)"
    by (rule Cons.IH) (use Cons.prems in simp)
  finally show ?case by simp
qed

text \<open>With a timeout set, receiving always returns.\<close>

lemma receive_line_returns: "timeout \<noteq> 0 \<Longrightarrow> \<exists>l es'. receive_line timeout es ret = Inr (l, es')"
  by (induction timeout es ret rule: receive_line.induct) auto

lemma receive_lines_returns: "timeout \<noteq> 0 \<Longrightarrow> \<exists>l es'. receive_lines endSeq timeout es ret = Inr (l, es')"
proof (induction endSeq timeout es ret rule: receive_lines.induct)
  case (1 endSeq timeout es ret)
  obtain line es' where l: "receive_line timeout es [] = Inr (line, es')"
    using receive_line_returns[OF 1(2)] by blast
  show ?case
    using 1(1)[OF l refl _ 1(2)] l by (subst receive_lines.simps) auto
qed

subsection \<open>Receiving measurement samples\<close>

text \<open>
  \<open>ReceiveLineToMemory\<close>: blocks of bytes are turned into samples of one or two bytes. \<open>data_at\<close> reads
  the 64 kB receive buffer, which is zeroed before each block.
\<close>

definition BASE_OFFSET :: int where "BASE_OFFSET = 0x1000"

definition data_at :: "byte list \<Rightarrow> nat \<Rightarrow> int" where
  "data_at blk i = (if i < length blk then uint (blk ! i) else 0)"

definition sample_at :: "nat \<Rightarrow> byte list \<Rightarrow> nat \<Rightarrow> int" where
  "sample_at bytesPerSample blk i =
     (let low = 255 - data_at blk i;
          nib = data_at blk (i + 1) mod 16;
          high = (if nib < 8 then - nib else 15 - nib + 1)
      in if bytesPerSample = 2 then low + high * 256 + BASE_OFFSET else low)"

text \<open>The samples of one block: the loop over \<open>i\<close> in steps of \<open>bytesPerSample\<close>.\<close>

definition block_samples :: "nat \<Rightarrow> byte list \<Rightarrow> int list" where
  "block_samples bps blk =
     map (\<lambda>k. sample_at bps blk (k * bps)) [0..<(length blk + bps - 1) div bps]"

text \<open>
  The value of \<open>i\<close> after the loop; when it is not the block's length, the code keeps
  \<open>data[i - 1]\<close> as the first byte of the next block.
\<close>

definition loop_end :: "nat \<Rightarrow> nat \<Rightarrow> nat" where
  "loop_end bps n = (n + bps - 1) div bps * bps"

text \<open>
  The receive loop. \<open>blocks\<close> are the blocks still to come, after them \<open>recvtimeout\<close> answers
  \<open>fin\<close> (0, -1 or -2) each time; \<open>cap\<close> is the size of \<open>pData\<close>. With a byte left over the answer
  is incremented, so a closed connection (0) counts as a block of one byte. The result is the
  samples written and the last answer. (With zero bytes per sample the loop over \<open>i\<close> writes
  without end.)
\<close>

function samples_loop ::
    "nat \<Rightarrow> nat \<Rightarrow> int \<Rightarrow> byte list list \<Rightarrow> byte list \<Rightarrow> int list \<Rightarrow> (int list \<times> int) res" where
  "samples_loop bps cap fin blocks blk acc =
     (if bps = 0 \<or> blk = [] then Inl Out_Of_Bounds
      else if length acc + length (block_samples bps blk) > cap then Inl Out_Of_Bounds
      else
        (let acc1 = acc @ block_samples bps blk
         in if loop_end bps (length blk) \<noteq> length blk then
              (let leftByte = word_of_int (data_at blk (loop_end bps (length blk) - 1))
               in case blocks of
                    b # bs \<Rightarrow> samples_loop bps cap fin bs (leftByte # b) acc1
                  | [] \<Rightarrow> if fin + 1 > 0 then samples_loop bps cap fin [] [leftByte] acc1
                          else Inr (acc1, fin + 1))
            else
              (case blocks of
                 b # bs \<Rightarrow> if b = [] then Inr (acc1, 0) else samples_loop bps cap fin bs b acc1
               | [] \<Rightarrow> Inr (acc1, fin))))"
  by pat_completeness auto

lemma block_samples_pos: "bps > 0 \<Longrightarrow> blk \<noteq> [] \<Longrightarrow> length (block_samples bps blk) > 0"
  by (cases blk) (simp_all add: block_samples_def div_greater_zero_iff)

lemma samples_measure:
  assumes "\<not> (bps = 0 \<or> blk = [])" and "\<not> cap < length acc + length (block_samples bps blk)"
  shows "cap - (length acc + length (block_samples bps blk)) < cap - length acc"
proof -
  have "0 < length (block_samples bps blk)" using assms(1) by (intro block_samples_pos) auto
  with assms(2) show ?thesis by linarith
qed

termination samples_loop
  by (relation "measure (\<lambda>(bps, cap, fin, blocks, blk, acc). cap - length acc)")
    (simp_all add: samples_measure)

declare samples_loop.simps [simp del]

text \<open>The function: samples, \<open>dwActLen\<close> (the last four values are taken to be the end mark), status.\<close>

definition ReceiveLineToMemory ::
    "nat \<Rightarrow> nat \<Rightarrow> int \<Rightarrow> byte list list \<Rightarrow> (int list \<times> dword \<times> int) res" where
  "ReceiveLineToMemory bps cap fin blocks =
     (case blocks of
        [] \<Rightarrow> Inr ([], 0 - 4, if fin < 0 then -1 else 0)
      | b # bs \<Rightarrow>
          bindE (if b = [] then Inr ([], 0) else samples_loop bps cap fin bs b [])
            (\<lambda>(acc, retStat). Inr (acc, of_nat (length acc) - 4, if retStat < 0 then -1 else 0)))"

subsection \<open>Receiving measurement samples into a file\<close>

definition fmt_03d :: "int \<Rightarrow> string" where
  "fmt_03d v = pad_left 3 (fmt_u (nat v))"

text \<open>
  \<open>ReceiveLineToFile\<close>: the state machine for the end mark 88 77 66 55. A byte that does not
  continue the mark resets it to 0, also when it is itself 88. Bytes are logged one per line, up
  to the third byte of the mark included.
\<close>

definition mark_step :: "nat \<Rightarrow> nat \<Rightarrow> nat" where
  "mark_step endState b =
     (if endState = 0 then (if b = 0x88 then 1 else 0)
      else if endState = 1 then (if b = 0x77 then 2 else 0)
      else if endState = 2 then (if b = 0x66 then 3 else 0)
      else if endState = 3 then (if b = 0x55 then 4 else 0)
      else 0)"

fun recv_status :: "recv_event \<Rightarrow> int" where
  "recv_status (RecvByte c) = 1"
| "recv_status RecvClosed = 0"
| "recv_status (RecvError _) = -1"
| "recv_status RecvTimeout = -2"

fun file_loop :: "recv_event list \<Rightarrow> nat \<Rightarrow> string list \<Rightarrow> string list \<times> int \<times> recv_event list" where
  "file_loop [] endState acc = (acc, -2, [])"
| "file_loop (RecvByte c # es) endState acc =
     (let st = mark_step endState (of_char c)
      in if st = 4 then
           (case es of [] \<Rightarrow> (acc, -2, []) | e # es' \<Rightarrow> (acc, recv_status e, es'))
         else file_loop es st (acc @ [fmt_03d (255 - int (of_char c)) @ [NL]]))"
| "file_loop (e # es) endState acc = (acc, recv_status e, es)"

text \<open>The status, the file content written, \<open>*pWrittenValues\<close>; \<open>opened\<close> says whether the file opens.\<close>

definition ReceiveLineToFile :: "bool \<Rightarrow> recv_event list \<Rightarrow> int \<times> string \<times> nat \<times> recv_event list" where
  "ReceiveLineToFile opened es =
     (if opened then
        (let (acc, retStat, es') = file_loop es 0 []
         in (if retStat < 0 then -1 else 0, concat acc, length acc, es'))
      else (16, [], 0, es))"

subsection \<open>Properties\<close>

text \<open>
  A response of the proxy is received whole. When the bytes of a response arrive one by one,
  line after line and the last line with the end sequence, \<open>ReceiveResponse\<close> returns exactly these
  bytes and leaves what follows them unread.
\<close>

theorem receive_response_whole:
  assumes "p \<in> set (w_live s)"
    and "\<forall>l \<in> set ls. NL \<notin> set l \<and> str_find (l @ [NL]) endSeq = None"
    and "NL \<notin> set final" and "str_find (final @ [NL]) endSeq \<noteq> None"
    and "w_rx s = map RecvByte (concat (map (\<lambda>l. l @ [NL]) ls) @ final @ [NL]) @ es"
  shows "ReceiveResponse p endSeq timeout s =
    (Inr (concat (map (\<lambda>l. l @ [NL]) ls) @ final @ [NL]), s\<lparr>w_rx := es\<rparr>)"
  using receive_lines_full[OF assms(2-4), of timeout es "[]"] assms(1,5)
  by (simp add: ReceiveResponse_def bindA_def deref_Socket_def)

theorem receive_response_whole_witness:
  "ReceiveResponse 3 ''@@'' 20 (quiet_app\<lparr>w_live := [3], w_rx := map RecvByte (''90'' @ [NL] @ ''00@@'' @ [NL]) @ [RecvClosed]\<rparr>) =
    (Inr (''90'' @ [NL] @ ''00@@'' @ [NL]), quiet_app\<lparr>w_live := [3], w_rx := [RecvClosed]\<rparr>)"
  using receive_response_whole[of 3 "quiet_app\<lparr>w_live := [3], w_rx := map RecvByte (''90'' @ [NL] @ ''00@@'' @ [NL]) @ [RecvClosed]\<rparr>"
      "[''90'']" "''@@''" "''00@@''" "[RecvClosed]" 20]
  by (simp add: str_find_from_def)



lemma samples_loop_spins: "length acc \<le> cap \<Longrightarrow> samples_loop 2 cap 0 [] [x] acc = Inl Out_Of_Bounds"
proof (induction "cap - length acc" arbitrary: x acc)
  case 0
  then show ?case by (subst samples_loop.simps) (simp add: block_samples_def)
next
  case (Suc n)
  have one: "length (block_samples 2 [x]) = 1" "loop_end 2 (length [x]) \<noteq> length [x]"
    by (simp_all add: block_samples_def loop_end_def)
  let ?y = "word_of_int (data_at [x] (loop_end 2 (length [x]) - 1))"
  have "samples_loop 2 cap 0 [] [?y] (acc @ block_samples 2 [x]) = Inl Out_Of_Bounds"
    by (rule Suc.hyps(1)) (use Suc one in simp_all)
  then show ?case using Suc.hyps(2) one by (subst samples_loop.simps) (simp add: Let_def)
qed

text \<open>
  An odd number of sample bytes overruns the sample buffer. When the proxy sends a block of
  odd length and closes the connection, the byte left over makes \<open>ReceiveLineToMemory\<close> take the
  end of the connection for one more byte, again and again, until it writes past \<open>pData\<close>,
  whatever its size.
\<close>

theorem odd_sample_block_overruns:
  assumes "odd (length b)"
  shows "ReceiveLineToMemory 2 cap 0 [b] = Inl Out_Of_Bounds"
proof -
  obtain k where k: "length b = 2 * k + 1" using assms by (auto elim: oddE)
  have "b \<noteq> []" using k by auto
  moreover have "loop_end 2 (length b) \<noteq> length b" by (simp add: loop_end_def k)
  ultimately have "samples_loop 2 cap 0 [] b [] = Inl Out_Of_Bounds"
    by (subst samples_loop.simps) (auto simp: Let_def not_less intro: samples_loop_spins)
  with \<open>b \<noteq> []\<close> show ?thesis by (simp add: ReceiveLineToMemory_def)
qed

theorem odd_sample_block_overruns_witness:
  "ReceiveLineToMemory 2 1000000 0 [[0x12, 0x34, 0x56]] = Inl Out_Of_Bounds"
  by (rule odd_sample_block_overruns) simp

lemma file_loop_data:
  assumes "\<forall>b \<in> set bs. b \<noteq> CHR 0x88"
  shows "file_loop (map RecvByte bs @ es) 0 acc =
    file_loop es 0 (acc @ map (\<lambda>b. fmt_03d (255 - int (of_char b)) @ [NL]) bs)"
  using assms
proof (induction bs arbitrary: acc)
  case (Cons b bs)
  have "(char_of (0x88 :: nat) :: char) = CHR 0x88" by (simp add: char_of_def bit_Suc_0_iff)
  then have "of_char b \<noteq> (0x88 :: nat)" using Cons.prems by (metis char_of_char list.set_intros(1))
  then have "mark_step 0 (of_char b) = 0" by (simp add: mark_step_def)
  with Cons show ?case by (simp add: Let_def)
qed simp



end
