(* ===== verification/Remote_Proto.thy ===== *)
theory Remote_Proto
  imports Sockets Base64_Codec Sep_Array
begin

text \<open>
  The client side of the remote card protocol (\<open>Winscard.cpp\<close>): \<open>Remote_FormatRequest\<close>,
  \<open>Remote_SendRequest\<close>, \<open>Remote_ParseResponse\<close> and the operations built on them, from connecting
  to the proxy to transmitting an APDU. The configuration these functions get a pointer to is
  always the library's own \<open>m_remoteConfig\<close>.
\<close>

subsection \<open>Constants\<close>

abbreviation SCARD_S_SUCCESS :: status where "SCARD_S_SUCCESS \<equiv> 0"
abbreviation SCARD_F_COMM_ERROR :: status where "SCARD_F_COMM_ERROR \<equiv> 0x80100013"
abbreviation SCARD_F_UNKNOWN_ERROR :: status where "SCARD_F_UNKNOWN_ERROR \<equiv> 0x80100014"

definition REMOTE_SOCKET_ENDSEQ :: string where "REMOTE_SOCKET_ENDSEQ = ''@@''"
definition REMOTE_SOCKET_TIMEOUT :: int where "REMOTE_SOCKET_TIMEOUT = 20"
definition CMD_SEPARATOR :: string where "CMD_SEPARATOR = '':''"
definition CMD_LINE_SEPARATOR :: string where "CMD_LINE_SEPARATOR = ''|''"
definition VIRTUAL_READERS_SEPARATOR :: char where "VIRTUAL_READERS_SEPARATOR = CHR ''|''"
definition NO_READER :: string where "NO_READER = ''*''"
definition CMD_RESPONSE_FAIL :: string where "CMD_RESPONSE_FAIL = ''FAIL''"

subsection \<open>Requests\<close>

definition Remote_FormatRequest ::
    "string \<Rightarrow> dword \<Rightarrow> string \<Rightarrow> string \<Rightarrow> string \<Rightarrow> string \<Rightarrow> string" where
  "Remote_FormatRequest targetReader uniqueCmdID command commandData notes lineSeparator =
     ''>'' @ c_str targetReader @ c_str lineSeparator @ [NL] @ ''>'' @ fmt_d uniqueCmdID @ CMD_SEPARATOR @
     c_str command @ CMD_SEPARATOR @ c_str commandData @ c_str lineSeparator @ c_str notes @ [NL]"

text \<open>Updating a member of the configuration.\<close>

definition upd_remote :: "(REMOTE_CONFIG \<Rightarrow> REMOTE_CONFIG) \<Rightarrow> app \<Rightarrow> app" where
  "upd_remote f s = s\<lparr>m_remoteConfig := f (m_remoteConfig s)\<rparr>"

subsection \<open>Responses\<close>

text \<open>
  \<open>rawResponse.at(0)\<close> throws on an empty response. With no separator \<open>pos2\<close> is \<open>npos\<close>: the
  identifier is all the rest, and \<open>pos\<close> wraps to 0. The second component is the response after
  the call, which keeps its old value on an error.
\<close>

definition Remote_ParseResponse :: "string \<Rightarrow> dword \<Rightarrow> string \<Rightarrow> (status \<times> string) act" where
  "Remote_ParseResponse rawResponse expectedCommandID response s =
     (case rawResponse of
        [] \<Rightarrow> (Inl (Throws Exn_Out_Of_Range), s)
      | c # _ \<Rightarrow>
          if c \<noteq> CHR ''>''
          then (Inr (SCARD_F_COMM_ERROR, response),
                LogWinscardRules (CHR 0x27 # ''>'' @ [CHR 0x27] @ ''was expected at begin'' @ [NL]) s)
          else
            (let pos2 = str_find rawResponse CMD_SEPARATOR;
                 uniqueCmdID = (case pos2 of None \<Rightarrow> drop 1 rawResponse
                                | Some p \<Rightarrow> take (p - 1) (drop 1 rawResponse));
                 pos = npos_succ pos2
             in if expectedCommandID \<noteq> word_of_int (strtol 10 (c_str uniqueCmdID))
                then (Inr (SCARD_F_COMM_ERROR, response),
                      LogWinscardRules (''Unexpected commandID in response'' @ [NL]) s)
                else
                  (Inr (SCARD_S_SUCCESS,
                        case str_find_from rawResponse REMOTE_SOCKET_ENDSEQ pos of
                          None \<Rightarrow> drop pos rawResponse
                        | Some p \<Rightarrow> take (p - pos) (drop pos rawResponse)), s)))"

subsection \<open>One exchange\<close>

definition connect_text :: "app \<Rightarrow> string" where
  "connect_text s = c_str (rc_IP (m_remoteConfig s)) @ '':'' @ c_str (rc_port (m_remoteConfig s))"

definition open_socket :: "unit act" where
  "open_socket =
     bindA (getA m_remoteConfig) (\<lambda>c.
     bindA (new_SocketClient (rc_IP c) (strtol 10 (c_str (rc_port c)))) (\<lambda>p.
     modA (upd_remote (\<lambda>c. c\<lparr>pSocket := Some p\<rparr>))))"

text \<open>
  Obtaining the socket. With a socket per command the old one is deleted first; the pointer is
  only overwritten when the new connection succeeds.
\<close>

definition request_socket :: "unit act" where
  "request_socket =
     bindA (getA m_remoteConfig) (\<lambda>c.
     if bOpenSocketForEveryCommand c then
       bindA (case pSocket c of Some p \<Rightarrow> delete_Socket p | None \<Rightarrow> returnA ()) (\<lambda>_. open_socket)
     else (case pSocket c of Some p \<Rightarrow> returnA () | None \<Rightarrow> open_socket))"

definition exchange :: "sockid \<Rightarrow> string \<Rightarrow> string \<Rightarrow> string \<Rightarrow> string \<Rightarrow> (status \<times> string) act" where
  "exchange p targetReader command commandData response =
     bindA (modA (upd_remote (\<lambda>c. c\<lparr>nextCommandID := nextCommandID c + 1\<rparr>))) (\<lambda>_.
     bindA (getA (\<lambda>s. nextCommandID (m_remoteConfig s))) (\<lambda>uid.
     bindA (SendLine p (Remote_FormatRequest targetReader uid command commandData [] CMD_LINE_SEPARATOR)) (\<lambda>_.
     bindA (logA (''::-> '' @ c_str command @ '' (hidden data)'' @ [NL])) (\<lambda>_.
     bindA (ReceiveResponse p REMOTE_SOCKET_ENDSEQ REMOTE_SOCKET_TIMEOUT) (\<lambda>l.
     bindA (Remote_ParseResponse l uid response) (\<lambda>(status, resp).
     bindA (logA (''::<- (hidden response)'' @ [NL])) (\<lambda>_.
     bindA (getA (\<lambda>s. bOpenSocketForEveryCommand (m_remoteConfig s))) (\<lambda>each.
     bindA (if each then Socket_Close p else returnA ()) (\<lambda>_.
     returnA (status, replace_char NL (CHR '' '') resp))))))))))"

text \<open>
  Both \<open>catch\<close> clauses only log: the status stays \<open>SCARD_S_SUCCESS\<close> and the response as it was.
\<close>

definition Remote_SendRequest :: "string \<Rightarrow> string \<Rightarrow> string \<Rightarrow> string \<Rightarrow> (status \<times> string) act" where
  "Remote_SendRequest targetReader command commandData response =
     tryA
       (bindA request_socket (\<lambda>_.
        bindA (getA (\<lambda>s. pSocket (m_remoteConfig s))) (\<lambda>sock.
        case sock of
          None \<Rightarrow>
            bindA (modA (\<lambda>s. LogDebugString
                (''Connnecting to remote proxy with IP:port = '' @ connect_text s @ '' failed'') True s))
              (\<lambda>_. returnA (0, response))
        | Some p \<Rightarrow> exchange p targetReader command commandData response)))
       (\<lambda>e. bindA (modA (\<lambda>s. LogDebugString
                (''Failed to connect to '' @ connect_text s @
                 (case e of Exn_String err \<Rightarrow> '' (error: '' @ c_str err @ '')'' | _ \<Rightarrow> []) @ [NL]) True s))
              (\<lambda>_. returnA (SCARD_S_SUCCESS, response)))"

subsection \<open>Operations of the protocol\<close>

definition TRAILING_WS :: "char \<Rightarrow> bool" where
  "TRAILING_WS c \<longleftrightarrow> c = CHR '' '' \<or> c = NL \<or> c = CHR 0x0D \<or> c = CHR 0x09"

text \<open>
  The two \<open>catch\<close> clauses of the callers; \<open>out\<close> is what the output parameters hold then.
\<close>

definition catch_unknown :: "string \<Rightarrow> string \<Rightarrow> 'a \<Rightarrow> cpp_exn \<Rightarrow> (status \<times> 'a) act" where
  "catch_unknown name msg out e =
     bindA (logA (name @ '', SendLine('' @ c_str msg @ ''), fail with ('' @
              (case e of Exn_CString t \<Rightarrow> c_str t | _ \<Rightarrow> ''unhandled exception'') @ '')'' @ [NL]))
       (\<lambda>_. returnA (SCARD_F_UNKNOWN_ERROR, out))"

definition Remote_SCardConnect :: "string \<Rightarrow> string \<Rightarrow> (status \<times> string) act" where
  "Remote_SCardConnect targetReader pATR =
     bindA (getA (\<lambda>s. pSocket (m_remoteConfig s))) (\<lambda>sock.
     case sock of
       None \<Rightarrow> returnA (SCARD_F_COMM_ERROR, pATR)
     | Some _ \<Rightarrow>
         tryA (bindA (Remote_SendRequest targetReader ''RESET'' [] []) (\<lambda>(_, response).
               returnA (SCARD_S_SUCCESS, response)))
           (catch_unknown ''Remote_SCardConnect()'' [] pATR))"

text \<open>A reader name that ends in \<open>=\<close> is taken to be base64; \<open>at(length() - 1)\<close> on an empty one throws.\<close>

definition remote_reader_name :: "string \<Rightarrow> string res" where
  "remote_reader_name item =
     (if item = [] then Inl (Throws Exn_Out_Of_Range)
      else if last item = CHR ''='' then Inr (map char_of_byte (base64_decode item)) else Inr item)"

fun remote_reader_names :: "string list \<Rightarrow> string list res" where
  "remote_reader_names [] = Inr []"
| "remote_reader_names (i # is) =
     bindE (remote_reader_name i) (\<lambda>n. bindE (remote_reader_names is) (\<lambda>ns. Inr (n # ns)))"

definition Remote_ListReaders :: "string list \<Rightarrow> (status \<times> string list) act" where
  "Remote_ListReaders pResponse =
     bindA (getA m_remoteConfig) (\<lambda>c.
     case pSocket c of
       None \<Rightarrow> returnA (SCARD_F_COMM_ERROR, pResponse)
     | Some _ \<Rightarrow>
         (let message = c_str (remoteTag c) @ CMD_SEPARATOR @ ''0''
          in tryA
               (bindA (Remote_SendRequest NO_READER ''READERS'' message []) (\<lambda>(_, response).
                let resp = erase_trailing TRAILING_WS response
                in bindA (liftA (String_ParseSeparatedArray (resp @ [CHR 0x00]) (length resp) VIRTUAL_READERS_SEPARATOR [])) (\<lambda>items.
                   bindA (liftA (remote_reader_names items)) (\<lambda>names.
                   returnA (SCARD_S_SUCCESS, pResponse @ names)))))
               (catch_unknown ''Remote_ListReaders()'' message pResponse)))"

definition Remote_SCardReleaseContext :: "app \<Rightarrow> app" where
  "Remote_SCardReleaseContext s =
     s\<lparr>cardReaderMap := Map.empty, remoteReadersMap := Map.empty, m_nextRemoteCardID := 1\<rparr>"

text \<open>
  \<open>pbRecvBuffer\<close> is the memory behind the caller's pointer, \<open>pcbRecvLength\<close> the value behind its
  length pointer; 260 bytes are assumed to be there. Without a socket nothing happens and the
  status is 0.
\<close>

definition Remote_SCardTransmit ::
    "string \<Rightarrow> byte list \<Rightarrow> byte list \<Rightarrow> dword \<Rightarrow> (status \<times> byte list \<times> dword) act" where
  "Remote_SCardTransmit targetReader sendBuffer pbRecvBuffer pcbRecvLength =
     bindA (getA (\<lambda>s. pSocket (m_remoteConfig s))) (\<lambda>sock.
     case sock of
       None \<Rightarrow> returnA (0, pbRecvBuffer, pcbRecvLength)
     | Some _ \<Rightarrow>
         tryA
           (bindA (modA (upd_remote (\<lambda>c. c\<lparr>nextCommandID := nextCommandID c + 1\<rparr>))) (\<lambda>_.
            bindA (Remote_SendRequest targetReader ''APDU'' (BYTE_ConvertFromArrayToHexString sendBuffer False) []) (\<lambda>(_, response).
            let resp = erase_trailing TRAILING_WS response
            in if str_find resp CMD_RESPONSE_FAIL = None then
                 bindA (liftA (BYTE_ConvertFromHexStringToArray resp pbRecvBuffer 260)) (\<lambda>(status, buf, n).
                 returnA (if of_nat n < (2 :: dword) then STAT_DATA_INCORRECT_LENGTH else status, buf, of_nat n))
               else returnA (STAT_SCARD_ERROR, pbRecvBuffer, pcbRecvLength))))
           (catch_unknown ([NL] @ ''Remote_SCardTransmit()'') [] (pbRecvBuffer, pcbRecvLength)))"

text \<open>
  Called once at start-up: a trial connection that is closed again, then the personalisation
  request when there is a tag.
\<close>

definition Remote_Connect :: "status act" where
  "Remote_Connect =
     tryA
       (bindA (modA (\<lambda>s. LogDebugString
            (''Connnecting to remote proxy with IP:port = '' @ connect_text s @ '' ... '') True s)) (\<lambda>_.
        bindA open_socket (\<lambda>_.
        bindA (getA m_remoteConfig) (\<lambda>c.
        bindA (debugA ((if pSocket c \<noteq> None then ''success'' else ''failed'') @ [NL]) False) (\<lambda>_.
        bindA (case pSocket c of None \<Rightarrow> failA Null_Deref
               | Some p \<Rightarrow> bindA (Socket_Close p) (\<lambda>_. delete_Socket p)) (\<lambda>_.
        bindA (modA (upd_remote (\<lambda>c. c\<lparr>pSocket := None\<rparr>))) (\<lambda>_.
        bindA (if length (remoteTag c) > 0 then
                 bindA (debugA (''Sending personalization string to remote proxy '' @ [CHR 0x27] @
                                c_str (remoteTag c) @ [CHR 0x27, NL]) True) (\<lambda>_.
                 bindA (Remote_SendRequest NO_READER ''PERSONALIZE'' (remoteTag c) []) (\<lambda>_. returnA ()))
               else returnA ()) (\<lambda>_.
        returnA STAT_OK))))))))
       (\<lambda>e. bindA (modA (\<lambda>s. LogDebugString
                (''Failed to connect to '' @ connect_text s @
                 (case e of Exn_String err \<Rightarrow> '' (error: '' @ c_str err @ '')'' | _ \<Rightarrow> []) @ [NL]) True s))
              (\<lambda>_. returnA STAT_OK))"

subsection \<open>The proxy's side of the format\<close>

text \<open>A response as the proxy sends it: the command's identifier, the payload, the end sequence.\<close>

definition proxy_response :: "dword \<Rightarrow> string \<Rightarrow> string" where
  "proxy_response uid payload = ''>'' @ fmt_d uid @ '':'' @ payload @ ''@@''"

lemma decimal_digit_table:
  "\<forall>c \<in> set (CHR ''-'' # map hex_digit [0..<10]). c \<notin> {CHR '':'', CHR 0x00, CHR ''@'', NL}"
  by code_simp

lemma fmt_d_no [simp]: "CHR '':'' \<notin> set (fmt_d w)" "CHR 0x00 \<notin> set (fmt_d w)" "NL \<notin> set (fmt_d w)"
  "CHR ''@'' \<notin> set (fmt_d w)"
proof -
  have "set (fmt_d w) \<subseteq> set (CHR ''-'' # map hex_digit [0..<10])"
  proof
    fix c
    assume "c \<in> set (fmt_d w)"
    from fmt_d_chars[OF this] show "c \<in> set (CHR ''-'' # map hex_digit [0..<10])" by auto
  qed
  then have "\<forall>c \<in> set (fmt_d w). c \<notin> {CHR '':'', CHR 0x00, CHR ''@'', NL}"
    using decimal_digit_table by blast
  then show "CHR '':'' \<notin> set (fmt_d w)" "CHR 0x00 \<notin> set (fmt_d w)" "NL \<notin> set (fmt_d w)"
    "CHR ''@'' \<notin> set (fmt_d w)" by blast+
qed

lemma parse_proxy_response:
  assumes "CHR ''@'' \<notin> set payload"
  shows "Remote_ParseResponse (proxy_response uid payload @ rest) uid resp s = (Inr (SCARD_S_SUCCESS, payload), s)"
proof -
  let ?raw = "proxy_response uid payload @ rest"
  have raw: "?raw = (CHR ''>'' # fmt_d uid) @ [CHR '':''] @ payload @ ''@@'' @ rest"
    by (simp add: proxy_response_def)
  have pos2: "str_find ?raw CMD_SEPARATOR = Some (Suc (length (fmt_d uid)))"
    unfolding raw using find_sub_skip[of "CHR '':''" "CHR ''>'' # fmt_d uid" "[]" "payload @ ''@@'' @ rest"]
    by (simp add: str_find_from_def CMD_SEPARATOR_def)
  have uid: "take (length (fmt_d uid)) (drop 1 ?raw) = fmt_d uid"
    unfolding raw by simp
  have rest: "drop (Suc (Suc (length (fmt_d uid)))) ?raw = payload @ ''@@'' @ rest"
    unfolding raw by simp
  have len: "Suc (Suc (length (fmt_d uid))) \<le> length ?raw" unfolding raw by simp
  have "find_sub ''@@'' (payload @ ''@@'' @ rest) = Some (length payload)"
    using find_sub_skip[OF assms, of "''@''" rest] by simp
  then have body: "str_find_from ?raw REMOTE_SOCKET_ENDSEQ (Suc (Suc (length (fmt_d uid)))) =
      Some (length payload + Suc (Suc (length (fmt_d uid))))"
    using len by (simp only: str_find_from_def REMOTE_SOCKET_ENDSEQ_def rest if_True option.map)
  have first: "\<exists>t. ?raw = CHR ''>'' # t" by (simp add: proxy_response_def)
  then obtain t where t: "?raw = CHR ''>'' # t" by blast
  show ?thesis
    using pos2 uid rest body strtol_fmt_d[of uid]
    by (simp add: Remote_ParseResponse_def t npos_succ_def Let_def)
qed

text \<open>So for every command identifier, the proxy's framing and the library's parser are a codec.\<close>

definition parse_payload :: "dword \<Rightarrow> string \<Rightarrow> string option" where
  "parse_payload uid raw =
     (case Remote_ParseResponse raw uid [] quiet_app of
        (Inr (st, r), _) \<Rightarrow> if st = SCARD_S_SUCCESS then Some r else None
      | _ \<Rightarrow> None)"

interpretation proxy: codec "proxy_response uid" "parse_payload uid" "\<lambda>p. CHR ''@'' \<notin> set p" for uid
  using parse_proxy_response[of _ uid "[]" "[]" quiet_app] by unfold_locales (simp add: parse_payload_def)

subsection \<open>A successful exchange\<close>

text \<open>The state after a request that was sent and answered.\<close>

definition exchanged :: "string \<Rightarrow> string \<Rightarrow> string \<Rightarrow> recv_event list \<Rightarrow> app \<Rightarrow> app" where
  "exchanged targetReader command commandData es s =
     (let s1 = upd_remote (\<lambda>c. c\<lparr>nextCommandID := nextCommandID c + 1\<rparr>) s;
          l = Remote_FormatRequest targetReader (nextCommandID (m_remoteConfig s1)) command commandData [] CMD_LINE_SEPARATOR;
          s2 = LogWinscardRules (''::-> '' @ c_str command @ '' (hidden data)'' @ [NL]) (s1\<lparr>w_tx := w_tx s1 @ [l @ [NL]]\<rparr>)
      in LogWinscardRules (''::<- (hidden response)'' @ [NL]) (s2\<lparr>w_rx := es\<rparr>))"

lemma upd_remote_sel [simp]:
  "m_remoteConfig (upd_remote f s) = f (m_remoteConfig s)"
  "w_live (upd_remote f s) = w_live s" "w_tx (upd_remote f s) = w_tx s" "w_rx (upd_remote f s) = w_rx s"
  "w_conns (upd_remote f s) = w_conns s" "w_nextsock (upd_remote f s) = w_nextsock s"
  "m_winscardConfig (upd_remote f s) = m_winscardConfig s"
  by (simp_all add: upd_remote_def)

lemma exchanged_sel [simp]:
  "m_remoteConfig (exchanged r c d es s) = (m_remoteConfig s)\<lparr>nextCommandID := nextCommandID (m_remoteConfig s) + 1\<rparr>"
  "w_live (exchanged r c d es s) = w_live s"
  "w_rx (exchanged r c d es s) = es"
  "w_tx (exchanged r c d es s) = w_tx s @
     [Remote_FormatRequest r (nextCommandID (m_remoteConfig s) + 1) c d [] CMD_LINE_SEPARATOR @ [NL]]"
  by (simp_all add: exchanged_def Let_def upd_remote_def)

definition has_socket :: "sockid \<Rightarrow> app \<Rightarrow> bool" where
  "has_socket p s \<longleftrightarrow> pSocket (m_remoteConfig s) = Some p \<and> p \<in> set (w_live s) \<and>
     \<not> bOpenSocketForEveryCommand (m_remoteConfig s)"

lemma replace_char_id [simp]: "a \<notin> set s \<Longrightarrow> replace_char a b s = s"
  unfolding replace_char_def by (induction s) auto

lemma proxy_response_lines:
  assumes "NL \<notin> set payload"
  shows "receive_lines REMOTE_SOCKET_ENDSEQ REMOTE_SOCKET_TIMEOUT
      (map RecvByte (proxy_response uid payload @ [NL]) @ es) [] =
    Inr (proxy_response uid payload @ [NL], es)"
proof -
  have nl: "NL \<notin> set (proxy_response uid payload)" using assms by (simp add: proxy_response_def)
  have "find_sub ''@@'' (proxy_response uid payload @ [NL]) \<noteq> None"
  proof
    assume "find_sub ''@@'' (proxy_response uid payload @ [NL]) = None"
    moreover have "find_sub p (xs @ p @ ys) \<noteq> None" for p xs ys :: string
      by (induction xs) (use find_sub_prefix[of p ys] in auto)
    then have "find_sub ''@@'' ((CHR ''>'' # fmt_d uid @ CHR '':'' # payload) @ ''@@'' @ [NL]) \<noteq> None" .
    ultimately show False by (simp add: proxy_response_def)
  qed
  then have "str_find (proxy_response uid payload @ [NL]) REMOTE_SOCKET_ENDSEQ \<noteq> None"
    by (simp add: str_find_from_def REMOTE_SOCKET_ENDSEQ_def)
  then show ?thesis
    using receive_lines_full[of "[]" REMOTE_SOCKET_ENDSEQ, OF _ nl, of REMOTE_SOCKET_TIMEOUT es "[]"] by simp
qed

lemma Remote_SendRequest_answered:
  assumes "has_socket p s"
    and "w_rx s = map RecvByte (proxy_response (nextCommandID (m_remoteConfig s) + 1) payload @ [NL]) @ es"
    and "CHR ''@'' \<notin> set payload" and "NL \<notin> set payload"
  shows "Remote_SendRequest r c d resp s = (Inr (SCARD_S_SUCCESS, payload), exchanged r c d es s)"
proof -
  let ?uid = "nextCommandID (m_remoteConfig s) + 1"
  note rx = proxy_response_lines[OF assms(4), of ?uid es]
  note parse = parse_proxy_response[OF assms(3), of ?uid "[NL]"]
  show ?thesis
    using assms(1,2,4) rx parse
    by (simp add: Remote_SendRequest_def tryA_def request_socket_def has_socket_def bindA_def
        exchange_def SendLine_def deref_Socket_def ReceiveResponse_def exchanged_def Let_def)
qed

subsection \<open>The socket pointer stays valid\<close>

text \<open>
  The invariant behind every use of \<open>pSocket\<close>: with one socket for all commands the pointer is
  null or points to a live object. The steps are the operations the handlers call.
\<close>

definition sock_inv :: "app \<Rightarrow> bool" where
  "sock_inv s \<longleftrightarrow> \<not> bOpenSocketForEveryCommand (m_remoteConfig s) \<and>
     (\<forall>p. pSocket (m_remoteConfig s) = Some p \<longrightarrow> p \<in> set (w_live s))"

definition pointer_fault :: "'a res \<Rightarrow> bool" where
  "pointer_fault r \<longleftrightarrow> r = Inl Null_Deref \<or> r = Inl Double_Free \<or> r = Inl Use_After_Free"

lemma pointer_fault_simps [simp]:
  "\<not> pointer_fault (Inr x)" "\<not> pointer_fault (Inl (Throws e))" "\<not> pointer_fault (Inl Out_Of_Bounds)"
  "\<not> pointer_fault (Inl Hang)"
  by (simp_all add: pointer_fault_def)

text \<open>\<open>sound P m\<close>: \<open>m\<close> keeps \<open>P\<close> and does not fault on a pointer.\<close>

definition sound :: "(app \<Rightarrow> bool) \<Rightarrow> 'a act \<Rightarrow> bool" where
  "sound P m \<longleftrightarrow> (\<forall>s. P s \<longrightarrow> P (snd (m s)) \<and> \<not> pointer_fault (fst (m s)))"

lemma soundD: "sound P m \<Longrightarrow> P s \<Longrightarrow> P (snd (m s))" "sound P m \<Longrightarrow> P s \<Longrightarrow> \<not> pointer_fault (fst (m s))"
  by (simp_all add: sound_def)

lemma sound_returnA [intro]: "sound P (returnA x)"
  by (simp add: sound_def)

lemma sound_getA [intro]: "sound P (getA g)"
  by (simp add: sound_def)

lemma sound_modA: "(\<And>s. P s \<Longrightarrow> P (f s)) \<Longrightarrow> sound P (modA f)"
  by (simp add: sound_def)

lemma sound_liftA: "\<not> pointer_fault r \<Longrightarrow> sound P (liftA r)"
  by (simp add: sound_def)

lemma sound_bindA:
  assumes "sound P m" and "\<And>x. sound P (f x)"
  shows "sound P (bindA m f)"
  unfolding sound_def
proof (intro allI impI)
  fix s
  assume "P s"
  note m = soundD[OF assms(1) this]
  show "P (snd (bindA m f s)) \<and> \<not> pointer_fault (fst (bindA m f s))"
  proof (cases "m s")
    case (Pair r t)
    with m show ?thesis
      using soundD[OF assms(2), of t] by (cases r) (auto simp: bindA_def pointer_fault_def)
  qed
qed

lemma sound_tryA:
  assumes "sound P m" and "\<And>x. sound P (h x)"
  shows "sound P (tryA m h)"
  unfolding sound_def
proof (intro allI impI)
  fix s
  assume "P s"
  note m = soundD[OF assms(1) this]
  show "P (snd (tryA m h s)) \<and> \<not> pointer_fault (fst (tryA m h s))"
  proof (cases "m s")
    case (Pair r t)
    with m show ?thesis
      using soundD[OF assms(2), of t]
      by (cases r) (auto simp: tryA_def split: fault.split)
  qed
qed

lemmas sound_intros = sound_returnA sound_getA sound_modA sound_liftA sound_bindA sound_tryA

lemma has_socket_frames [simp]:
  "has_socket p (LogWinscardRules m s) = has_socket p s"
  "has_socket p (LogDebugString m b s) = has_socket p s"
  "has_socket p (s\<lparr>w_rx := es\<rparr>) = has_socket p s"
  "has_socket p (s\<lparr>w_tx := ts\<rparr>) = has_socket p s"
  "has_socket p (upd_remote (\<lambda>c. c\<lparr>nextCommandID := f c\<rparr>) s) = has_socket p s"
  by (simp_all add: has_socket_def)

lemma sock_inv_frames [simp]:
  "sock_inv (LogWinscardRules m s) = sock_inv s"
  "sock_inv (LogDebugString m b s) = sock_inv s"
  "sock_inv (upd_remote (\<lambda>c. c\<lparr>nextCommandID := f c\<rparr>) s) = sock_inv s"
  by (simp_all add: sock_inv_def)

lemma sound_parse: "sound (has_socket p) (Remote_ParseResponse raw uid resp)"
  by (auto simp: sound_def Remote_ParseResponse_def Let_def split: list.split)

lemma sound_deref: "sound (has_socket p) (deref_Socket p)"
  by (simp add: sound_def deref_Socket_def has_socket_def)

lemma sound_SendLine: "sound (has_socket p) (SendLine p l)"
  unfolding SendLine_def by (intro sound_intros sound_deref) simp

lemma REMOTE_SOCKET_TIMEOUT_pos: "REMOTE_SOCKET_TIMEOUT \<noteq> 0"
  by (simp add: REMOTE_SOCKET_TIMEOUT_def)

lemma sound_ReceiveResponse: "sound (has_socket p) (ReceiveResponse p endSeq REMOTE_SOCKET_TIMEOUT)"
  unfolding sound_def
proof (intro allI impI)
  fix s
  assume s: "has_socket p s"
  obtain l es where "receive_lines endSeq REMOTE_SOCKET_TIMEOUT (w_rx s) [] = Inr (l, es)"
    using receive_lines_returns[OF REMOTE_SOCKET_TIMEOUT_pos] by blast
  with s show "has_socket p (snd (ReceiveResponse p endSeq REMOTE_SOCKET_TIMEOUT s)) \<and>
      \<not> pointer_fault (fst (ReceiveResponse p endSeq REMOTE_SOCKET_TIMEOUT s))"
    by (simp add: ReceiveResponse_def bindA_def deref_Socket_def) (simp add: has_socket_def)
qed

lemma sound_exchange: "sound (has_socket p) (exchange p r c d resp)"
  unfolding exchange_def
  by (intro sound_intros sound_SendLine sound_ReceiveResponse)
    (auto intro!: sound_intros sound_parse simp: Socket_Close_def sound_deref)

lemma sound_request: "sound sock_inv (Remote_SendRequest r c d resp)"
  unfolding Remote_SendRequest_def
proof (rule sound_tryA)
  show "sound sock_inv (bindA (modA (\<lambda>s. LogDebugString (''Failed to connect to '' @ connect_text s @
      (case e of Exn_String err \<Rightarrow> '' (error: '' @ c_str err @ '')'' | _ \<Rightarrow> []) @ [NL]) True s))
      (\<lambda>_. returnA (SCARD_S_SUCCESS, resp)))" for e
    by (intro sound_intros) simp
next
  let ?k = "\<lambda>sock. case sock of
      None \<Rightarrow> bindA (modA (\<lambda>s. LogDebugString
                (''Connnecting to remote proxy with IP:port = '' @ connect_text s @ '' failed'') True s))
              (\<lambda>_. returnA (0, resp))
    | Some p \<Rightarrow> exchange p r c d resp"
  let ?m = "bindA request_socket (\<lambda>_. bindA (getA (\<lambda>s. pSocket (m_remoteConfig s))) ?k)"
  show "sound sock_inv ?m"
    unfolding sound_def
  proof (intro allI impI)
    fix s
    assume s: "sock_inv s"
    have go: "sock_inv (snd (exchange p r c d resp t)) \<and> \<not> pointer_fault (fst (exchange p r c d resp t))"
      if "has_socket p t" for p t
      using soundD[OF sound_exchange that, of r c d resp] by (simp add: sock_inv_def has_socket_def)
    show "sock_inv (snd (?m s)) \<and> \<not> pointer_fault (fst (?m s))"
    proof (cases "pSocket (m_remoteConfig s)")
      case (Some p)
      then have "has_socket p s" using s by (simp add: has_socket_def sock_inv_def)
      then show ?thesis using Some s go by (simp add: request_socket_def bindA_def sock_inv_def)
    next
      case None
      have go': "has_socket (w_nextsock s) t \<Longrightarrow> ?thesis"
        if "request_socket s = (Inr (), t)" "pSocket (m_remoteConfig t) = Some (w_nextsock s)" for t
        using that go by (simp add: bindA_def)
      show ?thesis
      proof (cases "case w_conns s of [] \<Rightarrow> ConnFailed [] | c # _ \<Rightarrow> c")
        case ConnOk
        then obtain t where "request_socket s = (Inr (), t)" "pSocket (m_remoteConfig t) = Some (w_nextsock s)"
          "has_socket (w_nextsock s) t"
          using None s by (simp add: request_socket_def open_socket_def bindA_def new_SocketClient_def
              sock_inv_def has_socket_def Let_def)
        then show ?thesis using go' by blast
      next
        case (ConnNoSocket e)
        then show ?thesis using None s
          by (simp add: request_socket_def open_socket_def bindA_def new_SocketClient_def sock_inv_def Let_def)
      next
        case (ConnFailed e)
        then show ?thesis using None s
          by (simp add: request_socket_def open_socket_def bindA_def new_SocketClient_def sock_inv_def Let_def)
      qed
    qed
  qed
qed

lemma sound_catch: "(\<And>m s. P (LogWinscardRules m s) = P s) \<Longrightarrow> sound P (catch_unknown n m out e)"
  unfolding catch_unknown_def by (intro sound_intros) simp

lemma sound_connect: "sound sock_inv (Remote_SCardConnect r atr)"
  unfolding Remote_SCardConnect_def
  by (intro sound_bindA sound_getA)
    (auto split: option.split intro!: sound_intros sound_request sound_catch)

lemma parse_loop_no_pointer_fault: "\<not> pointer_fault (parse_loop sep rem mem item out)"
proof (induction mem arbitrary: rem item out)
  case (Cons c mem)
  show ?case
  proof (cases mem)
    case (Cons d mem')
    show ?thesis
      using Cons.IH unfolding Cons by (subst parse_loop.simps(2)) (simp del: parse_loop.simps)
  next
    case Nil
    then show ?thesis by simp
  qed
qed simp

lemma parse_array_no_pointer_fault: "\<not> pointer_fault (String_ParseSeparatedArray a n sep out)"
  using parse_loop_no_pointer_fault[of sep n a "[]" out]
  by (auto simp: String_ParseSeparatedArray_def bindE_def pointer_fault_def split: sum.split)

lemma reader_names_no_pointer_fault: "\<not> pointer_fault (remote_reader_names items)"
proof (induction items)
  case (Cons i items)
  then show ?case
    by (cases "remote_reader_names items") (auto simp: remote_reader_name_def pointer_fault_def)
qed simp

lemma hex_array_no_pointer_fault: "\<not> pointer_fault (BYTE_ConvertFromHexStringToArray h a n)"
  by (auto simp: BYTE_ConvertFromHexStringToArray_def Let_def bindE_def guardE_def)

lemma sound_list: "sound sock_inv (Remote_ListReaders rs)"
  unfolding Remote_ListReaders_def
  by (intro sound_bindA sound_getA)
    (auto simp: Let_def split: option.split
      intro!: sound_intros sound_request sound_catch parse_array_no_pointer_fault reader_names_no_pointer_fault)

lemma sound_transmit: "sound sock_inv (Remote_SCardTransmit r apdu buf len)"
  unfolding Remote_SCardTransmit_def
  by (intro sound_bindA sound_getA)
    (auto simp: Let_def split: option.split
      intro!: sound_intros sound_request sound_catch hex_array_no_pointer_fault)

datatype remote_op =
    Op_Connect string
  | Op_ListReaders
  | Op_Transmit string "byte list" "byte list" dword
  | Op_ReleaseContext

fun remote_step :: "remote_op \<Rightarrow> app \<Rightarrow> app" where
  "remote_step (Op_Connect r) s = snd (Remote_SCardConnect r [] s)"
| "remote_step Op_ListReaders s = snd (Remote_ListReaders [] s)"
| "remote_step (Op_Transmit r apdu buf len) s = snd (Remote_SCardTransmit r apdu buf len s)"
| "remote_step Op_ReleaseContext s = Remote_SCardReleaseContext s"

interpretation remote: inv_machine remote_step sock_inv
proof
  fix s op
  assume "sock_inv s"
  then show "sock_inv (remote_step op s)"
    by (cases op) (simp_all add: soundD(1)[OF sound_connect] soundD(1)[OF sound_list]
        soundD(1)[OF sound_transmit], simp add: sock_inv_def Remote_SCardReleaseContext_def)
qed

subsection \<open>Hexadecimal payloads\<close>

lemma hex_string_chars:
  assumes "c \<in> set (BYTE_ConvertFromArrayToHexString bs sp)"
  shows "c = CHR '' '' \<or> (\<exists>n < 16. c = hex_digit n)"
proof -
  have drop: "set (dropWhile P xs) \<subseteq> set xs" for P and xs :: string by (induction xs) auto
  have "c \<in> set (concat (map (\<lambda>b. fmt_02x b @ (if sp then '' '' else [])) bs))"
    using assms drop unfolding BYTE_ConvertFromArrayToHexString_def erase_trailing_eq set_rev
    by (metis (no_types, lifting) in_mono set_rev)
  then obtain b where "c \<in> set (fmt_02x b) \<or> c = CHR '' ''" by (auto split: if_splits)
  then have "c = hex_digit (unat b div 16) \<or> c = hex_digit (unat b mod 16) \<or> c = CHR '' ''"
    by (auto simp: fmt_02x_def)
  moreover have "unat b div 16 < 16" using unat_byte_less[of b] by (simp add: less_mult_imp_div_less)
  moreover have "unat b mod 16 < 16" by simp
  ultimately show ?thesis by blast
qed

lemma hex_char_table:
  "\<forall>c \<in> set (CHR '' '' # map hex_digit [0..<16]). c \<notin> {CHR ''@'', NL, CHR ''F'', CHR 0x00, CHR '':''} \<and>
     (c \<noteq> CHR '' '' \<longrightarrow> \<not> TRAILING_WS c)"
  by code_simp

lemma hex_string_no:
  fixes bs sp
  defines "h \<equiv> BYTE_ConvertFromArrayToHexString bs sp"
  shows "CHR ''@'' \<notin> set h" "NL \<notin> set h" "CHR ''F'' \<notin> set h" "CHR 0x00 \<notin> set h"
    and "erase_trailing TRAILING_WS h = h"
proof -
  have in_table: "c \<in> set (CHR '' '' # map hex_digit [0..<16])" if "c \<in> set h" for c
    using hex_string_chars[OF that[unfolded h_def]] by auto
  then show "CHR ''@'' \<notin> set h" "NL \<notin> set h" "CHR ''F'' \<notin> set h" "CHR 0x00 \<notin> set h"
    using hex_char_table by blast+
  show "erase_trailing TRAILING_WS h = h"
  proof (rule erase_trailing_id, cases "h = []")
    case False
    have "last h \<noteq> CHR '' ''"
    proof -
      have "rev h \<noteq> []" "rev h = dropWhile (\<lambda>c. c = CHR '' '') (rev (concat (map (\<lambda>b. fmt_02x b @ (if sp then '' '' else [])) bs)))"
        using False by (simp_all add: h_def BYTE_ConvertFromArrayToHexString_def erase_trailing_eq)
      then have "hd (rev h) \<noteq> CHR '' ''" by (metis (mono_tags, lifting) hd_dropWhile)
      with False show ?thesis by (simp add: hd_rev)
    qed
    then show "h = [] \<or> \<not> TRAILING_WS (last h)"
      using False in_table[OF last_in_set] hex_char_table by blast
  qed simp
qed

lemma hex_string_not_FAIL: "str_find (BYTE_ConvertFromArrayToHexString bs sp) CMD_RESPONSE_FAIL = None"
  using hex_string_no(3)[of bs sp] by (simp add: str_find_from_def CMD_RESPONSE_FAIL_def find_sub_absent)

subsection \<open>What the network operations leave unchanged\<close>

text \<open>
  Everything but the proxy settings, the log, the clock and the network: the state an operation
  of the protocol cannot touch.
\<close>

definition core :: "app \<Rightarrow> app" where
  "core s = s\<lparr>m_remoteConfig := REMOTE_CONFIG_new, w_clock := 0, w_out := [], w_rx := [], w_tx := [],
     w_conns := [], w_live := [], w_nextsock := 0, w_dialed := []\<rparr>"

lemma core_simps [simp]:
  "core (LogWinscardRules m s) = core s" "core (LogDebugString m b s) = core s"
  "core (upd_remote f s) = core s" "core (s\<lparr>w_rx := es\<rparr>) = core s" "core (s\<lparr>w_tx := ts\<rparr>) = core s"
  by (simp_all add: core_def upd_remote_def)

lemma core_eqD:
  assumes "core t = core s"
  shows "rulesList t = rulesList s" "apduInList t = apduInList s" "apduOutList t = apduOutList s"
    "m_bRulesActive t = m_bRulesActive s" "cardReaderMap t = cardReaderMap s"
    "remoteReadersMap t = remoteReadersMap s" "remoteCardsATRMap t = remoteCardsATRMap s"
    "m_nextRemoteCardID t = m_nextRemoteCardID s" "m_winscardConfig t = m_winscardConfig s"
    "m_processedApduByteCounter t = m_processedApduByteCounter s" "apduCounter t = apduCounter s"
    "m_charAllocatedMemoryList t = m_charAllocatedMemoryList s"
    "m_wcharAllocatedMemoryList t = m_wcharAllocatedMemoryList s" "w_freed t = w_freed s"
    "instructionDict t = instructionDict s" "w_env t = w_env s"
proof -
  have eq: "f (core t) = f (core s)" for f :: "app \<Rightarrow> 'x" using assms by simp
  show "rulesList t = rulesList s" using eq[of rulesList] by (simp add: core_def)
  show "apduInList t = apduInList s" using arg_cong[OF assms, of apduInList] by (simp add: core_def)
  show "apduOutList t = apduOutList s" using arg_cong[OF assms, of apduOutList] by (simp add: core_def)
  show "m_bRulesActive t = m_bRulesActive s" using arg_cong[OF assms, of m_bRulesActive] by (simp add: core_def)
  show "cardReaderMap t = cardReaderMap s" using arg_cong[OF assms, of cardReaderMap] by (simp add: core_def)
  show "remoteReadersMap t = remoteReadersMap s" using arg_cong[OF assms, of remoteReadersMap] by (simp add: core_def)
  show "remoteCardsATRMap t = remoteCardsATRMap s" using arg_cong[OF assms, of remoteCardsATRMap] by (simp add: core_def)
  show "m_nextRemoteCardID t = m_nextRemoteCardID s" using arg_cong[OF assms, of m_nextRemoteCardID] by (simp add: core_def)
  show "m_winscardConfig t = m_winscardConfig s" using arg_cong[OF assms, of m_winscardConfig] by (simp add: core_def)
  show "m_processedApduByteCounter t = m_processedApduByteCounter s"
    using arg_cong[OF assms, of m_processedApduByteCounter] by (simp add: core_def)
  show "apduCounter t = apduCounter s" using arg_cong[OF assms, of apduCounter] by (simp add: core_def)
  show "m_charAllocatedMemoryList t = m_charAllocatedMemoryList s"
    using arg_cong[OF assms, of m_charAllocatedMemoryList] by (simp add: core_def)
  show "m_wcharAllocatedMemoryList t = m_wcharAllocatedMemoryList s"
    using arg_cong[OF assms, of m_wcharAllocatedMemoryList] by (simp add: core_def)
  show "w_freed t = w_freed s" using arg_cong[OF assms, of w_freed] by (simp add: core_def)
  show "instructionDict t = instructionDict s" using arg_cong[OF assms, of instructionDict] by (simp add: core_def)
  show "w_env t = w_env s" using arg_cong[OF assms, of w_env] by (simp add: core_def)
qed

definition keeps_core :: "'a act \<Rightarrow> bool" where
  "keeps_core m \<longleftrightarrow> (\<forall>s. core (snd (m s)) = core s)"

lemma keeps_coreD: "keeps_core m \<Longrightarrow> core (snd (m s)) = core s"
  by (simp add: keeps_core_def)

lemma keeps_core_prims:
  "keeps_core (deref_Socket p)" "keeps_core (delete_Socket p)" "keeps_core (new_SocketClient h pt)"
  "keeps_core (logA m)" "keeps_core (debugA m b)" "keeps_core (modA (upd_remote f))"
  "keeps_core (Remote_ParseResponse raw uid resp)" "keeps_core (ReceiveResponse p e t)"
  "keeps_core (returnA x)" "keeps_core (failA e')" "keeps_core (getA g)" "keeps_core (liftA r)"
  by (auto simp: keeps_core_def deref_Socket_def delete_Socket_def new_SocketClient_def ReceiveResponse_def
      bindA_def Remote_ParseResponse_def Let_def core_def upd_remote_def
      split: conn_event.split list.split sum.split)

lemma keeps_core_modA: "(\<And>s. core (g s) = core s) \<Longrightarrow> keeps_core (modA g)"
  by (simp add: keeps_core_def)

lemma keeps_core_bindA: "keeps_core m \<Longrightarrow> (\<And>x. keeps_core (f x)) \<Longrightarrow> keeps_core (bindA m f)"
  unfolding keeps_core_def bindA_def by (auto split: prod.split sum.split) (metis snd_conv)+

lemma keeps_core_tryA: "keeps_core m \<Longrightarrow> (\<And>x. keeps_core (h x)) \<Longrightarrow> keeps_core (tryA m h)"
  unfolding keeps_core_def tryA_def by (auto split: prod.split sum.split fault.split) (metis snd_conv)+

lemma keeps_core_cases:
  "keeps_core a \<Longrightarrow> keeps_core b \<Longrightarrow> keeps_core (if c then a else b)"
  "keeps_core a \<Longrightarrow> (\<And>y. keeps_core (f y)) \<Longrightarrow> keeps_core (case x of None \<Rightarrow> a | Some y \<Rightarrow> f y)"
  "(\<And>y z. keeps_core (g y z)) \<Longrightarrow> keeps_core (case p of (y, z) \<Rightarrow> g y z)"
  by (auto split: option.split prod.split)

lemmas keeps_core_rules = keeps_core_prims keeps_core_bindA keeps_core_tryA keeps_core_cases

lemma keeps_core_request: "keeps_core (Remote_SendRequest r c d resp)"
  unfolding Remote_SendRequest_def request_socket_def open_socket_def exchange_def SendLine_def Socket_Close_def
  by (intro keeps_core_rules keeps_core_modA) simp_all

lemma keeps_core_connect: "keeps_core (Remote_SCardConnect r atr)"
  unfolding Remote_SCardConnect_def catch_unknown_def
  by (intro keeps_core_rules keeps_core_request)

lemma keeps_core_list: "keeps_core (Remote_ListReaders rs)"
  unfolding Remote_ListReaders_def catch_unknown_def Let_def
  by (intro keeps_core_rules keeps_core_request)

lemma keeps_core_transmit: "keeps_core (Remote_SCardTransmit r apdu buf len)"
  unfolding Remote_SCardTransmit_def catch_unknown_def Let_def
  by (intro keeps_core_rules keeps_core_request)

subsection \<open>Properties\<close>

text \<open>A library state connected to a proxy, and the bytes of an answer to its second-next command.\<close>

definition connected_app :: "recv_event list \<Rightarrow> app" where
  "connected_app rx = quiet_app\<lparr>m_remoteConfig := REMOTE_CONFIG_new\<lparr>pSocket := Some 0\<rparr>,
     w_live := [0], w_nextsock := 1, w_rx := rx\<rparr>"

lemma connected_app_sel [simp]:
  "has_socket 0 (connected_app rx)" "w_rx (connected_app rx) = rx" "w_tx (connected_app rx) = []"
  "nextCommandID (m_remoteConfig (connected_app rx)) = 1"
  "pSocket (m_remoteConfig (connected_app rx)) = Some 0"
  by (simp_all add: connected_app_def has_socket_def REMOTE_CONFIG_new_def quiet_app_def app_init_def)

text \<open>
  An APDU sent to the remote card comes back as the card's answer. With a live connection, a
  proxy that answers with the command's identifier and the response bytes in hexadecimal (2 to 260
  of them, blanks between bytes or not), \<open>Remote_SCardTransmit\<close> returns \<open>STAT_OK\<close>, stores exactly
  these bytes and their number, and has sent exactly one request, the \<open>APDU\<close> command with the
  given bytes, whose identifier is two above the last one.
\<close>

lemma Remote_SCardTransmit_answered:
  assumes "has_socket p s"
    and "w_rx s = map RecvByte (proxy_response (nextCommandID (m_remoteConfig s) + 2)
           (BYTE_ConvertFromArrayToHexString rdata sp) @ [NL]) @ es"
    and "2 \<le> length rdata" and "length rdata \<le> 260" and "length rdata \<le> length rbuf"
  shows "\<exists>t. Remote_SCardTransmit reader apdu rbuf len s =
      (Inr (STAT_OK, blit rbuf 0 rdata, of_nat (length rdata)), t) \<and>
    w_rx t = es \<and>
    w_tx t = w_tx s @ [Remote_FormatRequest reader (nextCommandID (m_remoteConfig s) + 2) ''APDU''
                         (BYTE_ConvertFromArrayToHexString apdu False) [] CMD_LINE_SEPARATOR @ [NL]] \<and>
    has_socket p t \<and> nextCommandID (m_remoteConfig t) = nextCommandID (m_remoteConfig s) + 2"
proof -
  let ?h = "BYTE_ConvertFromArrayToHexString rdata sp"
  let ?s1 = "upd_remote (\<lambda>c. c\<lparr>nextCommandID := nextCommandID c + 1\<rparr>) s"
  have uid: "nextCommandID (m_remoteConfig ?s1) + 1 = nextCommandID (m_remoteConfig s) + 2" by simp
  have sock: "has_socket p ?s1" using assms(1) by simp
  have rx: "w_rx ?s1 = map RecvByte (proxy_response (nextCommandID (m_remoteConfig ?s1) + 1) ?h @ [NL]) @ es"
    using assms(2) by (simp add: add.commute)
  note send = Remote_SendRequest_answered[OF sock rx hex_string_no(1,2), of reader "''APDU''"
      "BYTE_ConvertFromArrayToHexString apdu False" "[]"]
  have hex: "BYTE_ConvertFromHexStringToArray ?h rbuf 260 = Inr (STAT_OK, blit rbuf 0 rdata, length rdata)"
    using assms(4,5) by (simp add: BYTE_ConvertFromHexStringToArray_def Let_def)
  have n: "\<not> (of_nat (length rdata) :: dword) < 2"
    using assms(3,4) by (simp add: word_less_nat_alt unat_of_nat take_bit_eq_mod)
  have p: "pSocket (m_remoteConfig s) = Some p" using assms(1) by (simp add: has_socket_def)
  let ?t = "exchanged reader ''APDU'' (BYTE_ConvertFromArrayToHexString apdu False) es ?s1"
  have "Remote_SCardTransmit reader apdu rbuf len s = (Inr (STAT_OK, blit rbuf 0 rdata, of_nat (length rdata)), ?t)"
    using p send hex n
    by (simp add: Remote_SCardTransmit_def tryA_def bindA_def hex_string_no(5) hex_string_not_FAIL Let_def)
  moreover have "has_socket p ?t" using assms(1) by (simp add: has_socket_def)
  ultimately show ?thesis by (simp add: add.commute)
qed

text \<open>
  C36: A stale answer is never taken for the card's. When the response carries any other command
  identifier, the APDU call fails with \<open>STAT_DATA_INCORRECT_LENGTH\<close>, the receive buffer keeps its
  content and the length is 0.
\<close>

theorem remote_transmit_stale_response:
  assumes "has_socket p s"
    and "w_rx s = map RecvByte (proxy_response uid payload @ [NL]) @ es"
    and "CHR ''@'' \<notin> set payload" and "NL \<notin> set payload"
    and "uid \<noteq> nextCommandID (m_remoteConfig s) + 2"
  shows "fst (Remote_SCardTransmit reader apdu rbuf len s) = Inr (STAT_DATA_INCORRECT_LENGTH, rbuf, 0)"
proof -
  let ?s1 = "upd_remote (\<lambda>c. c\<lparr>nextCommandID := nextCommandID c + 1\<rparr>) s"
  have p: "pSocket (m_remoteConfig s) = Some p" "p \<in> set (w_live s)" "\<not> bOpenSocketForEveryCommand (m_remoteConfig s)"
    using assms(1) by (simp_all add: has_socket_def)
  let ?raw = "proxy_response uid payload @ [NL]"
  have raw: "?raw = (CHR ''>'' # fmt_d uid) @ [CHR '':''] @ payload @ ''@@'' @ [NL]"
    by (simp add: proxy_response_def)
  have pos2: "str_find ?raw CMD_SEPARATOR = Some (Suc (length (fmt_d uid)))"
    unfolding raw using find_sub_skip[of "CHR '':''" "CHR ''>'' # fmt_d uid" "[]" "payload @ ''@@'' @ [NL]"]
    by (simp add: str_find_from_def CMD_SEPARATOR_def)
  obtain t where t: "?raw = CHR ''>'' # t" by (simp add: proxy_response_def)
  have "take (length (fmt_d uid)) t = fmt_d uid" using t raw by auto
  then have parse: "Remote_ParseResponse ?raw e r u = (Inr (SCARD_F_COMM_ERROR, r),
      LogWinscardRules (''Unexpected commandID in response'' @ [NL]) u)" if "e \<noteq> uid" for e r u
    using that pos2 strtol_fmt_d[of uid] by (simp add: Remote_ParseResponse_def t npos_succ_def Let_def)
  note rx = proxy_response_lines[OF assms(4), of uid es]
  have "\<exists>t. Remote_SendRequest reader ''APDU'' d [] ?s1 = (Inr (SCARD_F_COMM_ERROR, []), t)" for d
    using p assms(2,5) rx parse[of "nextCommandID (m_remoteConfig s) + 2"]
    by (simp add: Remote_SendRequest_def tryA_def request_socket_def bindA_def
        exchange_def SendLine_def deref_Socket_def ReceiveResponse_def replace_char_def add.commute)
  then obtain u where "Remote_SendRequest reader ''APDU'' (BYTE_ConvertFromArrayToHexString apdu False) [] ?s1 =
      (Inr (SCARD_F_COMM_ERROR, []), u)" by blast
  moreover have "str_find [] CMD_RESPONSE_FAIL = None" "erase_trailing TRAILING_WS [] = []"
    by (simp_all add: str_find_from_def CMD_RESPONSE_FAIL_def erase_trailing_eq)
  moreover have "BYTE_ConvertFromHexStringToArray [] rbuf 260 = Inr (STAT_OK, rbuf, 0)"
    by (simp add: BYTE_ConvertFromHexStringToArray_def compact_hex_eq Let_def blit_def)
  ultimately show ?thesis using p(1)
    by (simp add: Remote_SCardTransmit_def tryA_def bindA_def Let_def)
qed

theorem remote_transmit_stale_response_witness:
  "fst (Remote_SCardTransmit ''Simona'' [0x00, 0xA4] [7, 7] 2
      (connected_app (map RecvByte (proxy_response 2 ''9000'' @ [NL]) @ []))) =
    Inr (STAT_DATA_INCORRECT_LENGTH, [7, 7], 0)"
  by (rule remote_transmit_stale_response[where p = 0 and uid = 2 and payload = "''9000''" and es = "[]"])
    simp_all

text \<open>
  The socket pointer is never misused in the default mode. Starting from a state whose
  \<open>pSocket\<close> is null or live and with one socket for all commands, after any sequence of connects,
  reader listings, transmissions and context releases, with any network behaviour, the pointer is
  null or live again and the next APDU call does not fault on a pointer.
\<close>

theorem remote_operations_socket_safe:
  assumes "sock_inv s"
  shows "sock_inv (fold remote_step ops s) \<and>
    \<not> pointer_fault (fst (Remote_SCardTransmit r apdu buf len (fold remote_step ops s)))"
  using remote.fold_inv[OF assms, of ops] soundD(2)[OF sound_transmit] by blast

theorem remote_operations_socket_safe_witness:
  "sock_inv (fold remote_step [Op_ListReaders, Op_Connect ''Simona'', Op_ReleaseContext] (connected_app [RecvClosed])) \<and>
   \<not> pointer_fault (fst (Remote_SCardTransmit ''Simona'' [0] [0] 1
       (fold remote_step [Op_ListReaders, Op_Connect ''Simona'', Op_ReleaseContext] (connected_app [RecvClosed]))))"
  by (rule remote_operations_socket_safe)
    (simp add: sock_inv_def connected_app_def REMOTE_CONFIG_new_def)

text \<open>
  C39: A failed reconnection leaves a dangling socket. With a new socket for every command
  (\<open>NEW_SOCKET_PER_COMMAND\<close>), a request whose connection attempt fails still returns
  \<open>SCARD_S_SUCCESS\<close>, keeps \<open>pSocket\<close> pointing at the deleted object, and the next request deletes
  it a second time.
\<close>

theorem failed_reconnect_double_free:
  assumes "bOpenSocketForEveryCommand (m_remoteConfig s)"
    and "pSocket (m_remoteConfig s) = Some p" and "p \<in> set (w_live s)"
    and "w_conns s = ConnFailed err # conns"
  shows "\<exists>t. Remote_SendRequest r c d resp s = (Inr (SCARD_S_SUCCESS, resp), t) \<and>
    pSocket (m_remoteConfig t) = Some p \<and> p \<notin> set (w_live t) \<and>
    fst (Remote_SendRequest r' c' d' resp' t) = Inl Double_Free"
  using assms
  by (simp add: Remote_SendRequest_def tryA_def request_socket_def bindA_def delete_Socket_def
      open_socket_def new_SocketClient_def Let_def)

theorem failed_reconnect_double_free_witness:
  "\<exists>t. Remote_SendRequest ''*'' ''READERS'' '':0'' []
      ((connected_app [])\<lparr>m_remoteConfig := REMOTE_CONFIG_new\<lparr>pSocket := Some 0, bOpenSocketForEveryCommand := True\<rparr>,
         w_conns := [ConnFailed ''Connection refused'']\<rparr>) = (Inr (SCARD_S_SUCCESS, []), t) \<and>
    pSocket (m_remoteConfig t) = Some 0 \<and> 0 \<notin> set (w_live t) \<and>
    fst (Remote_SendRequest ''*'' ''READERS'' '':0'' [] t) = Inl Double_Free"
  by (rule failed_reconnect_double_free) (simp_all add: connected_app_def)

text \<open>
  Without a socket an APDU is answered with success. When \<open>pSocket\<close> is null,
  \<open>Remote_SCardTransmit\<close> returns 0, which is \<open>SCARD_S_SUCCESS\<close>, and leaves the receive buffer, its
  length and the whole state as they are; connecting to the card and listing the readers report
  \<open>SCARD_F_COMM_ERROR\<close> in the same situation.
\<close>

theorem no_socket_transmit_succeeds:
  assumes "pSocket (m_remoteConfig s) = None"
  shows "Remote_SCardTransmit r apdu buf len s = (Inr (SCARD_S_SUCCESS, buf, len), s) \<and>
    Remote_SCardConnect r atr s = (Inr (SCARD_F_COMM_ERROR, atr), s) \<and>
    Remote_ListReaders rs s = (Inr (SCARD_F_COMM_ERROR, rs), s)"
  using assms by (simp add: Remote_SCardTransmit_def Remote_SCardConnect_def Remote_ListReaders_def bindA_unfold)

theorem no_socket_transmit_succeeds_witness:
  "Remote_SCardTransmit ''Simona'' [0x00] [9, 9] 2 quiet_app = (Inr (SCARD_S_SUCCESS, [9, 9], 2), quiet_app) \<and>
   Remote_SCardConnect ''Simona'' [] quiet_app = (Inr (SCARD_F_COMM_ERROR, []), quiet_app) \<and>
   Remote_ListReaders [] quiet_app = (Inr (SCARD_F_COMM_ERROR, []), quiet_app)"
  by (rule no_socket_transmit_succeeds) (simp add: quiet_app_def app_init_def REMOTE_CONFIG_new_def)

text \<open>
  Starting without a tag disables remoting. When the trial connection of \<open>Remote_Connect\<close>
  succeeds but the personalisation tag is empty, no request follows and \<open>pSocket\<close> is null
  afterwards, so that listing remote readers then fails without contacting the proxy.
\<close>

theorem connect_without_tag:
  assumes "w_conns s = ConnOk # conns" and "remoteTag (m_remoteConfig s) = []"
  shows "\<exists>t. Remote_Connect s = (Inr STAT_OK, t) \<and> pSocket (m_remoteConfig t) = None \<and>
    w_tx t = w_tx s \<and> w_live t = removeAll (w_nextsock s) (w_live s) \<and>
    fst (Remote_ListReaders rs t) = Inr (SCARD_F_COMM_ERROR, rs)"
  using assms
  by (simp add: Remote_Connect_def tryA_def bindA_def open_socket_def new_SocketClient_def
      Socket_Close_def deref_Socket_def delete_Socket_def Let_def Remote_ListReaders_def)

theorem connect_without_tag_witness:
  "\<exists>t. Remote_Connect (quiet_app\<lparr>w_conns := [ConnOk]\<rparr>) = (Inr STAT_OK, t) \<and> pSocket (m_remoteConfig t) = None \<and>
    w_tx t = w_tx (quiet_app\<lparr>w_conns := [ConnOk]\<rparr>) \<and>
    w_live t = removeAll (w_nextsock (quiet_app\<lparr>w_conns := [ConnOk]\<rparr>)) (w_live (quiet_app\<lparr>w_conns := [ConnOk]\<rparr>)) \<and>
    fst (Remote_ListReaders [] t) = Inr (SCARD_F_COMM_ERROR, [])"
  by (rule connect_without_tag) (simp_all add: quiet_app_def app_init_def REMOTE_CONFIG_new_def)

end
