(* ===== verification/Forwarders.thy ===== *)
theory Forwarders
  imports Remote_Proto
begin

text \<open>
  The entry points of the library that only log the call and pass it on to the original winscard
  library (\<open>Winscard.cpp\<close>), and those that answer by themselves when the card handle belongs to a
  remote card. The original function is an argument: \<open>None\<close> is a procedure address that was not
  found, calling which is a null dereference; its outputs are part of its result. Pointers the
  handlers do not look through are of arbitrary type.
\<close>

subsection \<open>Calling the original\<close>

definition call_original :: "('a \<Rightarrow> 'r) option \<Rightarrow> 'a \<Rightarrow> 'r act" where
  "call_original orig args = (case orig of None \<Rightarrow> failA Null_Deref | Some f \<Rightarrow> returnA (f args))"

text \<open>\<open>if (theApp.IsRemoteCard(hCard)) return ...; else return (*Original)(...);\<close>\<close>

definition local_only :: "handle \<Rightarrow> 'r \<Rightarrow> ('a \<Rightarrow> 'r) option \<Rightarrow> 'a \<Rightarrow> 'r act" where
  "local_only hCard remote orig args =
     bindA (getA (IsRemoteCard hCard)) (\<lambda>r. if r then returnA remote else call_original orig args)"

text \<open>A wide string printed with \<open>%S\<close>, for characters below 256.\<close>

definition fmt_S :: "wchar list \<Rightarrow> string" where
  "fmt_S ws = map (\<lambda>w. char_of (unat w)) (takeWhile (\<lambda>w. w \<noteq> 0) ws)"

subsection \<open>Pure forwarders\<close>

definition SCardListReaderGroups ::
    "(handle \<times> 'a \<times> 'b \<Rightarrow> 'r) option \<Rightarrow> handle \<Rightarrow> 'a \<Rightarrow> 'b \<Rightarrow> 'r act" where [handler_defs]:
  "SCardListReaderGroups orig hContext mszGroups pcchGroups =
     bindA (logA (''SCardListReaderGroups called'' @ [NL])) (\<lambda>_. call_original orig (hContext, mszGroups, pcchGroups))"

definition SCardListReaderGroupsW ::
    "(handle \<times> 'a \<times> 'b \<Rightarrow> 'r) option \<Rightarrow> handle \<Rightarrow> 'a \<Rightarrow> 'b \<Rightarrow> 'r act" where [handler_defs]:
  "SCardListReaderGroupsW orig hContext mszGroups pcchGroups =
     bindA (logA (''SCardListReaderGroupsW called'' @ [NL])) (\<lambda>_. call_original orig (hContext, mszGroups, pcchGroups))"

definition SCardListCardsA ::
    "(handle \<times> 'a \<times> 'b \<times> dword \<times> 'c \<times> 'd \<Rightarrow> 'r) option \<Rightarrow> handle \<Rightarrow> 'a \<Rightarrow> 'b \<Rightarrow> dword \<Rightarrow> 'c \<Rightarrow> 'd \<Rightarrow> 'r act" where [handler_defs]:
  "SCardListCardsA orig hContext pbAtr rgquidInterfaces cguidInterfaceCount mszCards pcchCards =
     bindA (logA (''SCardListCardsA(hContext:0x'' @ fmt_handle hContext @ '') called'' @ [NL])) (\<lambda>_. call_original orig (hContext, pbAtr, rgquidInterfaces, cguidInterfaceCount, mszCards, pcchCards))"

definition SCardListCardsW ::
    "(handle \<times> 'a \<times> 'b \<times> dword \<times> 'c \<times> 'd \<Rightarrow> 'r) option \<Rightarrow> handle \<Rightarrow> 'a \<Rightarrow> 'b \<Rightarrow> dword \<Rightarrow> 'c \<Rightarrow> 'd \<Rightarrow> 'r act" where [handler_defs]:
  "SCardListCardsW orig hContext pbAtr rgquidInterfaces cguidInterfaceCount mszCards pcchCards =
     bindA (logA (''SCardListCardsW(hContext:0x'' @ fmt_handle hContext @ '') called'' @ [NL])) (\<lambda>_. call_original orig (hContext, pbAtr, rgquidInterfaces, cguidInterfaceCount, mszCards, pcchCards))"

definition SCardListInterfacesA ::
    "(handle \<times> 'a \<times> 'b \<times> 'c \<Rightarrow> 'r) option \<Rightarrow> handle \<Rightarrow> 'a \<Rightarrow> 'b \<Rightarrow> 'c \<Rightarrow> 'r act" where [handler_defs]:
  "SCardListInterfacesA orig hContext szCard pguidInterfaces pcguidInterfaces =
     bindA (logA (''SCardListInterfacesA called'' @ [NL])) (\<lambda>_. call_original orig (hContext, szCard, pguidInterfaces, pcguidInterfaces))"

definition SCardListInterfacesW ::
    "(handle \<times> 'a \<times> 'b \<times> 'c \<Rightarrow> 'r) option \<Rightarrow> handle \<Rightarrow> 'a \<Rightarrow> 'b \<Rightarrow> 'c \<Rightarrow> 'r act" where [handler_defs]:
  "SCardListInterfacesW orig hContext szCard pguidInterfaces pcguidInterfaces =
     bindA (logA (''SCardListInterfacesW called'' @ [NL])) (\<lambda>_. call_original orig (hContext, szCard, pguidInterfaces, pcguidInterfaces))"

definition SCardGetProviderIdA ::
    "(handle \<times> 'a \<times> 'b \<Rightarrow> 'r) option \<Rightarrow> handle \<Rightarrow> 'a \<Rightarrow> 'b \<Rightarrow> 'r act" where [handler_defs]:
  "SCardGetProviderIdA orig hContext szCard pguidProviderId =
     bindA (logA (''SCardGetProviderIdA called'' @ [NL])) (\<lambda>_. call_original orig (hContext, szCard, pguidProviderId))"

definition SCardGetProviderIdW ::
    "(handle \<times> 'a \<times> 'b \<Rightarrow> 'r) option \<Rightarrow> handle \<Rightarrow> 'a \<Rightarrow> 'b \<Rightarrow> 'r act" where [handler_defs]:
  "SCardGetProviderIdW orig hContext szCard pguidProviderId =
     bindA (logA (''SCardGetProviderIdW called'' @ [NL])) (\<lambda>_. call_original orig (hContext, szCard, pguidProviderId))"

definition SCardGetCardTypeProviderNameA ::
    "(handle \<times> 'a \<times> dword \<times> 'b \<times> 'c \<Rightarrow> 'r) option \<Rightarrow> handle \<Rightarrow> 'a \<Rightarrow> dword \<Rightarrow> 'b \<Rightarrow> 'c \<Rightarrow> 'r act" where [handler_defs]:
  "SCardGetCardTypeProviderNameA orig hContext szCardName dwProviderId szProvider pcchProvider =
     bindA (logA (''SCardGetCardTypeProviderNameA called'' @ [NL])) (\<lambda>_. call_original orig (hContext, szCardName, dwProviderId, szProvider, pcchProvider))"

definition SCardGetCardTypeProviderNameW ::
    "(handle \<times> 'a \<times> dword \<times> 'b \<times> 'c \<Rightarrow> 'r) option \<Rightarrow> handle \<Rightarrow> 'a \<Rightarrow> dword \<Rightarrow> 'b \<Rightarrow> 'c \<Rightarrow> 'r act" where [handler_defs]:
  "SCardGetCardTypeProviderNameW orig hContext szCardName dwProviderId szProvider pcchProvider =
     bindA (logA (''SCardGetCardTypeProviderNameW called'' @ [NL])) (\<lambda>_. call_original orig (hContext, szCardName, dwProviderId, szProvider, pcchProvider))"

definition SCardIntroduceReaderGroupA ::
    "(handle \<times> 'a \<Rightarrow> 'r) option \<Rightarrow> handle \<Rightarrow> 'a \<Rightarrow> 'r act" where [handler_defs]:
  "SCardIntroduceReaderGroupA orig hContext szGroupName =
     bindA (logA (''SCardIntroduceReaderGroupA called'' @ [NL])) (\<lambda>_. call_original orig (hContext, szGroupName))"

definition SCardIntroduceReaderGroupW ::
    "(handle \<times> 'a \<Rightarrow> 'r) option \<Rightarrow> handle \<Rightarrow> 'a \<Rightarrow> 'r act" where [handler_defs]:
  "SCardIntroduceReaderGroupW orig hContext szGroupName =
     bindA (logA (''SCardIntroduceReaderGroupW called'' @ [NL])) (\<lambda>_. call_original orig (hContext, szGroupName))"

definition SCardForgetReaderGroupA ::
    "(handle \<times> 'a \<Rightarrow> 'r) option \<Rightarrow> handle \<Rightarrow> 'a \<Rightarrow> 'r act" where [handler_defs]:
  "SCardForgetReaderGroupA orig hContext szGroupName =
     bindA (logA (''SCardForgetReaderGroupA called'' @ [NL])) (\<lambda>_. call_original orig (hContext, szGroupName))"

definition SCardForgetReaderGroupW ::
    "(handle \<times> 'a \<Rightarrow> 'r) option \<Rightarrow> handle \<Rightarrow> 'a \<Rightarrow> 'r act" where [handler_defs]:
  "SCardForgetReaderGroupW orig hContext szGroupName =
     bindA (logA (''SCardForgetReaderGroupW called'' @ [NL])) (\<lambda>_. call_original orig (hContext, szGroupName))"

definition SCardIntroduceReaderA ::
    "(handle \<times> 'a \<times> 'b \<Rightarrow> 'r) option \<Rightarrow> handle \<Rightarrow> 'a \<Rightarrow> 'b \<Rightarrow> 'r act" where [handler_defs]:
  "SCardIntroduceReaderA orig hContext szReaderName szDeviceName =
     bindA (logA (''SCardIntroduceReaderA called'' @ [NL])) (\<lambda>_. call_original orig (hContext, szReaderName, szDeviceName))"

definition SCardIntroduceReaderW ::
    "(handle \<times> 'a \<times> 'b \<Rightarrow> 'r) option \<Rightarrow> handle \<Rightarrow> 'a \<Rightarrow> 'b \<Rightarrow> 'r act" where [handler_defs]:
  "SCardIntroduceReaderW orig hContext szReaderName szDeviceName =
     bindA (logA (''SCardIntroduceReaderW called'' @ [NL])) (\<lambda>_. call_original orig (hContext, szReaderName, szDeviceName))"

definition SCardForgetReaderA ::
    "(handle \<times> 'a \<Rightarrow> 'r) option \<Rightarrow> handle \<Rightarrow> 'a \<Rightarrow> 'r act" where [handler_defs]:
  "SCardForgetReaderA orig hContext szReaderName =
     bindA (logA (''SCardForgetReaderA called'' @ [NL])) (\<lambda>_. call_original orig (hContext, szReaderName))"

definition SCardForgetReaderW ::
    "(handle \<times> 'a \<Rightarrow> 'r) option \<Rightarrow> handle \<Rightarrow> 'a \<Rightarrow> 'r act" where [handler_defs]:
  "SCardForgetReaderW orig hContext szReaderName =
     bindA (logA (''SCardForgetReaderW called'' @ [NL])) (\<lambda>_. call_original orig (hContext, szReaderName))"

definition SCardAddReaderToGroupA ::
    "(handle \<times> 'a \<times> 'b \<Rightarrow> 'r) option \<Rightarrow> handle \<Rightarrow> 'a \<Rightarrow> 'b \<Rightarrow> 'r act" where [handler_defs]:
  "SCardAddReaderToGroupA orig hContext szReaderName szGroupName =
     bindA (logA (''SCardAddReaderToGroupA called'' @ [NL])) (\<lambda>_. call_original orig (hContext, szReaderName, szGroupName))"

definition SCardAddReaderToGroupW ::
    "(handle \<times> 'a \<times> 'b \<Rightarrow> 'r) option \<Rightarrow> handle \<Rightarrow> 'a \<Rightarrow> 'b \<Rightarrow> 'r act" where [handler_defs]:
  "SCardAddReaderToGroupW orig hContext szReaderName szGroupName =
     bindA (logA (''SCardAddReaderToGroupW called'' @ [NL])) (\<lambda>_. call_original orig (hContext, szReaderName, szGroupName))"

definition SCardRemoveReaderFromGroupA ::
    "(handle \<times> 'a \<times> 'b \<Rightarrow> 'r) option \<Rightarrow> handle \<Rightarrow> 'a \<Rightarrow> 'b \<Rightarrow> 'r act" where [handler_defs]:
  "SCardRemoveReaderFromGroupA orig hContext szReaderName szGroupName =
     bindA (logA (''SCardRemoveReaderFromGroupA called'' @ [NL])) (\<lambda>_. call_original orig (hContext, szReaderName, szGroupName))"

definition SCardRemoveReaderFromGroupW ::
    "(handle \<times> 'a \<times> 'b \<Rightarrow> 'r) option \<Rightarrow> handle \<Rightarrow> 'a \<Rightarrow> 'b \<Rightarrow> 'r act" where [handler_defs]:
  "SCardRemoveReaderFromGroupW orig hContext szReaderName szGroupName =
     bindA (logA (''SCardRemoveReaderFromGroupW called'' @ [NL])) (\<lambda>_. call_original orig (hContext, szReaderName, szGroupName))"

definition SCardIntroduceCardTypeA ::
    "(handle \<times> 'a \<times> 'b \<times> 'c \<times> dword \<times> 'd \<times> 'e \<times> dword \<Rightarrow> 'r) option \<Rightarrow> handle \<Rightarrow> 'a \<Rightarrow> 'b \<Rightarrow> 'c \<Rightarrow> dword \<Rightarrow> 'd \<Rightarrow> 'e \<Rightarrow> dword \<Rightarrow> 'r act" where [handler_defs]:
  "SCardIntroduceCardTypeA orig hContext szCardName pguidPrimaryProvider rgguidInterfaces dwInterfaceCount pbAtr pbAtrMask cbAtrLen =
     bindA (logA (''SCardIntroduceCardTypeA called'' @ [NL])) (\<lambda>_. call_original orig (hContext, szCardName, pguidPrimaryProvider, rgguidInterfaces, dwInterfaceCount, pbAtr, pbAtrMask, cbAtrLen))"

definition SCardIntroduceCardTypeW ::
    "(handle \<times> 'a \<times> 'b \<times> 'c \<times> dword \<times> 'd \<times> 'e \<times> dword \<Rightarrow> 'r) option \<Rightarrow> handle \<Rightarrow> 'a \<Rightarrow> 'b \<Rightarrow> 'c \<Rightarrow> dword \<Rightarrow> 'd \<Rightarrow> 'e \<Rightarrow> dword \<Rightarrow> 'r act" where [handler_defs]:
  "SCardIntroduceCardTypeW orig hContext szCardName pguidPrimaryProvider rgguidInterfaces dwInterfaceCount pbAtr pbAtrMask cbAtrLen =
     bindA (logA (''SCardIntroduceCardTypeW called'' @ [NL])) (\<lambda>_. call_original orig (hContext, szCardName, pguidPrimaryProvider, rgguidInterfaces, dwInterfaceCount, pbAtr, pbAtrMask, cbAtrLen))"

definition SCardSetCardTypeProviderNameA ::
    "(handle \<times> 'a \<times> dword \<times> 'b \<Rightarrow> 'r) option \<Rightarrow> handle \<Rightarrow> 'a \<Rightarrow> dword \<Rightarrow> 'b \<Rightarrow> 'r act" where [handler_defs]:
  "SCardSetCardTypeProviderNameA orig hContext szCardName dwProviderId szProvider =
     bindA (logA (''SCardSetCardTypeProviderNameA called'' @ [NL])) (\<lambda>_. call_original orig (hContext, szCardName, dwProviderId, szProvider))"

definition SCardSetCardTypeProviderNameW ::
    "(handle \<times> 'a \<times> dword \<times> 'b \<Rightarrow> 'r) option \<Rightarrow> handle \<Rightarrow> 'a \<Rightarrow> dword \<Rightarrow> 'b \<Rightarrow> 'r act" where [handler_defs]:
  "SCardSetCardTypeProviderNameW orig hContext szCardName dwProviderId szProvider =
     bindA (logA (''SCardSetCardTypeProviderNameW called'' @ [NL])) (\<lambda>_. call_original orig (hContext, szCardName, dwProviderId, szProvider))"

definition SCardForgetCardTypeA ::
    "(handle \<times> 'a \<Rightarrow> 'r) option \<Rightarrow> handle \<Rightarrow> 'a \<Rightarrow> 'r act" where [handler_defs]:
  "SCardForgetCardTypeA orig hContext szCardName =
     bindA (logA (''SCardForgetCardTypeA called'' @ [NL])) (\<lambda>_. call_original orig (hContext, szCardName))"

definition SCardForgetCardTypeW ::
    "(handle \<times> 'a \<Rightarrow> 'r) option \<Rightarrow> handle \<Rightarrow> 'a \<Rightarrow> 'r act" where [handler_defs]:
  "SCardForgetCardTypeW orig hContext szCardName =
     bindA (logA (''SCardForgetCardTypeW called'' @ [NL])) (\<lambda>_. call_original orig (hContext, szCardName))"

definition SCardLocateCardsA ::
    "(handle \<times> string \<times> 'a \<times> dword \<Rightarrow> 'r) option \<Rightarrow> handle \<Rightarrow> string \<Rightarrow> 'a \<Rightarrow> dword \<Rightarrow> 'r act" where [handler_defs]:
  "SCardLocateCardsA orig hContext mszCards rgReaderStates cReaders =
     bindA (logA (''SCardLocateCardsA('' @ c_str mszCards @ '',0x'' @ fmt_handle hContext @ '') called'' @ [NL])) (\<lambda>_. call_original orig (hContext, mszCards, rgReaderStates, cReaders))"

definition SCardLocateCardsW ::
    "(handle \<times> wchar list \<times> 'a \<times> dword \<Rightarrow> 'r) option \<Rightarrow> handle \<Rightarrow> wchar list \<Rightarrow> 'a \<Rightarrow> dword \<Rightarrow> 'r act" where [handler_defs]:
  "SCardLocateCardsW orig hContext mszCards rgReaderStates cReaders =
     bindA (logA (''SCardLocateCardsW('' @ fmt_S mszCards @ '',0x'' @ fmt_handle hContext @ '') called'' @ [NL])) (\<lambda>_. call_original orig (hContext, mszCards, rgReaderStates, cReaders))"

definition SCardLocateCardsByATRA ::
    "(handle \<times> 'a \<times> dword \<times> 'b \<times> dword \<Rightarrow> 'r) option \<Rightarrow> handle \<Rightarrow> 'a \<Rightarrow> dword \<Rightarrow> 'b \<Rightarrow> dword \<Rightarrow> 'r act" where [handler_defs]:
  "SCardLocateCardsByATRA orig hContext rgAtrMasks cAtrs rgReaderStates cReaders =
     bindA (logA (''SCardLocateCardsByATRA(hContext:0x'' @ fmt_handle hContext @ '') called'' @ [NL])) (\<lambda>_. call_original orig (hContext, rgAtrMasks, cAtrs, rgReaderStates, cReaders))"

definition SCardLocateCardsByATRW ::
    "(handle \<times> 'a \<times> dword \<times> 'b \<times> dword \<Rightarrow> 'r) option \<Rightarrow> handle \<Rightarrow> 'a \<Rightarrow> dword \<Rightarrow> 'b \<Rightarrow> dword \<Rightarrow> 'r act" where [handler_defs]:
  "SCardLocateCardsByATRW orig hContext rgAtrMasks cAtrs rgReaderStates cReaders =
     bindA (logA (''SCardLocateCardsByATRW(hContext:0x'' @ fmt_handle hContext @ '') called'' @ [NL])) (\<lambda>_. call_original orig (hContext, rgAtrMasks, cAtrs, rgReaderStates, cReaders))"

definition SCardUIDlgSelectCardA ::
    "('a \<Rightarrow> 'r) option \<Rightarrow> 'a \<Rightarrow> 'r act" where [handler_defs]:
  "SCardUIDlgSelectCardA orig a =
     bindA (logA (''SCardUIDlgSelectCardA called'' @ [NL])) (\<lambda>_. call_original orig a)"

definition SCardUIDlgSelectCardW ::
    "('a \<Rightarrow> 'r) option \<Rightarrow> 'a \<Rightarrow> 'r act" where [handler_defs]:
  "SCardUIDlgSelectCardW orig a =
     bindA (logA (''SCardUIDlgSelectCardW called'' @ [NL])) (\<lambda>_. call_original orig a)"

definition GetOpenCardNameA ::
    "('a \<Rightarrow> 'r) option \<Rightarrow> 'a \<Rightarrow> 'r act" where [handler_defs]:
  "GetOpenCardNameA orig a =
     bindA (logA (''GetOpenCardNameA called'' @ [NL])) (\<lambda>_. call_original orig a)"

definition GetOpenCardNameW ::
    "('a \<Rightarrow> 'r) option \<Rightarrow> 'a \<Rightarrow> 'r act" where [handler_defs]:
  "GetOpenCardNameW orig a =
     bindA (logA (''GetOpenCardNameW called'' @ [NL])) (\<lambda>_. call_original orig a)"

definition SCardDlgExtendedError ::
    "(unit \<Rightarrow> 'r) option \<Rightarrow> 'r act" where [handler_defs]:
  "SCardDlgExtendedError orig =
     bindA (logA (''SCardDlgExtendedError called'' @ [NL])) (\<lambda>_. call_original orig ())"

definition SCardAccessStartedEvent ::
    "(unit \<Rightarrow> 'r) option \<Rightarrow> 'r act" where [handler_defs]:
  "SCardAccessStartedEvent orig =
     bindA (logA (''SCardAccessStartedEvent called'' @ [NL])) (\<lambda>_. call_original orig ())"

definition SCardReleaseStartedEvent ::
    "(unit \<Rightarrow> 'r) option \<Rightarrow> 'r act" where [handler_defs]:
  "SCardReleaseStartedEvent orig =
     bindA (logA (''SCardReleaseStartedEvent called'' @ [NL])) (\<lambda>_. call_original orig ())"

definition SCardIsValidContext ::
    "(handle \<Rightarrow> 'r) option \<Rightarrow> handle \<Rightarrow> 'r act" where [handler_defs]:
  "SCardIsValidContext orig hContext =
     bindA (logA (''SCardIsValidContext(hContext:0x'' @ fmt_handle hContext @ '') called'' @ [NL])) (\<lambda>_. call_original orig hContext)"

definition SCardCancel ::
    "(handle \<Rightarrow> 'r) option \<Rightarrow> handle \<Rightarrow> 'r act" where [handler_defs]:
  "SCardCancel orig hContext =
     bindA (logA (''SCardCancel called'' @ [NL])) (\<lambda>_. call_original orig hContext)"

subsection \<open>Entry points that do nothing for remote cards\<close>

text \<open>
  The assignments to output parameters that follow the \<open>return\<close> of the remote branch in
  \<open>SCardReconnect\<close>, \<open>SCardState\<close> and \<open>SCardStatusW\<close> are unreachable: the outputs come back as
  they were passed.
\<close>

definition SCardBeginTransaction ::
    "(handle \<Rightarrow> status) option \<Rightarrow> handle \<Rightarrow> status act" where [handler_defs]:
  "SCardBeginTransaction orig hCard =
     bindA (logA (''SCardBeginTransaction called'' @ [NL])) (\<lambda>_. local_only hCard SCARD_S_SUCCESS orig hCard)"

definition SCardEndTransaction ::
    "(handle \<times> dword \<Rightarrow> status) option \<Rightarrow> handle \<Rightarrow> dword \<Rightarrow> status act" where [handler_defs]:
  "SCardEndTransaction orig hCard dwDisposition =
     bindA (logA (''SCardEndTransaction called'' @ [NL])) (\<lambda>_. local_only hCard SCARD_S_SUCCESS orig (hCard, dwDisposition))"

definition SCardDisconnect ::
    "(handle \<times> dword \<Rightarrow> status) option \<Rightarrow> handle \<Rightarrow> dword \<Rightarrow> status act" where [handler_defs]:
  "SCardDisconnect orig hCard dwDisposition =
     bindA (logA (''SCardDisconnect called'' @ [NL])) (\<lambda>_. local_only hCard SCARD_S_SUCCESS orig (hCard, dwDisposition))"

definition SCardCancelTransaction ::
    "(handle \<Rightarrow> status) option \<Rightarrow> handle \<Rightarrow> status act" where [handler_defs]:
  "SCardCancelTransaction orig hCard =
     bindA (logA (''SCardCancelTransaction called'' @ [NL])) (\<lambda>_. local_only hCard SCARD_S_SUCCESS orig hCard)"

definition SCardSetAttrib ::
    "(handle \<times> dword \<times> 'a \<times> dword \<Rightarrow> status) option \<Rightarrow> handle \<Rightarrow> dword \<Rightarrow> 'a \<Rightarrow> dword \<Rightarrow> status act" where [handler_defs]:
  "SCardSetAttrib orig hCard dwAttrId pbAttr cbAttrLen =
     bindA (logA (''SCardSetAttrib called'' @ [NL])) (\<lambda>_. local_only hCard SCARD_S_SUCCESS orig (hCard, dwAttrId, pbAttr, cbAttrLen))"

definition SCardReconnect ::
    "(handle \<times> dword \<times> dword \<times> dword \<times> dword \<Rightarrow> status \<times> dword) option \<Rightarrow> handle \<Rightarrow> dword \<Rightarrow> dword \<Rightarrow> dword \<Rightarrow> dword \<Rightarrow> (status \<times> dword) act" where [handler_defs]:
  "SCardReconnect orig hCard dwShareMode dwPreferredProtocols dwInitialization pdwActiveProtocol =
     bindA (logA (''SCardReconnect(hCard:0x'' @ fmt_handle hCard @ '') called'' @ [NL])) (\<lambda>_. local_only hCard (SCARD_S_SUCCESS, pdwActiveProtocol) orig (hCard, dwShareMode, dwPreferredProtocols, dwInitialization, pdwActiveProtocol))"

definition SCardControl ::
    "(handle \<times> dword \<times> 'a \<times> dword \<times> 'b \<times> dword \<times> 'c \<Rightarrow> status \<times> 'b \<times> 'c) option \<Rightarrow> handle \<Rightarrow> dword \<Rightarrow> 'a \<Rightarrow> dword \<Rightarrow> 'b \<Rightarrow> dword \<Rightarrow> 'c \<Rightarrow> (status \<times> 'b \<times> 'c) act" where [handler_defs]:
  "SCardControl orig hCard dwControlCode lpInBuffer nInBufferSize lpOutBuffer nOutBufferSize lpBytesReturned =
     bindA (logA (''SCardControl called'' @ [NL])) (\<lambda>_. local_only hCard (SCARD_S_SUCCESS, lpOutBuffer, lpBytesReturned) orig (hCard, dwControlCode, lpInBuffer, nInBufferSize, lpOutBuffer, nOutBufferSize, lpBytesReturned))"

definition SCardGetAttrib ::
    "(handle \<times> dword \<times> 'a \<times> 'b \<Rightarrow> status \<times> 'a \<times> 'b) option \<Rightarrow> handle \<Rightarrow> dword \<Rightarrow> 'a \<Rightarrow> 'b \<Rightarrow> (status \<times> 'a \<times> 'b) act" where [handler_defs]:
  "SCardGetAttrib orig hCard dwAttrId pbAttr pcbAttrLen =
     bindA (logA (''SCardGetAttrib called'' @ [NL])) (\<lambda>_. local_only hCard (SCARD_S_SUCCESS, pbAttr, pcbAttrLen) orig (hCard, dwAttrId, pbAttr, pcbAttrLen))"

definition SCardState ::
    "(handle \<times> dword \<times> dword \<times> 'a \<times> 'b \<Rightarrow> status \<times> dword \<times> dword \<times> 'a \<times> 'b) option \<Rightarrow> handle \<Rightarrow> dword \<Rightarrow> dword \<Rightarrow> 'a \<Rightarrow> 'b \<Rightarrow> (status \<times> dword \<times> dword \<times> 'a \<times> 'b) act" where [handler_defs]:
  "SCardState orig hCard pdwState pdwProtocol pbAtr pcbAtrLen =
     bindA (logA (''SCardState(hCard:0x'' @ fmt_handle hCard @ '') called'' @ [NL])) (\<lambda>_. local_only hCard (SCARD_S_SUCCESS, pdwState, pdwProtocol, pbAtr, pcbAtrLen) orig (hCard, pdwState, pdwProtocol, pbAtr, pcbAtrLen))"

definition SCardStatusW ::
    "(handle \<times> 'a \<times> 'b \<times> dword \<times> dword \<times> 'c \<times> 'd \<Rightarrow> status \<times> 'a \<times> 'b \<times> dword \<times> dword \<times> 'c \<times> 'd) option \<Rightarrow> handle \<Rightarrow> 'a \<Rightarrow> 'b \<Rightarrow> dword \<Rightarrow> dword \<Rightarrow> 'c \<Rightarrow> 'd \<Rightarrow> (status \<times> 'a \<times> 'b \<times> dword \<times> dword \<times> 'c \<times> 'd) act" where [handler_defs]:
  "SCardStatusW orig hCard szReaderName pcchReaderLen pdwState pdwProtocol pbAtr pcbAtrLen =
     bindA (logA (''SCardStatusW(hCard:0x'' @ fmt_handle hCard @ '') called'' @ [NL])) (\<lambda>_. local_only hCard (SCARD_S_SUCCESS, szReaderName, pcchReaderLen, pdwState, pdwProtocol, pbAtr, pcbAtrLen) orig (hCard, szReaderName, pcchReaderLen, pdwState, pdwProtocol, pbAtr, pcbAtrLen))"

subsection \<open>Transparency\<close>

text \<open>The second state differs from the first only by more log text and a later clock.\<close>

definition log_only :: "app \<Rightarrow> app \<Rightarrow> bool" where
  "log_only s t \<longleftrightarrow> t\<lparr>w_out := w_out s, w_clock := w_clock s\<rparr> = s \<and> prefix (w_out s) (w_out t)"

definition transparent :: "(('a \<Rightarrow> 'r) option \<Rightarrow> 'r act) \<Rightarrow> 'a \<Rightarrow> bool" where
  "transparent h args \<longleftrightarrow>
     (\<forall>s. fst (h None s) = Inl Null_Deref) \<and>
     (\<forall>f s. \<exists>t. h (Some f) s = (Inr (f args), t) \<and> log_only s t)"

lemma log_only_LogWinscardRules [simp]: "log_only s (LogWinscardRules m s)"
  using LogWinscardRules_extends[of s m]
  by (simp add: log_only_def log_extends_def)

lemma forwarder_transparent: "transparent (\<lambda>orig. bindA (logA m) (\<lambda>_. call_original orig args)) args"
  by (simp add: transparent_def bindA_unfold call_original_def)

text \<open>What an entry point with a remote branch does on either side.\<close>

definition remote_guarded :: "handle \<Rightarrow> (('a \<Rightarrow> 'r) option \<Rightarrow> 'r act) \<Rightarrow> 'r \<Rightarrow> 'a \<Rightarrow> bool" where
  "remote_guarded hCard h remote args \<longleftrightarrow>
     (\<forall>orig s. IsRemoteCard hCard s \<longrightarrow> (\<exists>t. h orig s = (Inr remote, t) \<and> log_only s t)) \<and>
     (\<forall>f s. \<not> IsRemoteCard hCard s \<longrightarrow> (\<exists>t. h (Some f) s = (Inr (f args), t) \<and> log_only s t))"

lemma guard_remote_guarded:
  "remote_guarded hCard (\<lambda>orig. bindA (logA m) (\<lambda>_. local_only hCard remote orig args)) remote args"
  by (simp add: remote_guarded_def bindA_unfold local_only_def call_original_def)

subsection \<open>Properties\<close>


text \<open>
  C22: Remote cards never reach the original library. For a handle of a remote card the ten guarded
  entry points answer with success, leave all output parameters as passed and do not call the
  original; for every other handle they return what the original returns. In both cases only the
  log and the clock change.
\<close>

theorem remote_cards_not_forwarded:
  "remote_guarded h1 (\<lambda>orig. SCardBeginTransaction orig h1) SCARD_S_SUCCESS h1 \<and>
   remote_guarded h2 (\<lambda>orig. SCardEndTransaction orig h2 a2) SCARD_S_SUCCESS (h2, a2) \<and>
   remote_guarded h3 (\<lambda>orig. SCardDisconnect orig h3 a3) SCARD_S_SUCCESS (h3, a3) \<and>
   remote_guarded h4 (\<lambda>orig. SCardCancelTransaction orig h4) SCARD_S_SUCCESS h4 \<and>
   remote_guarded h5 (\<lambda>orig. SCardSetAttrib orig h5 a5 b5 c5) SCARD_S_SUCCESS (h5, a5, b5, c5) \<and>
   remote_guarded h6 (\<lambda>orig. SCardReconnect orig h6 a6 b6 c6 d6) (SCARD_S_SUCCESS, d6) (h6, a6, b6, c6, d6) \<and>
   remote_guarded h7 (\<lambda>orig. SCardControl orig h7 a7 b7 c7 d7 e7 f7) (SCARD_S_SUCCESS, d7, f7) (h7, a7, b7, c7, d7, e7, f7) \<and>
   remote_guarded h8 (\<lambda>orig. SCardGetAttrib orig h8 a8 b8 c8) (SCARD_S_SUCCESS, b8, c8) (h8, a8, b8, c8) \<and>
   remote_guarded h9 (\<lambda>orig. SCardState orig h9 a9 b9 c9 d9) (SCARD_S_SUCCESS, a9, b9, c9, d9) (h9, a9, b9, c9, d9) \<and>
   remote_guarded h10 (\<lambda>orig. SCardStatusW orig h10 a10 b10 c10 d10 e10 f10) (SCARD_S_SUCCESS, a10, b10, c10, d10, e10, f10) (h10, a10, b10, c10, d10, e10, f10)"
  unfolding handler_defs by (intro conjI guard_remote_guarded)

end
