(* ===== verification/Card_Handles.thy ===== *)
theory Card_Handles
  imports Forwarders
begin

text \<open>
  The entry points that manage contexts, card handles, reader states and memory
  (\<open>Winscard.cpp\<close>): establishing and releasing a context, connecting to a local or remote card,
  status queries, \<open>SCardFreeMemory\<close> and the destructor. The handle maps decide which later calls
  go to the remote proxy, and to which of its readers.
\<close>

subsection \<open>Contexts\<close>

definition SCardEstablishContext ::
    "(dword \<times> 'a \<times> 'b \<times> handle \<Rightarrow> status \<times> handle) option \<Rightarrow> dword \<Rightarrow> 'a \<Rightarrow> 'b \<Rightarrow> handle \<Rightarrow> (status \<times> handle) act" where
  "SCardEstablishContext orig dwScope pvReserved1 pvReserved2 phContext =
     bindA (logA (''SCardEstablishContext() called'' @ [NL])) (\<lambda>_.
     bindA (modA Remote_SCardReleaseContext) (\<lambda>_.
     bindA (call_original orig (dwScope, pvReserved1, pvReserved2, phContext)) (\<lambda>(status, hContext).
     bindA (logA (''-> hContext:0x'' @ fmt_handle hContext @ [NL])) (\<lambda>_.
     returnA (status, hContext)))))"

definition SCardReleaseContext :: "(handle \<Rightarrow> status) option \<Rightarrow> handle \<Rightarrow> status act" where
  "SCardReleaseContext orig hContext =
     bindA (logA (''SCardReleaseContext(hContext:0x'' @ fmt_handle hContext @ '') called'' @ [NL])) (\<lambda>_.
     bindA (modA Remote_SCardReleaseContext) (\<lambda>_.
     call_original orig hContext))"

subsection \<open>Connecting\<close>

abbreviation SCARD_SHARE_SHARED :: dword where "SCARD_SHARE_SHARED \<equiv> 2"
abbreviation SCARD_PROTOCOL_T0 :: dword where "SCARD_PROTOCOL_T0 \<equiv> 1"
abbreviation SCARD_PROTOCOL_T1 :: dword where "SCARD_PROTOCOL_T1 \<equiv> 2"
abbreviation SCARD_SPECIFIC :: dword where "SCARD_SPECIFIC \<equiv> 6"
abbreviation HANDLE_VIRTUAL_CARD :: handle where "HANDLE_VIRTUAL_CARD \<equiv> 1"

type_synonym connect_fn = "handle \<times> string \<times> dword \<times> dword \<times> handle \<times> dword \<Rightarrow> status \<times> handle \<times> dword"

text \<open>
  A remote card gets the next identifier as its handle and is entered into both maps before the
  proxy is asked for its ATR. The active protocol is not set. The last entry is made for remote
  and local cards, whatever the status.
\<close>

definition SCardConnectA ::
    "connect_fn option \<Rightarrow> handle \<Rightarrow> string \<Rightarrow> dword \<Rightarrow> dword \<Rightarrow> handle \<Rightarrow> dword \<Rightarrow> (status \<times> handle \<times> dword) act" where
  "SCardConnectA orig hContext szReader dwShareMode dwPreferredProtocols phCard pdwActiveProtocol =
     bindA (logA (''SCardConnect called'' @ [NL])) (\<lambda>_.
     bindA (getA (\<lambda>s. if bFORCE_CONNECT_SHARED_MODE (m_winscardConfig s) then SCARD_SHARE_SHARED else dwShareMode)) (\<lambda>share.
     bindA (getA (IsRemoteReader szReader)) (\<lambda>isRemote.
     bindA
       (if isRemote then
          bindA (modA (\<lambda>s. s\<lparr>m_nextRemoteCardID := m_nextRemoteCardID s + 1\<rparr>)) (\<lambda>_.
          bindA (getA (\<lambda>s. ucast (m_nextRemoteCardID s))) (\<lambda>hCard.
          bindA (modA (\<lambda>s. s\<lparr>remoteReadersMap := (remoteReadersMap s)(hCard \<mapsto> szReader)\<rparr>)) (\<lambda>_.
          bindA (Remote_SCardConnect szReader []) (\<lambda>(status, atr).
          bindA (modA (\<lambda>s. s\<lparr>remoteCardsATRMap := (remoteCardsATRMap s)(szReader \<mapsto> atr)\<rparr>)) (\<lambda>_.
          returnA (status, hCard, pdwActiveProtocol))))))
        else
          bindA (call_original orig (hContext, szReader, share, dwPreferredProtocols, phCard, pdwActiveProtocol))
            (\<lambda>(status, hCard, proto).
          bindA (logA (''SCardConnect(hContext:0x'' @ fmt_handle hContext @ '','' @ c_str szReader @ '',hCard:0x'' @
                       fmt_handle hCard @ '') called'' @ [NL])) (\<lambda>_.
          returnA (status, hCard, proto))))
       (\<lambda>(status, hCard, proto).
     bindA (modA (\<lambda>s. s\<lparr>cardReaderMap := (cardReaderMap s)(hCard \<mapsto> szReader)\<rparr>)) (\<lambda>_.
     returnA (status, hCard, proto))))))"

text \<open>One command of the older measurement protocol and the log line of its answer.\<close>

definition measure_command :: "sockid \<Rightarrow> string \<Rightarrow> string \<Rightarrow> (string \<Rightarrow> string) \<Rightarrow> unit act" where
  "measure_command p cmd pre post =
     bindA (SendLine p cmd) (\<lambda>_.
     bindA (ReceiveResponse p REMOTE_SOCKET_ENDSEQ REMOTE_SOCKET_TIMEOUT) (\<lambda>l.
     logA (post (pre @ c_str l))))"

definition fmt_int :: "int \<Rightarrow> string" where
  "fmt_int v = (if v < 0 then CHR ''-'' # fmt_u (nat (- v)) else fmt_u (nat v))"

text \<open>
  \<open>SCardConnectW\<close> redirects every connection while a socket is open, with the fixed handle 1, and
  enters nothing into the maps.
\<close>

definition SCardConnectW ::
    "(handle \<times> wchar list \<times> dword \<times> dword \<times> handle \<times> dword \<Rightarrow> status \<times> handle \<times> dword) option \<Rightarrow>
     handle \<Rightarrow> wchar list \<Rightarrow> dword \<Rightarrow> dword \<Rightarrow> handle \<Rightarrow> dword \<Rightarrow> (status \<times> handle \<times> dword) act" where
  "SCardConnectW orig hContext szReader dwShareMode dwPreferredProtocols phCard pdwActiveProtocol =
     bindA (logA (''SCardConnectW(hContext:0x'' @ fmt_handle hContext @ '', '' @ fmt_S szReader @ '') called'' @ [NL])) (\<lambda>_.
     bindA (modA (\<lambda>s. s\<lparr>m_processedApduByteCounter := 0\<rparr>)) (\<lambda>_.
     bindA (getA m_remoteConfig) (\<lambda>c.
     bindA
       (case (if bRedirect c then pSocket c else None) of
          Some p \<Rightarrow>
            bindA (measure_command p ''get reset 1000'' (NL # '':: '') (replace_char NL (CHR '' ''))) (\<lambda>_.
            bindA (measure_command p (''get params 1 '' @ fmt_int (measureApduByteCounter c) @ '' '' @
                                      fmt_int (measureApduByteDelay c)) '':: '' (\<lambda>m. m)) (\<lambda>_.
            bindA (measure_command p (''post sampling '' @ fmt_d (numSamples c)) '':: '' (\<lambda>m. m)) (\<lambda>_.
            bindA (modA (upd_remote (\<lambda>c. c\<lparr>sampleReaded := False\<rparr>))) (\<lambda>_.
            returnA (SCARD_S_SUCCESS, HANDLE_VIRTUAL_CARD, SCARD_PROTOCOL_T0)))))
        | None \<Rightarrow>
            call_original orig (hContext, szReader, dwShareMode, dwPreferredProtocols, phCard, pdwActiveProtocol))
       (\<lambda>(status, hCard, proto).
     bindA (logA (''-> hCard:0x'' @ fmt_handle hCard @ [NL])) (\<lambda>_.
     returnA (status, hCard, proto))))))"

subsection \<open>Status\<close>

text \<open>
  \<open>SCardStatusA\<close>: the two length pointers are dereferenced for the log (\<open>None\<close> is a null pointer).
  For a remote card only state and protocol are set. \<open>o\<close> are the outputs name and ATR.
\<close>

definition SCardStatusA ::
    "(handle \<times> 'o \<times> dword option \<times> dword \<times> dword \<times> dword option \<Rightarrow>
        status \<times> 'o \<times> dword option \<times> dword \<times> dword \<times> dword option) option \<Rightarrow>
     handle \<Rightarrow> 'o \<Rightarrow> dword option \<Rightarrow> dword \<Rightarrow> dword \<Rightarrow> dword option \<Rightarrow>
     (status \<times> 'o \<times> dword option \<times> dword \<times> dword \<times> dword option) act" where
  "SCardStatusA orig hCard name_atr pcchReaderLen pdwState pdwProtocol pcbAtrLen =
     bindA (liftA (guardE (pcchReaderLen \<noteq> None \<and> pcbAtrLen \<noteq> None) Null_Deref)) (\<lambda>_.
     bindA (logA (''SCardStatus(hCard:0x'' @ fmt_handle hCard @ '',pcchReaderLen:'' @ fmt_d (the pcchReaderLen) @
                  '',pcbAtrLen:'' @ fmt_d (the pcbAtrLen) @ '') called'' @ [NL])) (\<lambda>_.
     local_only hCard (SCARD_S_SUCCESS, name_atr, pcchReaderLen, SCARD_SPECIFIC, SCARD_PROTOCOL_T1, pcbAtrLen) orig
       (hCard, name_atr, pcchReaderLen, pdwState, pdwProtocol, pcbAtrLen)))"

record 'n SCARD_READERSTATE =
  rs_szReader :: 'n
  rs_dwEventState :: dword
  rs_cbAtr :: dword
  rs_rgbAtr :: "byte list"

text \<open>
  What both variants of \<open>SCardGetStatusChange\<close> do with the first reader state when it names a
  remote reader: a constant event state, and the ATR recorded for the reader, if any. The status of
  the conversion is ignored.
\<close>

definition remote_reader_state ::
    "string \<Rightarrow> (string \<rightharpoonup> string) \<Rightarrow> 'n SCARD_READERSTATE \<Rightarrow> 'n SCARD_READERSTATE res" where
  "remote_reader_state name atrs st =
     (let st1 = st\<lparr>rs_dwEventState := 0x00010422\<rparr>
      in case atrs name of
           None \<Rightarrow> Inr (st1\<lparr>rs_cbAtr := 0\<rparr>)
         | Some atr \<Rightarrow>
             bindE (BYTE_ConvertFromHexStringToArray atr (rs_rgbAtr st1) 0x24) (\<lambda>(_, buf, n).
             Inr (st1\<lparr>rs_rgbAtr := buf, rs_cbAtr := of_nat n\<rparr>)))"

text \<open>The reader states from the caller's pointer on; only the first is looked at.\<close>

definition status_change ::
    "('p \<times> 'n SCARD_READERSTATE list \<times> dword \<Rightarrow> status \<times> 'n SCARD_READERSTATE list) option \<Rightarrow>
     'p \<Rightarrow> string \<Rightarrow> 'n SCARD_READERSTATE list \<Rightarrow> dword \<Rightarrow> (status \<times> 'n SCARD_READERSTATE list) act" where
  "status_change orig ctx name states cReaders =
     bindA (logA (''-> rgReaderStates.szReader: '' @ c_str name @ [NL])) (\<lambda>_.
     bindA (getA (IsRemoteReader name)) (\<lambda>isRemote.
     bindA
       (if isRemote then
          bindA (getA remoteCardsATRMap) (\<lambda>atrs.
          bindA (liftA (remote_reader_state name atrs (hd states))) (\<lambda>st.
          returnA (SCARD_S_SUCCESS, st # tl states)))
        else call_original orig (ctx, states, cReaders))
       (\<lambda>(status, states1).
     bindA (logA (''-> return status: 0x'' @ fmt_x (unat status) @ [NL])) (\<lambda>_.
     returnA (status, states1)))))"

definition SCardGetStatusChangeA ::
    "((handle \<times> dword) \<times> string SCARD_READERSTATE list \<times> dword \<Rightarrow> status \<times> string SCARD_READERSTATE list) option \<Rightarrow>
     handle \<Rightarrow> dword \<Rightarrow> string SCARD_READERSTATE list \<Rightarrow> dword \<Rightarrow> (status \<times> string SCARD_READERSTATE list) act" where
  "SCardGetStatusChangeA orig hContext dwTimeout rgReaderStates cReaders =
     bindA (logA (''SCardGetStatusChangeA called'' @ [NL])) (\<lambda>_.
     bindA (liftA (guardE (rgReaderStates \<noteq> []) Out_Of_Bounds)) (\<lambda>_.
     status_change orig (hContext, dwTimeout) (rs_szReader (hd rgReaderStates)) rgReaderStates cReaders))"

abbreviation SCARD_F_INTERNAL_ERROR :: status where "SCARD_F_INTERNAL_ERROR \<equiv> 0x80100001"

text \<open>
  The wide variant narrows the name into \<open>readerNameA[1000]\<close>; a name of exactly 1000 characters
  passes the test and leaves the array without its terminating zero.
\<close>

definition SCardGetStatusChangeW ::
    "((handle \<times> dword) \<times> wchar list SCARD_READERSTATE list \<times> dword \<Rightarrow> status \<times> wchar list SCARD_READERSTATE list) option \<Rightarrow>
     handle \<Rightarrow> dword \<Rightarrow> wchar list SCARD_READERSTATE list \<Rightarrow> dword \<Rightarrow> (status \<times> wchar list SCARD_READERSTATE list) act" where
  "SCardGetStatusChangeW orig hContext dwTimeout rgReaderStates cReaders =
     bindA (logA (''SCardGetStatusChangeW called'' @ [NL])) (\<lambda>_.
     bindA (liftA (guardE (rgReaderStates \<noteq> []) Out_Of_Bounds)) (\<lambda>_.
     let name = rs_szReader (hd rgReaderStates)
     in if 1000 < length name then returnA (SCARD_F_INTERNAL_ERROR, rgReaderStates)
        else bindA (liftA (guardE (length name < 1000) Out_Of_Bounds)) (\<lambda>_.
          status_change orig (hContext, dwTimeout) (map (\<lambda>w. char_of_byte (ucast w)) name) rgReaderStates cReaders)))"

subsection \<open>Memory\<close>

text \<open>
  \<open>delete[]\<close> of an address, which must not have been freed since it was handed out. Both lists
  are searched, whether or not the first search succeeded.
\<close>

definition free_from :: "(app \<Rightarrow> addr list) \<Rightarrow> ((addr list \<Rightarrow> addr list) \<Rightarrow> app \<Rightarrow> app) \<Rightarrow> addr \<Rightarrow> bool act" where
  "free_from lst upd pvMem s =
     (if pvMem \<noteq> 0 \<and> pvMem \<in> set (lst s) then
        (if pvMem \<in> set (w_freed s) then (Inl Double_Free, s)
         else (Inr True, upd (remove1 pvMem) (s\<lparr>w_freed := pvMem # w_freed s\<rparr>)))
      else (Inr False, s))"

definition SCardFreeMemory :: "(handle \<times> addr \<Rightarrow> status) option \<Rightarrow> handle \<Rightarrow> addr \<Rightarrow> status act" where
  "SCardFreeMemory orig hContext pvMem =
     bindA (logA (''SCardFreeMemory(hContext:0x'' @ fmt_handle hContext @ '') called'' @ [NL])) (\<lambda>_.
     bindA (free_from m_charAllocatedMemoryList (\<lambda>f s. s\<lparr>m_charAllocatedMemoryList := f (m_charAllocatedMemoryList s)\<rparr>) pvMem) (\<lambda>b1.
     bindA (free_from m_wcharAllocatedMemoryList (\<lambda>f s. s\<lparr>m_wcharAllocatedMemoryList := f (m_wcharAllocatedMemoryList s)\<rparr>) pvMem) (\<lambda>b2.
     if \<not> (b1 \<or> b2) then call_original orig (hContext, pvMem) else returnA SCARD_S_SUCCESS)))"

text \<open>The destructor: the instruction dictionary goes, the socket and all memory still allocated.\<close>

definition delete_all :: "addr list \<Rightarrow> unit act" where
  "delete_all ps = forA (\<lambda>p s. if p = 0 then (Inr (), s)
      else if p \<in> set (w_freed s) then (Inl Double_Free, s) else (Inr (), s\<lparr>w_freed := p # w_freed s\<rparr>)) ps"

definition CWinscardApp_destroy :: "unit act" where
  "CWinscardApp_destroy =
     bindA (modA (\<lambda>s. s\<lparr>instructionDict := None\<rparr>)) (\<lambda>_.
     bindA (getA (\<lambda>s. pSocket (m_remoteConfig s))) (\<lambda>sock.
     bindA (case sock of None \<Rightarrow> returnA () | Some p \<Rightarrow> delete_Socket p) (\<lambda>_.
     bindA (getA m_charAllocatedMemoryList) (\<lambda>cs.
     bindA (delete_all cs) (\<lambda>_.
     bindA (modA (\<lambda>s. s\<lparr>m_charAllocatedMemoryList := []\<rparr>)) (\<lambda>_.
     bindA (getA m_wcharAllocatedMemoryList) (\<lambda>ws.
     bindA (delete_all ws) (\<lambda>_.
     modA (\<lambda>s. s\<lparr>m_wcharAllocatedMemoryList := []\<rparr>)))))))))"

subsection \<open>The reader maps\<close>

text \<open>Every remote handle names its reader in both maps.\<close>

definition maps_agree :: "app \<Rightarrow> bool" where
  "maps_agree s \<longleftrightarrow> (\<forall>h r. remoteReadersMap s h = Some r \<longrightarrow> cardReaderMap s h = Some r)"

text \<open>The state in which the proxy is asked for the ATR of a new remote card.\<close>

definition registered :: "string \<Rightarrow> app \<Rightarrow> app" where
  "registered szReader s =
     (let s1 = LogWinscardRules (''SCardConnect called'' @ [NL]) s;
          s2 = s1\<lparr>m_nextRemoteCardID := m_nextRemoteCardID s1 + 1\<rparr>
      in s2\<lparr>remoteReadersMap := (remoteReadersMap s2)(ucast (m_nextRemoteCardID s2) \<mapsto> szReader)\<rparr>)"

lemma connect_remote_eq:
  assumes "IsRemoteReader szReader s"
    and "Remote_SCardConnect szReader [] (registered szReader s) = (Inr (st, atr), u)"
  shows "SCardConnectA orig hContext szReader mode prots h0 p0 s =
    (Inr (st, ucast (m_nextRemoteCardID s + 1), p0),
     u\<lparr>remoteCardsATRMap := (remoteCardsATRMap u)(szReader \<mapsto> atr),
       cardReaderMap := (cardReaderMap u)(ucast (m_nextRemoteCardID s + 1) \<mapsto> szReader)\<rparr>)"
  using assms by (simp add: SCardConnectA_def bindA_def registered_def Let_def)

lemma registered_core:
  assumes "Remote_SCardConnect szReader [] (registered szReader s) = (r, u)"
  shows "cardReaderMap u = cardReaderMap s"
    "remoteReadersMap u = (remoteReadersMap s)(ucast (m_nextRemoteCardID s + 1) \<mapsto> szReader)"
    "m_nextRemoteCardID u = m_nextRemoteCardID s + 1"
    "remoteCardsATRMap u = remoteCardsATRMap s"
proof -
  have "core u = core (registered szReader s)"
    using keeps_coreD[OF keeps_core_connect, of szReader "[]" "registered szReader s"] assms by simp
  note c = core_eqD[OF this]
  show "cardReaderMap u = cardReaderMap s" using c(5) by (simp add: registered_def Let_def)
  show "remoteReadersMap u = (remoteReadersMap s)(ucast (m_nextRemoteCardID s + 1) \<mapsto> szReader)"
    using c(6) by (simp add: registered_def Let_def)
  show "m_nextRemoteCardID u = m_nextRemoteCardID s + 1" using c(8) by (simp add: registered_def Let_def)
  show "remoteCardsATRMap u = remoteCardsATRMap s" using c(7) by (simp add: registered_def Let_def)
qed

text \<open>A call returns: the original is there and the ATR request does not fault.\<close>

lemma connect_result_cases:
  assumes "SCardConnectA orig hContext szReader mode prots h0 p0 s = (Inr (st, h, p), t)"
  shows "(IsRemoteReader szReader s \<and> h = ucast (m_nextRemoteCardID s + 1) \<and> p = p0 \<and>
      cardReaderMap t = (cardReaderMap s)(h \<mapsto> szReader) \<and>
      remoteReadersMap t = (remoteReadersMap s)(h \<mapsto> szReader) \<and>
      m_nextRemoteCardID t = m_nextRemoteCardID s + 1) \<or>
    (\<not> IsRemoteReader szReader s \<and>
      (\<exists>f share. orig = Some f \<and> f (hContext, szReader, share, prots, h0, p0) = (st, h, p)) \<and>
      cardReaderMap t = (cardReaderMap s)(h \<mapsto> szReader) \<and>
      remoteReadersMap t = remoteReadersMap s \<and> m_nextRemoteCardID t = m_nextRemoteCardID s)"
proof (cases "IsRemoteReader szReader s")
  case True
  obtain r u where c: "Remote_SCardConnect szReader [] (registered szReader s) = (r, u)" by fastforce
  show ?thesis
  proof (cases r)
    case (Inl e)
    with assms True c show ?thesis by (simp add: SCardConnectA_def bindA_def registered_def Let_def)
  next
    case (Inr sa)
    obtain st' atr where sa: "sa = (st', atr)" by fastforce
    show ?thesis
      using connect_remote_eq[OF True, of st' atr u orig hContext mode prots h0 p0] c Inr sa assms True
        registered_core[OF c] by auto
  qed
next
  case False
  with assms show ?thesis
    by (cases orig) (auto simp: SCardConnectA_def bindA_def call_original_def split: prod.splits)
qed

subsection \<open>Properties\<close>


text \<open>A library with one virtual reader and no connection to the proxy.\<close>

definition virtual_reader_app :: app where
  "virtual_reader_app = quiet_app\<lparr>m_winscardConfig := (m_winscardConfig quiet_app)\<lparr>listVIRTUAL_READERS := [''Simona'']\<rparr>\<rparr>"

lemma virtual_reader_app_sel [simp]:
  "IsRemoteReader ''Simona'' virtual_reader_app" "m_nextRemoteCardID virtual_reader_app = 1"
  "remoteReadersMap virtual_reader_app h = None" "cardReaderMap virtual_reader_app h = None"
  "pSocket (m_remoteConfig virtual_reader_app) = None"
  by (simp_all add: virtual_reader_app_def IsRemoteReader_def quiet_app_def app_init_def REMOTE_CONFIG_new_def)

lemma virtual_connect:
  "\<exists>t. SCardConnectA orig c ''Simona'' 2 3 0 9 virtual_reader_app = (Inr (SCARD_F_COMM_ERROR, 2, 9), t)"
proof -
  have "pSocket (m_remoteConfig (registered ''Simona'' virtual_reader_app)) = None"
    by (simp add: registered_def Let_def)
  then have "Remote_SCardConnect ''Simona'' [] (registered ''Simona'' virtual_reader_app) =
      (Inr (SCARD_F_COMM_ERROR, []), registered ''Simona'' virtual_reader_app)"
    by (simp add: Remote_SCardConnect_def bindA_unfold)
  from connect_remote_eq[OF _ this] show ?thesis by simp
qed


text \<open>
  Remote handles keep leading to their readers. If every remote handle names its reader in both
  maps, it does so after any connection whose handle, when it comes from the original library, is
  not one of the remote handles.
\<close>

theorem connect_keeps_maps_agree:
  assumes "maps_agree s"
    and "SCardConnectA orig hContext szReader mode prots h0 p0 s = (Inr (st, h, p), t)"
    and "IsRemoteReader szReader s \<or> \<not> IsRemoteCard h s"
  shows "maps_agree t"
  using connect_result_cases[OF assms(2)] assms(1,3)
  by (auto simp: maps_agree_def IsRemoteCard_def split: if_splits)

theorem connect_keeps_maps_agree_witness:
  "\<exists>t. SCardConnectA None 0 ''Simona'' 2 3 0 9 virtual_reader_app = (Inr (SCARD_F_COMM_ERROR, 2, 9), t) \<and>
     maps_agree t"
proof -
  obtain t where t: "SCardConnectA None 0 ''Simona'' 2 3 0 9 virtual_reader_app = (Inr (SCARD_F_COMM_ERROR, 2, 9), t)"
    using virtual_connect by blast
  have "maps_agree virtual_reader_app" by (simp add: maps_agree_def)
  from connect_keeps_maps_agree[OF this t] t show ?thesis by simp
qed

text \<open>
  Establishing a context disowns all remote cards. After \<open>SCardEstablishContext\<close>, as after
  \<open>SCardReleaseContext\<close>, no handle is remote any more, also handles of cards connected in other
  contexts, so that a later call on such a card goes to the original library; the numbering of
  remote handles starts again.
\<close>

theorem context_calls_forget_cards:
  assumes "SCardEstablishContext (Some f) scope r1 r2 ph s = (res1, t1)"
    and "SCardReleaseContext (Some g) ctx s = (res2, t2)"
  shows "\<not> IsRemoteCard h t1 \<and> \<not> IsRemoteCard h t2 \<and> m_nextRemoteCardID t1 = 1 \<and> m_nextRemoteCardID t2 = 1 \<and>
    res1 = Inr (f (scope, r1, r2, ph)) \<and> res2 = Inr (g ctx)"
  using assms
  by (auto simp: SCardEstablishContext_def SCardReleaseContext_def bindA_def call_original_def
      Remote_SCardReleaseContext_def IsRemoteCard_def split: prod.splits)

theorem context_calls_forget_cards_witness:
  "\<exists>t1 t2. SCardEstablishContext (Some (\<lambda>_. (0, 5))) 2 () () 0
        (quiet_app\<lparr>remoteReadersMap := [2 \<mapsto> ''Simona'']\<rparr>) = (Inr (0, 5), t1) \<and> \<not> IsRemoteCard 2 t1 \<and>
      SCardReleaseContext (Some (\<lambda>_. 0)) 5 (quiet_app\<lparr>remoteReadersMap := [2 \<mapsto> ''Simona'']\<rparr>) = (Inr 0, t2) \<and>
      \<not> IsRemoteCard 2 t2"
proof -
  let ?s = "quiet_app\<lparr>remoteReadersMap := [2 \<mapsto> ''Simona'']\<rparr>"
  obtain r1 t1 where 1: "SCardEstablishContext (Some (\<lambda>_. (0, 5))) 2 () () 0 ?s = (r1, t1)" by fastforce
  obtain r2 t2 where 2: "SCardReleaseContext (Some (\<lambda>_. 0)) 5 ?s = (r2, t2)" by fastforce
  from context_calls_forget_cards[OF 1 2, of 2] 1 2 show ?thesis by auto
qed

text \<open>
  A redirected wide connection is not remote. While a proxy socket is open and redirection is
  on, every \<open>SCardConnectW\<close> that returns yields the handle 1 and success without the original being
  called; the handle is not entered in any map, so a later transmission on it is sent to the
  original library.
\<close>

theorem connect_wide_handle_not_remote:
  assumes "bRedirect (m_remoteConfig s)" and "pSocket (m_remoteConfig s) = Some p"
    and "SCardConnectW orig ctx rd mode prots h0 p0 s = (Inr (st, h, pr), t)"
  shows "st = SCARD_S_SUCCESS \<and> h = HANDLE_VIRTUAL_CARD \<and> pr = SCARD_PROTOCOL_T0 \<and>
    m_processedApduByteCounter t = 0 \<and> IsRemoteCard h t = IsRemoteCard h s"
proof -
  let ?s = "(LogWinscardRules (''SCardConnectW(hContext:0x'' @ fmt_handle ctx @ '', '' @ fmt_S rd @ '') called'' @ [NL]) s)
      \<lparr>m_processedApduByteCounter := 0\<rparr>"
  let ?rest = "\<lambda>c. bindA (measure_command p ''get reset 1000'' (NL # '':: '') (replace_char NL (CHR '' ''))) (\<lambda>_.
      bindA (measure_command p (''get params 1 '' @ fmt_int (measureApduByteCounter c) @ '' '' @
                                fmt_int (measureApduByteDelay c)) '':: '' (\<lambda>m. m)) (\<lambda>_.
      bindA (measure_command p (''post sampling '' @ fmt_d (numSamples c)) '':: '' (\<lambda>m. m)) (\<lambda>_.
      bindA (modA (upd_remote (\<lambda>c. c\<lparr>sampleReaded := False\<rparr>))) (\<lambda>_.
      returnA (SCARD_S_SUCCESS, HANDLE_VIRTUAL_CARD, SCARD_PROTOCOL_T0)))))"
  have k: "keeps_core (?rest c)" for c
    unfolding measure_command_def SendLine_def
    by (intro keeps_core_rules keeps_core_modA) simp_all
  obtain r u where ru: "?rest (m_remoteConfig ?s) ?s = (r, u)" by fastforce
  have r: "r = Inr x \<Longrightarrow> x = (SCARD_S_SUCCESS, HANDLE_VIRTUAL_CARD, SCARD_PROTOCOL_T0)" for x
    using ru by (auto simp: bindA_eq_Inr)
  have cu: "core u = core ?s" using keeps_coreD[OF k, of "m_remoteConfig ?s" ?s] ru by simp
  show ?thesis
    using assms ru r core_eqD(6,10)[OF cu]
    by (cases r) (auto simp: SCardConnectW_def bindA_unfold bindA_def[of _ _ ?s] IsRemoteCard_def)
qed

lemma receive_lines_silent: "receive_lines e REMOTE_SOCKET_TIMEOUT [] ret = Inr (ret, [])"
  using REMOTE_SOCKET_TIMEOUT_pos by (subst receive_lines.simps) simp

lemma measure_command_silent:
  assumes "w_live s = [0]" and "w_rx s = []"
  shows "\<exists>t. measure_command 0 cmd pre post s = (Inr (), t) \<and> w_live t = [0] \<and> w_rx t = []"
  using assms
  by (simp add: measure_command_def SendLine_def deref_Socket_def ReceiveResponse_def bindA_def receive_lines_silent)

theorem connect_wide_handle_not_remote_witness:
  "\<exists>t. SCardConnectW None 0 [0x41] 2 3 0 0
       (connected_app []\<lparr>m_remoteConfig := REMOTE_CONFIG_new\<lparr>pSocket := Some 0, bRedirect := True\<rparr>\<rparr>) =
     (Inr (0, 1, 1), t) \<and> \<not> IsRemoteCard 1 t"
proof -
  let ?s = "connected_app []\<lparr>m_remoteConfig := REMOTE_CONFIG_new\<lparr>pSocket := Some 0, bRedirect := True\<rparr>\<rparr>"
  have step: "\<exists>t. bindA (measure_command 0 cmd pre post) f s = f () t \<and> w_live t = [0] \<and> w_rx t = []"
    if "w_live s = [0]" "w_rx s = []" for cmd pre post s and f :: "unit \<Rightarrow> (status \<times> handle \<times> dword) act"
    using measure_command_silent[OF that, of cmd pre post] by (auto simp: bindA_def)
  let ?c = "m_remoteConfig ?s"
  let ?k = "\<lambda>_. bindA (modA (upd_remote (\<lambda>c. c\<lparr>sampleReaded := False\<rparr>))) (\<lambda>_.
      returnA (SCARD_S_SUCCESS, HANDLE_VIRTUAL_CARD, SCARD_PROTOCOL_T0))"
  let ?m3 = "\<lambda>_. bindA (measure_command 0 (''post sampling '' @ fmt_d (numSamples ?c)) '':: '' (\<lambda>m. m)) ?k"
  let ?m2 = "\<lambda>_. bindA (measure_command 0 (''get params 1 '' @ fmt_int (measureApduByteCounter ?c) @ '' '' @
                                fmt_int (measureApduByteDelay ?c)) '':: '' (\<lambda>m. m)) ?m3"
  let ?s1 = "(LogWinscardRules (''SCardConnectW(hContext:0x'' @ fmt_handle 0 @ '', '' @ fmt_S [0x41] @ '') called'' @ [NL]) ?s)
      \<lparr>m_processedApduByteCounter := 0\<rparr>"
  obtain t1 where t1: "bindA (measure_command 0 ''get reset 1000'' (NL # '':: '') (replace_char NL (CHR '' ''))) ?m2 ?s1 = ?m2 () t1"
    "w_live t1 = [0]" "w_rx t1 = []"
    using step[of ?s1 "''get reset 1000''" "NL # '':: ''" "replace_char NL (CHR '' '')" ?m2]
    by (auto simp: connected_app_def)
  obtain t2 where t2: "?m2 () t1 = ?m3 () t2" "w_live t2 = [0]" "w_rx t2 = []"
    using step[OF t1(2,3), of _ _ _ ?m3] by blast
  obtain t3 where t3: "?m3 () t2 = ?k () t3" using step[OF t2(2,3), of _ _ _ ?k] by blast
  have "\<exists>t. SCardConnectW None 0 [0x41] 2 3 0 0 ?s = (Inr (0, 1, 1), t)"
    using t1(1) t2(1) t3 by (simp add: SCardConnectW_def bindA_unfold bindA_def[of _ _ ?s1])
  then obtain t where t: "SCardConnectW None 0 [0x41] 2 3 0 0 ?s = (Inr (0, 1, 1), t)" by blast
  have "\<not> IsRemoteCard 1 ?s" by (simp add: IsRemoteCard_def connected_app_def quiet_app_def app_init_def)
  with connect_wide_handle_not_remote[OF _ _ t] t show ?thesis by simp
qed



text \<open>
  The ATR of a remote card is reported as recorded, unless it is too long. For a remote reader
  whose recorded ATR is the hexadecimal text of some bytes, the event state 0x10422 is
  set; up to 36 bytes are stored with their number, while a longer ATR leaves the buffer untouched
  and reports a length beyond it.
\<close>

theorem remote_reader_atr:
  assumes "atrs name = Some (BYTE_ConvertFromArrayToHexString atr sp)" and "length (rs_rgbAtr st) = 36"
  shows "remote_reader_state name atrs st =
    Inr (if length atr \<le> 36
         then st\<lparr>rs_dwEventState := 0x00010422, rs_cbAtr := of_nat (length atr), rs_rgbAtr := blit (rs_rgbAtr st) 0 atr\<rparr>
         else st\<lparr>rs_dwEventState := 0x00010422, rs_cbAtr := of_nat (length atr)\<rparr>)"
  using assms by (simp add: remote_reader_state_def BYTE_ConvertFromHexStringToArray_def Let_def not_less)

theorem remote_reader_atr_witness:
  "remote_reader_state ''Simona'' [''Simona'' \<mapsto> BYTE_ConvertFromArrayToHexString [0x3B, 0x00] True]
      \<lparr>rs_szReader = ''Simona'', rs_dwEventState = 0, rs_cbAtr = 0, rs_rgbAtr = replicate 36 0\<rparr> =
    Inr \<lparr>rs_szReader = ''Simona'', rs_dwEventState = 0x00010422, rs_cbAtr = 2,
         rs_rgbAtr = [0x3B, 0x00] @ replicate 34 0\<rparr>"
  using remote_reader_atr[of "[''Simona'' \<mapsto> BYTE_ConvertFromArrayToHexString [0x3B, 0x00] True]" "''Simona''"
      "[0x3B, 0x00]" True "\<lparr>rs_szReader = ''Simona'', rs_dwEventState = 0, rs_cbAtr = 0, rs_rgbAtr = replicate 36 0\<rparr>"]
  by (simp add: blit_def)

end
