(* ===== verification/Apdu_Rules.thy ===== *)
theory Apdu_Rules
  imports App_State
begin

text \<open>
  The rewriting of APDUs by rules: \<open>CWinscardApp::GetApduFromHistory\<close> and
  \<open>CWinscardApp::ApplyRules\<close> (\<open>Winscard.cpp\<close>). A buffer is the list of the bytes that may be
  accessed through its pointer; an index outside it is the fault \<^const>\<open>Out_Of_Bounds\<close>. The
  declarative counterpart (which rules match, which bytes they patch) and the refinement between
  the two close the theory.
\<close>

subsection \<open>History\<close>

text \<open>
  For the input history the iterator is advanced \<open>history\<close> times, which is defined up to the end
  position. For the output history the loop does not decrement its counter, so a positive
  \<open>history\<close> walks past the end; and the position is compared with the end of the \<^emph>\<open>input\<close> list,
  which it never equals, so an empty output list is dereferenced at its end.
\<close>

definition GetApduFromHistory :: "byte list \<Rightarrow> int \<Rightarrow> int \<Rightarrow> app \<Rightarrow> (status \<times> byte list) res" where
  "GetApduFromHistory buffer history apduDirection s =
     (if apduDirection = INPUT_APDU then
        (let n = nat history in
         if n < length (apduInList s)
         then bindE (guardE (length (apduInList s ! n) \<le> length buffer) Out_Of_Bounds)
                (\<lambda>_. Inr (STAT_OK, blit buffer 0 (apduInList s ! n)))
         else if n = length (apduInList s) then Inr (STAT_NOT_ENOUGHT_DATA_TYPE, buffer)
         else Inl Bad_Iterator)
      else if history > 0 then Inl Bad_Iterator
      else (case apduOutList s of
              [] \<Rightarrow> Inl Bad_Iterator
            | x # _ \<Rightarrow> bindE (guardE (length x \<le> length buffer) Out_Of_Bounds)
                         (\<lambda>_. Inr (STAT_OK, blit buffer 0 x))))"

subsection \<open>Matching and acting\<close>

definition in_buffer :: "int \<Rightarrow> bool" where
  "in_buffer element \<longleftrightarrow> 0 \<le> element \<and> element < int MAX_APDU_LENGTH"

text \<open>
  The conjunction of the match rules, left to right up to the first that fails. The status of
  the history lookup is ignored: an APDU that is not there reads as zeros.
\<close>

fun match_all :: "APDU_SINGLE_RULE list \<Rightarrow> app \<Rightarrow> bool res" where
  "match_all [] s = Inr True"
| "match_all (r # rs) s =
     bindE (GetApduFromHistory (replicate MAX_APDU_LENGTH 0) (sr_history r) (sr_apduDirection r) s)
       (\<lambda>(_, tempBuffer).
          bindE (guardE (in_buffer (sr_element r)) Out_Of_Bounds)
            (\<lambda>_. if tempBuffer ! nat (sr_element r) = sr_value r then match_all rs s else Inr False))"

text \<open>The change rules write into \<open>newBuffer\<close>; \<open>LE\<close> sets the length.\<close>

fun apply_actions ::
    "APDU_SINGLE_RULE list \<Rightarrow> byte list \<times> dword \<Rightarrow> (byte list \<times> dword) res" where
  "apply_actions [] st = Inr st"
| "apply_actions (r # rs) (newBuffer, len) =
     (if sr_valid r then
        (if sr_element r = LE_ELEM then apply_actions rs (newBuffer, ucast (sr_value r))
         else bindE (guardE (in_buffer (sr_element r)) Out_Of_Bounds)
                (\<lambda>_. apply_actions rs (newBuffer[nat (sr_element r) := sr_value r], len)))
      else apply_actions rs (newBuffer, len))"

text \<open>
  The delay, then a random one of up to a tenth of it: \<open>rand() % (msDelay / 10)\<close>.
\<close>

definition rule_delay :: "int \<Rightarrow> unit act" where
  "rule_delay msDelay =
     (if msDelay > 0 then
        bindA (modA (\<lambda>s. s\<lparr>w_sleeps := w_sleeps s @ [msDelay]\<rparr>)) (\<lambda>_.
        bindA (liftA (guardE (msDelay div 10 \<noteq> 0) Div_By_Zero)) (\<lambda>_.
        modA (\<lambda>s. s\<lparr>w_sleeps := w_sleeps s @ [int (rand_value (w_env s) (w_rands s)) mod (msDelay div 10)],
                    w_rands := w_rands s + 1\<rparr>)))
      else returnA ())"

fun rules_loop ::
    "int \<Rightarrow> APDU_RULE list \<Rightarrow> byte list \<times> dword \<times> bool \<Rightarrow> (byte list \<times> dword \<times> bool) act" where
  "rules_loop dir [] st = returnA st"
| "rules_loop dir (r # rs) (newBuffer, len, found) =
     (if r_direction r = dir \<and> r_usage r = 1 then
        bindA (\<lambda>s. (match_all (r_matchRules r) s, s)) (\<lambda>bAllMatch.
        if bAllMatch then
          bindA (liftA (apply_actions (r_actionRules r) (newBuffer, len))) (\<lambda>(newBuffer1, len1).
          bindA (rule_delay (r_msDelay r)) (\<lambda>_.
          rules_loop dir rs (newBuffer1, len1, True)))
        else rules_loop dir rs (newBuffer, len, found))
      else rules_loop dir rs (newBuffer, len, found))"

text \<open>
  \<open>stack\<close> is the content of the uninitialised \<open>newBuffer\<close> (300 bytes). The result is the status,
  the buffer and the value stored through \<open>pcbLength\<close>. After a match of an incoming rule the
  length is recomputed from byte 4 of the buffer as it was \<^emph>\<open>before\<close> the rules.
\<close>

definition ApplyRules :: "byte list \<Rightarrow> byte list \<Rightarrow> dword \<Rightarrow> int \<Rightarrow> (status \<times> byte list \<times> dword) act" where
  "ApplyRules stack pbBuffer pcbLength dir s =
     (if m_bRulesActive s then
        bindA (liftA (guardE (unat pcbLength \<le> MAX_APDU_LENGTH \<and> unat pcbLength \<le> length pbBuffer) Out_Of_Bounds)) (\<lambda>_.
        bindA (rules_loop dir (rulesList s) (blit stack 0 (take (unat pcbLength) pbBuffer), pcbLength, False))
          (\<lambda>(newBuffer, len, bRuleFound).
        bindA (if dir = INPUT_APDU \<and> bRuleFound
               then bindA (liftA (guardE (4 < length pbBuffer) Out_Of_Bounds))
                      (\<lambda>_. returnA (ucast (pbBuffer ! 4) + 5))
               else returnA len) (\<lambda>len1.
        bindA (liftA (guardE (unat len1 \<le> MAX_APDU_LENGTH \<and> unat len1 \<le> length pbBuffer) Out_Of_Bounds)) (\<lambda>_.
        returnA (STAT_OK, blit pbBuffer 0 (take (unat len1) newBuffer), len1))))) s
      else (Inr (STAT_OK, pbBuffer, pcbLength), s))"

subsection \<open>What the rules mean\<close>

text \<open>
  The declarative reading. \<open>apdu_at\<close> is the APDU a match rule refers to, \<open>match_byte\<close> the byte it
  compares; \<open>fired\<close> are the rules of a direction that are in use and match, and their effect is
  the list of single byte writes \<open>patches\<close> in the order of the rules.
\<close>

definition apdu_at :: "int \<Rightarrow> int \<Rightarrow> app \<Rightarrow> byte list option" where
  "apdu_at history dir s =
     (if dir = INPUT_APDU
      then if nat history < length (apduInList s) then Some (apduInList s ! nat history) else None
      else if apduOutList s = [] then None else Some (hd (apduOutList s)))"

definition match_byte :: "APDU_SINGLE_RULE \<Rightarrow> app \<Rightarrow> byte" where
  "match_byte m s =
     (case apdu_at (sr_history m) (sr_apduDirection m) s of
        None \<Rightarrow> 0 | Some a \<Rightarrow> a ! nat (sr_element m))"

definition rule_matches :: "app \<Rightarrow> APDU_RULE \<Rightarrow> bool" where
  "rule_matches s r \<longleftrightarrow> (\<forall>m \<in> set (r_matchRules r). match_byte m s = sr_value m)"

definition patches :: "APDU_RULE \<Rightarrow> (nat \<times> byte) list" where
  "patches r = map (\<lambda>a. (nat (sr_element a), sr_value a))
     (filter (\<lambda>a. sr_valid a \<and> sr_element a \<noteq> LE_ELEM) (r_actionRules r))"

definition patch_all :: "(nat \<times> byte) list \<Rightarrow> byte list \<Rightarrow> byte list" where
  "patch_all ps buf = fold (\<lambda>(i, v) b. b[i := v]) ps buf"

definition le_values :: "APDU_RULE \<Rightarrow> dword list" where
  "le_values r = map (\<lambda>a. ucast (sr_value a))
     (filter (\<lambda>a. sr_valid a \<and> sr_element a = LE_ELEM) (r_actionRules r))"

definition fired :: "app \<Rightarrow> int \<Rightarrow> APDU_RULE list \<Rightarrow> APDU_RULE list" where
  "fired s dir rs = filter (\<lambda>r. r_direction r = dir \<and> r_usage r = 1 \<and> rule_matches s r) rs"

definition delays :: "APDU_RULE list \<Rightarrow> app \<Rightarrow> app" where
  "delays rs s = fold (\<lambda>r s. snd (rule_delay (r_msDelay r) s)) rs s"

text \<open>
  Rules that stay inside the buffers: histories within what is recorded (the output history only
  at its newest entry), elements inside the 300 bytes, and no delay between 1 and 9.
\<close>

definition match_ok :: "app \<Rightarrow> APDU_SINGLE_RULE \<Rightarrow> bool" where
  "match_ok s m \<longleftrightarrow> in_buffer (sr_element m) \<and>
     (if sr_apduDirection m = INPUT_APDU then nat (sr_history m) \<le> length (apduInList s)
      else sr_history m \<le> 0 \<and> apduOutList s \<noteq> [])"

definition rule_ok :: "app \<Rightarrow> APDU_RULE \<Rightarrow> bool" where
  "rule_ok s r \<longleftrightarrow>
     (\<forall>m \<in> set (r_matchRules r). match_ok s m) \<and>
     (\<forall>a \<in> set (r_actionRules r). sr_valid a \<longrightarrow> in_buffer (sr_element a)) \<and>
     \<not> (0 < r_msDelay r \<and> r_msDelay r < 10)"

definition hist_wf :: "app \<Rightarrow> bool" where
  "hist_wf s \<longleftrightarrow> (\<forall>a \<in> set (apduInList s) \<union> set (apduOutList s). length a = MAX_APDU_LENGTH)"

lemma length_patch_all [simp]: "length (patch_all ps buf) = length buf"
  unfolding patch_all_def by (induction ps arbitrary: buf) (auto split: prod.split)

lemma patch_all_append: "patch_all (ps @ qs) buf = patch_all qs (patch_all ps buf)"
  by (simp add: patch_all_def)

lemma patch_all_Nil [simp]: "patch_all [] buf = buf"
  by (simp add: patch_all_def)

text \<open>A byte no patch names keeps its value; of the patches of one byte the last counts.\<close>

lemma patch_all_other: "i \<notin> fst ` set ps \<Longrightarrow> patch_all ps buf ! i = buf ! i"
  unfolding patch_all_def by (induction ps arbitrary: buf) (auto split: prod.split)

lemma patch_all_last:
  assumes "i < length buf" and "i \<notin> fst ` set qs"
  shows "patch_all (ps @ (i, v) # qs) buf ! i = v"
proof -
  have "patch_all (ps @ (i, v) # qs) buf = patch_all qs ((patch_all ps buf)[i := v])"
    by (simp add: patch_all_def)
  then show ?thesis using assms by (simp add: patch_all_other)
qed

subsection \<open>Refinement\<close>

lemma GetApduFromHistory_ok:
  assumes "hist_wf s" and "match_ok s m" and "length buf = MAX_APDU_LENGTH"
  shows "\<exists>st. GetApduFromHistory buf (sr_history m) (sr_apduDirection m) s =
    Inr (st, case apdu_at (sr_history m) (sr_apduDirection m) s of None \<Rightarrow> buf | Some a \<Rightarrow> a)"
proof (cases "sr_apduDirection m = INPUT_APDU")
  case True
  have "length (apduInList s ! nat (sr_history m)) = MAX_APDU_LENGTH"
    if "nat (sr_history m) < length (apduInList s)"
    using assms(1) nth_mem[OF that] by (auto simp: hist_wf_def)
  with True assms show ?thesis
    by (auto simp: GetApduFromHistory_def apdu_at_def match_ok_def blit_0 Let_def)
next
  case False
  with assms(2) obtain x xs where "apduOutList s = x # xs" "\<not> sr_history m > 0"
    by (cases "apduOutList s") (auto simp: match_ok_def)
  with False assms show ?thesis
    by (auto simp: GetApduFromHistory_def apdu_at_def hist_wf_def blit_0)
qed

lemma match_all_spec:
  assumes "hist_wf s" and "\<forall>m \<in> set ms. match_ok s m"
  shows "match_all ms s = Inr (\<forall>m \<in> set ms. match_byte m s = sr_value m)"
  using assms(2)
proof (induction ms)
  case (Cons m ms)
  let ?z = "replicate MAX_APDU_LENGTH (0 :: byte)"
  obtain st where get: "GetApduFromHistory ?z (sr_history m) (sr_apduDirection m) s =
      Inr (st, case apdu_at (sr_history m) (sr_apduDirection m) s of None \<Rightarrow> ?z | Some a \<Rightarrow> a)"
    using GetApduFromHistory_ok[OF assms(1), of m ?z] Cons.prems by auto
  have el: "in_buffer (sr_element m)" using Cons.prems by (simp add: match_ok_def)
  then have "nat (sr_element m) < MAX_APDU_LENGTH" by (auto simp: in_buffer_def)
  then have "(case apdu_at (sr_history m) (sr_apduDirection m) s of None \<Rightarrow> ?z | Some a \<Rightarrow> a) !
      nat (sr_element m) = match_byte m s"
    by (simp add: match_byte_def split: option.split)
  then show ?case using Cons by (simp add: get el)
qed simp

lemma apply_actions_spec:
  assumes "\<forall>a \<in> set as. sr_valid a \<longrightarrow> in_buffer (sr_element a)"
  shows "apply_actions as (buf, len) =
    Inr (patch_all (patches \<lparr>r_ruleName = n, r_usage = u, r_direction = d, r_matchRules = ms,
                             r_actionRules = as, r_msDelay = w\<rparr>) buf,
         last (len # le_values \<lparr>r_ruleName = n, r_usage = u, r_direction = d, r_matchRules = ms,
                             r_actionRules = as, r_msDelay = w\<rparr>))"
  using assms
proof (induction as arbitrary: buf len)
  case (Cons a as)
  then show ?case by (auto simp: patches_def le_values_def patch_all_def)
qed (simp add: patches_def le_values_def)

lemma apply_actions_rule:
  assumes "rule_ok s r"
  shows "apply_actions (r_actionRules r) (buf, len) =
    Inr (patch_all (patches r) buf, last (len # le_values r))"
proof (cases r)
  case (fields n u d ms as w)
  then show ?thesis using apply_actions_spec[of as buf len n u d ms w] assms by (simp add: rule_ok_def)
qed

lemma rule_delay_ok:
  assumes "rule_ok s' r"
  shows "rule_delay (r_msDelay r) s = (Inr (), snd (rule_delay (r_msDelay r) s))"
proof -
  have "r_msDelay r > 0 \<Longrightarrow> r_msDelay r div 10 \<noteq> 0" using assms by (auto simp: rule_ok_def)
  then show ?thesis by (simp add: rule_delay_def)
qed

lemma rule_delay_frame [simp]:
  "apduInList (snd (rule_delay d s)) = apduInList s"
  "apduOutList (snd (rule_delay d s)) = apduOutList s"
  "rulesList (snd (rule_delay d s)) = rulesList s"
  by (auto simp: rule_delay_def bindA_def guardE_def)

lemma same_history:
  assumes "apduInList t = apduInList s" and "apduOutList t = apduOutList s"
  shows "match_byte m t = match_byte m s" "match_ok t = match_ok s" "rule_ok t = rule_ok s"
    "rule_matches t = rule_matches s" "hist_wf t = hist_wf s" "fired t = fired s"
  using assms
  by (auto simp: match_byte_def apdu_at_def match_ok_def rule_ok_def rule_matches_def hist_wf_def
      fired_def fun_eq_iff cong: option.case_cong)

lemma rules_loop_spec:
  assumes "hist_wf s" and "\<forall>r \<in> set rs. r_direction r = dir \<and> r_usage r = 1 \<longrightarrow> rule_ok s r"
  shows "rules_loop dir rs (buf, len, found) s =
    (Inr (patch_all (concat (map patches (fired s dir rs))) buf,
          last (len # concat (map le_values (fired s dir rs))),
          found \<or> fired s dir rs \<noteq> []),
     delays (fired s dir rs) s)"
  using assms
proof (induction rs arbitrary: buf len found s)
  case Nil
  then show ?case by (simp add: fired_def delays_def)
next
  case (Cons r rs)
  show ?case
  proof (cases "r_direction r = dir \<and> r_usage r = 1")
    case False
    with Cons show ?thesis by (auto simp: fired_def)
  next
    case True
    with Cons.prems have ok: "rule_ok s r" by simp
    then have m: "match_all (r_matchRules r) s = Inr (rule_matches s r)"
      using match_all_spec[OF Cons.prems(1)] by (auto simp: rule_ok_def rule_matches_def)
    show ?thesis
    proof (cases "rule_matches s r")
      case False
      with True m Cons show ?thesis by (simp add: fired_def)
    next
      case True
      obtain t where t: "rule_delay (r_msDelay r) s = (Inr (), t)"
        using rule_delay_ok[OF ok, of s] by blast
      then have t': "t = snd (rule_delay (r_msDelay r) s)" by simp
      have same: "hist_wf t = hist_wf s" "rule_ok t = rule_ok s" "fired t = fired s"
        unfolding t' by (rule same_history; rule rule_delay_frame)+
      have IH: "rules_loop dir rs (b, l, True) t =
          (Inr (patch_all (concat (map patches (fired s dir rs))) b,
                last (l # concat (map le_values (fired s dir rs))), True),
           delays (fired s dir rs) t)" for b l
        using Cons.IH[of t b l True] Cons.prems by (simp add: same)
      have f: "fired s dir (r # rs) = r # fired s dir rs"
        using True \<open>r_direction r = dir \<and> r_usage r = 1\<close> by (simp add: fired_def)
      have "rules_loop dir (r # rs) (buf, len, found) s =
          rules_loop dir rs (patch_all (patches r) buf, last (len # le_values r), True) t"
        using True m \<open>r_direction r = dir \<and> r_usage r = 1\<close> t
        by (simp add: bindA_def apply_actions_rule[OF ok])
      then show ?thesis
        unfolding f IH using t by (auto simp: patch_all_append delays_def last_append)
    qed
  qed
qed

text \<open>The value of the length after the rules.\<close>

definition rules_length :: "app \<Rightarrow> byte list \<Rightarrow> dword \<Rightarrow> int \<Rightarrow> dword" where
  "rules_length s pbBuffer len dir =
     (let fs = fired s dir (rulesList s)
      in if dir = INPUT_APDU \<and> fs \<noteq> [] then ucast (pbBuffer ! 4) + 5
         else last (len # concat (map le_values fs)))"

definition rules_result :: "app \<Rightarrow> byte list \<Rightarrow> byte list \<Rightarrow> dword \<Rightarrow> int \<Rightarrow> byte list" where
  "rules_result s stack pbBuffer len dir =
     take (unat (rules_length s pbBuffer len dir))
       (patch_all (concat (map patches (fired s dir (rulesList s))))
          (blit stack 0 (take (unat len) pbBuffer)))"

text \<open>The buffers are large enough for what goes in and what comes out.\<close>

definition buffers_ok :: "app \<Rightarrow> byte list \<Rightarrow> byte list \<Rightarrow> dword \<Rightarrow> int \<Rightarrow> bool" where
  "buffers_ok s stack pbBuffer len dir \<longleftrightarrow>
     length stack = MAX_APDU_LENGTH \<and> unat len \<le> MAX_APDU_LENGTH \<and> unat len \<le> length pbBuffer \<and>
     4 < length pbBuffer \<and>
     unat (rules_length s pbBuffer len dir) \<le> min MAX_APDU_LENGTH (length pbBuffer)"

lemma ApplyRules_spec:
  assumes "m_bRulesActive s" and "hist_wf s"
    and "\<forall>r \<in> set (rulesList s). r_direction r = dir \<and> r_usage r = 1 \<longrightarrow> rule_ok s r"
    and "buffers_ok s stack buf len dir"
  shows "ApplyRules stack buf len dir s =
    (Inr (STAT_OK, blit buf 0 (rules_result s stack buf len dir), rules_length s buf len dir),
     delays (fired s dir (rulesList s)) s)"
proof -
  note loop = rules_loop_spec[OF assms(2,3), of "blit stack 0 (take (unat len) buf)" len False]
  have b: "unat len \<le> MAX_APDU_LENGTH" "unat len \<le> length buf" "4 < length buf"
    "unat (rules_length s buf len dir) \<le> MAX_APDU_LENGTH"
    "unat (rules_length s buf len dir) \<le> length buf"
    using assms(4) by (simp_all add: buffers_ok_def)
  show ?thesis
  proof (cases "dir = INPUT_APDU \<and> fired s dir (rulesList s) \<noteq> []")
    case True
    then have L: "rules_length s buf len dir = ucast (buf ! 4) + 5"
      using True by (auto simp: rules_length_def Let_def)
    show ?thesis unfolding rules_result_def L
      using True assms(1) b(1-3) b(4,5)[unfolded L] loop
      by (auto simp: ApplyRules_def bindA_def)
  next
    case False
    then have L: "rules_length s buf len dir = last (len # concat (map le_values (fired s dir (rulesList s))))"
      unfolding rules_length_def Let_def by argo
    show ?thesis unfolding rules_result_def L
      using False assms(1) b(1-3) b(4,5)[unfolded L] loop
      by (auto simp: ApplyRules_def bindA_def)
  qed
qed

lemma ApplyRules_nothing_fires:
  assumes "m_bRulesActive s" and "hist_wf s"
    and "\<forall>r \<in> set (rulesList s). r_direction r = dir \<and> r_usage r = 1 \<longrightarrow> rule_ok s r"
    and "fired s dir (rulesList s) = []"
    and "length stack = MAX_APDU_LENGTH" "unat len \<le> MAX_APDU_LENGTH" "unat len \<le> length buf"
  shows "ApplyRules stack buf len dir s = (Inr (STAT_OK, buf, len), s)"
proof -
  note loop = rules_loop_spec[OF assms(2,3), of "blit stack 0 (take (unat len) buf)" len False]
  have "blit buf 0 (take (unat len) (blit stack 0 (take (unat len) buf))) = buf"
    using assms(7) by (simp add: blit_0)
  then show ?thesis using assms loop
    by (simp add: ApplyRules_def bindA_def delays_def)
qed

subsection \<open>Properties\<close>

text \<open>A state with one incoming rule, \<open>INS = A4\<close> rewrites \<open>CLA\<close> to 80, and one recorded APDU.\<close>

definition select_rule :: APDU_RULE where
  "select_rule = APDU_RULE_new\<lparr>r_ruleName := ''RULE1'', r_usage := 1,
     r_matchRules := [\<lparr>sr_valid = True, sr_history = 0, sr_apduDirection = 1, sr_element = 1, sr_value = 0xA4\<rparr>],
     r_actionRules := [\<lparr>sr_valid = True, sr_history = 0, sr_apduDirection = 1, sr_element = 0, sr_value = 0x80\<rparr>]\<rparr>"

definition select_apdu :: "byte list" where
  "select_apdu = [0x00, 0xA4, 0x04, 0x00, 0x02, 0x3F, 0x00]"

lemma length_select_apdu: "length select_apdu = 7"
  by (simp add: select_apdu_def)

definition select_app :: app where
  "select_app = quiet_app\<lparr>m_bRulesActive := True, rulesList := [select_rule],
     apduInList := [blit (replicate MAX_APDU_LENGTH 0) 0 select_apdu],
     apduOutList := [replicate MAX_APDU_LENGTH 0]\<rparr>"

lemma select_app_sel [simp]:
  "m_bRulesActive select_app" "rulesList select_app = [select_rule]"
  "apduInList select_app = [blit (replicate MAX_APDU_LENGTH 0) 0 select_apdu]"
  "apduOutList select_app = [replicate MAX_APDU_LENGTH 0]"
  by (simp_all add: select_app_def)

lemma select_app_ok: "hist_wf select_app" "rule_ok select_app select_rule"
  by (simp_all add: hist_wf_def rule_ok_def select_rule_def match_ok_def in_buffer_def elem_defs
      select_apdu_def APDU_RULE_new_def)

lemma select_app_fired:
  "fired select_app INPUT_APDU [select_rule] = [select_rule]"
  "fired select_app OUTPUT_APDU [select_rule] = []"
  by (simp_all add: fired_def rule_matches_def select_rule_def match_byte_def apdu_at_def elem_defs
      select_apdu_def APDU_RULE_new_def blit_def)

text \<open>
  C6: What \<open>ApplyRules\<close> computes. With rules that stay inside the buffers, the call returns
  \<open>STAT_OK\<close> and the buffer's first bytes become the old ones with the patches of all matching
  rules applied in order; the length becomes byte 4 of the \<^emph>\<open>old\<close> buffer plus 5 after a match of
  an incoming rule (so \<open>LC\<close> and \<open>LE\<close> actions do not change it), and the last \<open>LE\<close> value for
  outgoing rules. Nothing but the delays is left in the state.
\<close>

theorem apply_rules_refines_patches:
  assumes "m_bRulesActive s" and "hist_wf s"
    and "\<forall>r \<in> set (rulesList s). r_direction r = dir \<and> r_usage r = 1 \<longrightarrow> rule_ok s r"
    and "buffers_ok s stack buf len dir"
  shows "ApplyRules stack buf len dir s =
    (Inr (STAT_OK, blit buf 0 (rules_result s stack buf len dir), rules_length s buf len dir),
     delays (fired s dir (rulesList s)) s)"
  using ApplyRules_spec[OF assms] .

theorem apply_rules_refines_patches_witness:
  "fst (ApplyRules (replicate MAX_APDU_LENGTH 0) select_apdu 7 INPUT_APDU select_app) =
     Inr (STAT_OK, [0x80, 0xA4, 0x04, 0x00, 0x02, 0x3F, 0x00], 7)"
proof -
  have L: "rules_length select_app select_apdu 7 INPUT_APDU = 7"
    by (simp add: rules_length_def select_app_fired select_apdu_def)
  have ok: "buffers_ok select_app (replicate MAX_APDU_LENGTH 0) select_apdu 7 INPUT_APDU"
    by (simp add: buffers_ok_def L length_select_apdu MAX_APDU_LENGTH_def)
  have "blit select_apdu 0 (rules_result select_app (replicate MAX_APDU_LENGTH 0) select_apdu 7 INPUT_APDU) =
      [0x80, 0xA4, 0x04, 0x00, 0x02, 0x3F, 0x00]"
    unfolding rules_result_def L select_app_sel select_app_fired
    by (simp add: patches_def patch_all_def select_rule_def APDU_RULE_new_def elem_defs
        select_apdu_def blit_def)
  then show ?thesis
    using apply_rules_refines_patches[OF _ select_app_ok(1) _ ok] select_app_ok(2) by (simp add: L)
qed

text \<open>
  Rules that do not match leave the APDU alone. If no rule of the direction matches, the
  buffer and its length come back unchanged, even where the length contradicts the APDU's own
  \<open>LC\<close> byte, and the state is untouched.
\<close>

theorem apply_rules_no_match_identity:
  assumes "hist_wf s"
    and "\<forall>r \<in> set (rulesList s). r_direction r = dir \<and> r_usage r = 1 \<longrightarrow> rule_ok s r"
    and "\<not> m_bRulesActive s \<or> fired s dir (rulesList s) = []"
    and "length stack = MAX_APDU_LENGTH" and "unat len \<le> MAX_APDU_LENGTH" and "unat len \<le> length buf"
  shows "ApplyRules stack buf len dir s = (Inr (STAT_OK, buf, len), s)"
proof (cases "m_bRulesActive s")
  case True
  then show ?thesis using ApplyRules_nothing_fires[OF True assms(1,2) _ assms(4-6)] assms(3) by simp
qed (simp add: ApplyRules_def)

theorem apply_rules_no_match_identity_witness:
  "ApplyRules (replicate MAX_APDU_LENGTH 0) select_apdu 3 OUTPUT_APDU select_app =
     (Inr (STAT_OK, select_apdu, 3), select_app)"
  by (rule apply_rules_no_match_identity)
    (use select_app_ok in \<open>simp_all add: select_app_fired select_apdu_def MAX_APDU_LENGTH_def\<close>)

text \<open>
  Short delays crash. A matching rule whose \<open>DELAY\<close> is between 1 and 9 makes the call divide
  by zero, in \<open>rand() % (msDelay / 10)\<close>.
\<close>

theorem apply_rules_short_delay_div_by_zero:
  assumes "m_bRulesActive s" and "hist_wf s"
    and "rulesList s = r # rs" and "r_direction r = dir" and "r_usage r = 1"
    and "rule_ok s (r\<lparr>r_msDelay := 0\<rparr>)" and "rule_matches s r"
    and "0 < r_msDelay r" and "r_msDelay r < 10"
    and "unat len \<le> MAX_APDU_LENGTH" and "unat len \<le> length buf"
  shows "fst (ApplyRules stack buf len dir s) = Inl Div_By_Zero"
proof -
  have m: "match_all (r_matchRules r) s = Inr True"
    using match_all_spec[OF assms(2), of "r_matchRules r"] assms(6,7)
    by (simp add: rule_ok_def rule_matches_def)
  have a: "apply_actions (r_actionRules r) (b, l) = Inr (patch_all (patches r) b, last (l # le_values r))" for b l
    using apply_actions_rule[OF assms(6), of b l] by (simp add: patches_def le_values_def)
  have "r_msDelay r div 10 = 0" using assms(8,9) by simp
  then show ?thesis
    using assms(1,3,4,5,8,10,11) m a by (simp add: ApplyRules_def bindA_def rule_delay_def)
qed

theorem apply_rules_short_delay_div_by_zero_witness:
  "fst (ApplyRules [] select_apdu 7 INPUT_APDU (select_app\<lparr>rulesList := [select_rule\<lparr>r_msDelay := 5\<rparr>]\<rparr>)) =
     Inl Div_By_Zero"
  by (rule apply_rules_short_delay_div_by_zero[where r = "select_rule\<lparr>r_msDelay := 5\<rparr>" and rs = "[]"])
    (simp_all add: hist_wf_def rule_ok_def rule_matches_def select_rule_def match_ok_def match_byte_def
      apdu_at_def in_buffer_def elem_defs select_apdu_def APDU_RULE_new_def blit_def)

text \<open>
  The output history is unusable. A rule that refers to an earlier output APDU (\<open>in=0\<close> with a
  positive \<open>t\<close>) walks off the list, whatever was recorded; only the newest output can be read, and
  not before there is one.
\<close>

theorem output_history_never_read:
  "GetApduFromHistory buf history OUTPUT_APDU s =
     (if history > 0 \<or> apduOutList s = [] then Inl Bad_Iterator
      else if length (hd (apduOutList s)) \<le> length buf
      then Inr (STAT_OK, blit buf 0 (hd (apduOutList s)))
      else Inl Out_Of_Bounds)"
  by (cases "apduOutList s") (simp_all add: GetApduFromHistory_def elem_defs bindE_def guardE_def)

end
