(* ===== verification/Transmit.thy ===== *)
theory Transmit
  imports Card_Handles Apdu_Rules
begin

text \<open>
  The heart of the library, \<open>SCardTransmit\<close> (\<open>Winscard.cpp\<close>): one APDU of the application is
  logged, recorded in the history, rewritten by the incoming rules, sent to the local card or to
  the remote proxy, its answer is read out with further \<open>GET DATA\<close> commands if configured,
  recorded, rewritten by the outgoing rules and returned. The call is cut at the comments of the
  source (\<open>before_card\<close>, \<open>first_exchange\<close>, \<open>get_data_loop\<close>, \<open>after_card\<close>); what it keeps in
  local variables and in the caller's buffers is the record \<open>xfer\<close>.
\<close>

subsection \<open>Describing the instruction\<close>

text \<open>The parentheses of nesting depth one become brackets. \<open>count\<close> is signed.\<close>

fun convert_outer :: "int \<Rightarrow> string \<Rightarrow> string" where
  "convert_outer count [] = []"
| "convert_outer count (c # cs) =
     (if c = CHR ''('' then (if count = 0 then CHR ''['' else c) # convert_outer (count + 1) cs
      else if c = CHR '')'' then (if count = 1 then CHR '']'' else c) # convert_outer (count - 1) cs
      else c # convert_outer count cs)"

definition ConvertOuterParenthessis :: "string \<Rightarrow> string" where
  "ConvertOuterParenthessis description = convert_outer 0 description"

text \<open>An appended piece of the exchange log.\<close>

definition exchange_log :: "string \<Rightarrow> app \<Rightarrow> app" where
  "exchange_log data s = append_file (WINSCARD_LOG s) data s"

definition WriteDescription :: "byte \<Rightarrow> unit act" where
  "WriteDescription insByte =
     bindA (getA (\<lambda>s. iniparser_getstring (instructionDict s) (''instructions:'' @ fmt_02x insByte) (Str []))) (\<lambda>description.
     case description of
       Str d \<Rightarrow>
         if d \<noteq> [] then
           bindA (modA (exchange_log (''instruction info: '' @ ConvertOuterParenthessis d))) (\<lambda>_.
           modA (exchange_log [NL]))
         else returnA ()
     | _ \<Rightarrow> failA Null_Deref)"

subsection \<open>The transfer\<close>

text \<open>
  \<open>x_send\<close> is the local \<open>sendBuffer[300]\<close> with its length \<open>x_cb\<close>; \<open>x_recv\<close> are the bytes behind
  \<open>pbRecvBuffer\<close>, \<open>x_pcb\<close> the value behind \<open>pcbRecvLength\<close>, \<open>x_pci\<close> what \<open>pioRecvPci\<close> points to.
  The three pointers are not null.
\<close>

record 'p xfer =
  x_send :: "byte list"
  x_cb :: dword
  x_recv :: "byte list"
  x_pcb :: dword
  x_pci :: 'p
  x_result :: status

type_synonym ('q, 'p) transmit_fn =
  "handle \<times> 'q \<times> byte list \<times> 'p \<times> byte list \<times> dword \<Rightarrow> status \<times> 'p \<times> byte list \<times> dword"

text \<open>\<open>"   "\<close>, the bytes in hexadecimal, and a newline, written only when exchanges are logged.\<close>

definition log_message :: "byte list \<Rightarrow> unit act" where
  "log_message bytes =
     bindA (getA (\<lambda>s. bLOG_EXCHANGED_APDU (m_winscardConfig s))) (\<lambda>b.
     if b then logA (''   '' @ BYTE_ConvertFromArrayToHexString bytes True @ [NL]) else returnA ())"

definition log_command :: "handle \<Rightarrow> byte list \<Rightarrow> dword \<Rightarrow> unit act" where
  "log_command hCard pbSendBuffer cbSendLength =
     bindA (getA m_winscardConfig) (\<lambda>cfg.
     if bLOG_EXCHANGED_APDU cfg then
       bindA (modA (exchange_log (''SCardTransmit (handle 0x'' @ fmt_handle_08X hCard @ '')#'' @ [NL]))) (\<lambda>_.
       bindA (logA (''SCardTransmit (handle 0x'' @ fmt_handle_08X hCard @ '')#'' @ [NL])) (\<lambda>_.
       bindA (modA (\<lambda>s. exchange_log (''apduCounter:'' @ fmt_d (apduCounter s) @ ''#'' @ [NL]) s)) (\<lambda>_.
       bindA (modA (\<lambda>s. exchange_log (''totalBytesINCounter:'' @ fmt_d (m_processedApduByteCounter s + 1) @ ''#'' @ [NL]) s)) (\<lambda>_.
       bindA (if bLOG_WRITE_DESCRIPTION cfg
              then bindA (liftA (guardE (1 < length pbSendBuffer) Out_Of_Bounds))
                     (\<lambda>_. WriteDescription (pbSendBuffer ! 1))
              else returnA ()) (\<lambda>_.
       bindA (modA (exchange_log ''transmitted:'')) (\<lambda>_.
       bindA (liftA (guardE (unat cbSendLength \<le> length pbSendBuffer) Out_Of_Bounds)) (\<lambda>_.
       modA (DumpMemory (take (unat cbSendLength) pbSendBuffer)))))))))
     else returnA ())"

text \<open>\<open>memset\<close> and \<open>memcpy\<close> into the 300 bytes of an \<open>APDU_BUFFER\<close>.\<close>

definition apdu_buffer :: "byte list \<Rightarrow> dword \<Rightarrow> byte list res" where
  "apdu_buffer buf len =
     bindE (guardE (unat len \<le> MAX_APDU_LENGTH \<and> unat len \<le> length buf) Out_Of_Bounds) (\<lambda>_.
     Inr (blit (replicate MAX_APDU_LENGTH 0) 0 (take (unat len) buf)))"

definition save_incoming :: "byte list \<Rightarrow> dword \<Rightarrow> unit act" where
  "save_incoming pbSendBuffer cbSendLength =
     bindA (liftA (apdu_buffer pbSendBuffer cbSendLength)) (\<lambda>a.
     modA (\<lambda>s. s\<lparr>apduInList := a # apduInList s\<rparr>))"

definition save_outgoing :: "byte list \<Rightarrow> dword \<Rightarrow> unit act" where
  "save_outgoing pbRecvBuffer cbRecvLength =
     bindA (liftA (apdu_buffer pbRecvBuffer cbRecvLength)) (\<lambda>a.
     modA (\<lambda>s. s\<lparr>apduOutList := a # apduOutList s\<rparr>))"

definition log_rules_header :: "string \<Rightarrow> unit act" where
  "log_rules_header kind =
     bindA (getA apduCounter) (\<lambda>n.
     logA (NL # kind @ '' rules applied for apduCounter '' @ fmt_d n @ '': '' @ [NL]))"

text \<open>
  Up to the exchange with the card: the command is logged and recorded, then copied to the
  uninitialised \<open>sendBuffer\<close> (\<open>junk\<close>) and rewritten (\<open>stack\<close> is the uninitialised buffer of
  \<open>ApplyRules\<close>). The result is the content of \<open>sendBuffer\<close> and the length to be sent.
\<close>

definition record_command :: "handle \<Rightarrow> byte list \<Rightarrow> dword \<Rightarrow> unit act" where
  "record_command hCard pbSendBuffer cbSendLength =
     bindA (logA (''SCardTransmit called'' @ [NL])) (\<lambda>_.
     bindA (log_command hCard pbSendBuffer cbSendLength) (\<lambda>_.
     save_incoming pbSendBuffer cbSendLength))"

definition rewrite_command :: "byte list \<Rightarrow> byte list \<Rightarrow> byte list \<Rightarrow> dword \<Rightarrow> (byte list \<times> dword) act" where
  "rewrite_command junk stack pbSendBuffer cbSendLength =
     bindA (getA (\<lambda>s. bMODIFY_APDU_BY_RULES (m_winscardConfig s))) (\<lambda>modify.
     bindA (if modify
            then bindA (log_rules_header ''Incoming'') (\<lambda>_. log_message (take (unat cbSendLength) pbSendBuffer))
            else returnA ()) (\<lambda>_.
     let sendBuffer = blit junk 0 (take (unat cbSendLength) pbSendBuffer) in
     bindA (if modify
            then bindA (ApplyRules stack sendBuffer cbSendLength INPUT_APDU) (\<lambda>(_, buf, len).
                 bindA (log_message (take (unat len) buf)) (\<lambda>_. returnA (buf, len)))
            else returnA (sendBuffer, cbSendLength)) (\<lambda>(buf, len).
     bindA (modA (\<lambda>s. s\<lparr>m_processedApduByteCounter := m_processedApduByteCounter s + len\<rparr>)) (\<lambda>_.
     returnA (buf, len)))))"

definition before_card ::
    "byte list \<Rightarrow> byte list \<Rightarrow> handle \<Rightarrow> byte list \<Rightarrow> dword \<Rightarrow> (byte list \<times> dword) act" where
  "before_card junk stack hCard pbSendBuffer cbSendLength =
     bindA (record_command hCard pbSendBuffer cbSendLength) (\<lambda>_.
     rewrite_command junk stack pbSendBuffer cbSendLength)"

text \<open>\<open>FORCE_APDU_NONZERO_INPUT_DATA\<close>, on the way to a local card.\<close>

definition force_nonzero :: "'p xfer \<Rightarrow> 'p xfer act" where
  "force_nonzero x =
     bindA (getA (\<lambda>s. bFORCE_APDU_NONZERO_INPUT_DATA (m_winscardConfig s))) (\<lambda>force.
     returnA (if force \<and> x_cb x < 6 then x\<lparr>x_send := (x_send x)[4 := 1, 5 := 0], x_cb := x_cb x + 1\<rparr> else x))"

text \<open>
  One exchange, the \<open>k\<close>-th of this call, with the answer written at \<open>pbRecvBuffer + recvOffset\<close>.
\<close>

definition send_apdu ::
    "(nat \<Rightarrow> ('q, 'p) transmit_fn) option \<Rightarrow> nat \<Rightarrow> handle \<Rightarrow> 'q \<Rightarrow> ('p xfer \<Rightarrow> 'p xfer act) \<Rightarrow> nat \<Rightarrow> 'p xfer \<Rightarrow> 'p xfer act" where
  "send_apdu orig k hCard pioSendPci prepare recvOffset x0 =
     bindA (getA (IsRemoteCard hCard)) (\<lambda>isRemote.
     if isRemote then
       bindA (\<lambda>s. map_prod Inr id (GetReaderName hCard s)) (\<lambda>name.
       bindA (Remote_SCardTransmit name (take (unat (x_cb x0)) (x_send x0)) (drop recvOffset (x_recv x0)) (x_pcb x0))
         (\<lambda>(result, buf, n).
       returnA (x0\<lparr>x_recv := take recvOffset (x_recv x0) @ buf, x_pcb := n, x_result := result\<rparr>)))
     else
       bindA (prepare x0) (\<lambda>x.
       bindA (call_original (map_option (\<lambda>f. f k) orig)
                (hCard, pioSendPci, take (unat (x_cb x)) (x_send x), x_pci x, drop recvOffset (x_recv x), x_pcb x))
         (\<lambda>(result, pci, buf, n).
       returnA (x\<lparr>x_recv := take recvOffset (x_recv x) @ buf, x_pcb := n, x_pci := pci, x_result := result\<rparr>))))"

definition first_exchange where
  "first_exchange orig hCard pioSendPci x = send_apdu orig 0 hCard pioSendPci force_nonzero 0 x"

subsection \<open>Reading out the answer\<close>

text \<open>
  The command \<open>00 C0 00 00 Le\<close>: \<open>Le\<close> is the last byte of the answer \<^emph>\<open>counted from the start of
  the buffer\<close>, 254 instead of 0.
\<close>

definition get_data_command :: "'p xfer \<Rightarrow> 'p xfer res" where
  "get_data_command x =
     bindE (guardE (unat (x_pcb x - 1) < length (x_recv x)) Out_Of_Bounds) (\<lambda>_.
     let sw2 = x_recv x ! unat (x_pcb x - 1);
         le = (if sw2 = 0 then 254 else sw2)
     in Inr (x\<lparr>x_send := (x_send x)[0 := 0x00, 1 := 0xC0, 2 := 0x00, 3 := 0x00, 4 := le],
               x_cb := 5, x_pcb := ucast le + 2\<rparr>))"

text \<open>
  The loop. After a round \<open>recvOffset\<close> is the length of the \<^emph>\<open>last\<close> answer without its status, not
  the sum. The loop need not end: \<open>None\<close> is a call that does not return.
\<close>

partial_function (option) get_data_loop ::
    "(nat \<Rightarrow> ('q, 'p) transmit_fn) option \<Rightarrow> nat \<Rightarrow> handle \<Rightarrow> 'q \<Rightarrow> nat \<Rightarrow> 'p xfer \<Rightarrow> app \<Rightarrow> ('p xfer res \<times> app) option" where
  "get_data_loop orig k hCard pioSendPci recvOffset x s =
     (if recvOffset < length (x_recv x) then
        if x_recv x ! recvOffset = 0x61 \<or> x_recv x ! recvOffset = 0x6C then
          (case bindA (liftA (get_data_command x)) (send_apdu orig k hCard pioSendPci returnA recvOffset) s of
             (Inl e, s1) \<Rightarrow> Some (Inl e, s1)
           | (Inr x1, s1) \<Rightarrow> get_data_loop orig (Suc k) hCard pioSendPci (unat (x_pcb x1 - 2)) x1 s1)
        else Some (Inr x, s)
      else Some (Inl Out_Of_Bounds, s))"

definition read_out ::
    "(nat \<Rightarrow> ('q, 'p) transmit_fn) option \<Rightarrow> handle \<Rightarrow> 'q \<Rightarrow> 'p xfer \<Rightarrow> app \<Rightarrow> ('p xfer res \<times> app) option" where
  "read_out orig hCard pioSendPci x s =
     (if x_pcb x = 2 \<and> bAUTO_REQUEST_DATA (m_winscardConfig s)
      then get_data_loop orig 1 hCard pioSendPci 0 x s else Some (Inr x, s))"

subsection \<open>The answer\<close>

definition log_response_time :: "dword \<Rightarrow> status \<Rightarrow> unit act" where
  "log_response_time elapsedCard result =
     bindA (getA (\<lambda>s. bLOG_EXCHANGED_APDU (m_winscardConfig s))) (\<lambda>b.
     if b then
       bindA (modA (exchange_log (''responseTime:'' @ fmt_d elapsedCard @ ''#'' @ [NL]))) (\<lambda>_.
       modA (exchange_log (''SCardTransmit result:0x'' @ fmt_x (unat result) @ ''#'' @ [NL])))
     else returnA ())"

definition log_response :: "byte list \<Rightarrow> dword \<Rightarrow> unit act" where
  "log_response pbRecvBuffer cbRecvLength =
     bindA (getA (\<lambda>s. bLOG_EXCHANGED_APDU (m_winscardConfig s))) (\<lambda>b.
     if b then
       bindA (modA (exchange_log ''received:'')) (\<lambda>_.
       bindA (liftA (guardE (unat cbRecvLength \<le> length pbRecvBuffer) Out_Of_Bounds)) (\<lambda>_.
       bindA (modA (DumpMemory (take (unat cbRecvLength) pbRecvBuffer))) (\<lambda>_.
       modA (exchange_log [NL]))))
     else returnA ())"

text \<open>
  After the exchange: a failed call reports an empty answer. \<open>elapsedCard\<close> and \<open>elapsedLibrary\<close>
  are the measured times in milliseconds.
\<close>

definition answer_length :: "'p xfer \<Rightarrow> dword" where
  "answer_length x = (if x_result x \<noteq> SCARD_S_SUCCESS then 0 else x_pcb x)"

definition rewrite_response :: "byte list \<Rightarrow> byte list \<Rightarrow> dword \<Rightarrow> (byte list \<times> dword) act" where
  "rewrite_response stack pbRecvBuffer cbRecvLength =
     bindA (getA (\<lambda>s. bMODIFY_APDU_BY_RULES (m_winscardConfig s))) (\<lambda>modify.
     if modify then
       bindA (log_rules_header ''Outgoing'') (\<lambda>_.
       bindA (log_message (take (unat cbRecvLength) pbRecvBuffer)) (\<lambda>_.
       bindA (ApplyRules stack pbRecvBuffer cbRecvLength OUTPUT_APDU) (\<lambda>(_, buf, len).
       bindA (log_message (take (unat len) buf)) (\<lambda>_. returnA (buf, len)))))
     else returnA (pbRecvBuffer, cbRecvLength))"

definition log_library_time :: "dword \<Rightarrow> unit act" where
  "log_library_time elapsedLibrary =
     bindA (getA (\<lambda>s. bLOG_EXCHANGED_APDU (m_winscardConfig s))) (\<lambda>b.
     if b then logA (''responseTimeLibrary:'' @ fmt_d elapsedLibrary @ ''#'' @ [NL]) else returnA ())"

definition after_card ::
    "byte list \<Rightarrow> dword \<Rightarrow> dword \<Rightarrow> 'p xfer \<Rightarrow> (status \<times> 'p \<times> byte list \<times> dword) act" where
  "after_card stack elapsedCard elapsedLibrary x =
     bindA (log_response_time elapsedCard (x_result x)) (\<lambda>_.
     bindA (log_response (x_recv x) (answer_length x)) (\<lambda>_.
     bindA (save_outgoing (x_recv x) (answer_length x)) (\<lambda>_.
     bindA (rewrite_response stack (x_recv x) (answer_length x)) (\<lambda>(buf, len).
     bindA (modA (\<lambda>s. s\<lparr>apduCounter := apduCounter s + 1\<rparr>)) (\<lambda>_.
     bindA (log_library_time elapsedLibrary) (\<lambda>_.
     returnA (x_result x, x_pci x, buf, len)))))))"

text \<open>
  What a call of \<open>SCardTransmit\<close> depends on besides its arguments: its uninitialised stack buffers
  (\<open>sendBuffer\<close>, and \<open>newBuffer\<close> of the two calls of \<open>ApplyRules\<close>) and the measured times.
\<close>

record frame =
  f_send :: "byte list"
  f_in :: "byte list"
  f_out :: "byte list"
  f_card_ms :: dword
  f_library_ms :: dword

definition andthen :: "'a act \<Rightarrow> ('a \<Rightarrow> app \<Rightarrow> ('b res \<times> app) option) \<Rightarrow> app \<Rightarrow> ('b res \<times> app) option" where
  "andthen m f s = (case m s of (Inl e, s1) \<Rightarrow> Some (Inl e, s1) | (Inr x, s1) \<Rightarrow> f x s1)"

definition SCardTransmit ::
    "(nat \<Rightarrow> ('q, 'p) transmit_fn) option \<Rightarrow> frame \<Rightarrow> handle \<Rightarrow> 'q \<Rightarrow> byte list \<Rightarrow> dword \<Rightarrow> 'p \<Rightarrow> byte list \<Rightarrow> dword \<Rightarrow>
     app \<Rightarrow> ((status \<times> 'p \<times> byte list \<times> dword) res \<times> app) option" where
  "SCardTransmit orig fr hCard pioSendPci pbSendBuffer cbSendLength pioRecvPci pbRecvBuffer pcbRecvLength =
     andthen (before_card (f_send fr) (f_in fr) hCard pbSendBuffer cbSendLength) (\<lambda>(buf, len).
     andthen (first_exchange orig hCard pioSendPci
                \<lparr>x_send = buf, x_cb = len, x_recv = pbRecvBuffer, x_pcb = pcbRecvLength,
                 x_pci = pioRecvPci, x_result = SCARD_S_SUCCESS\<rparr>) (\<lambda>x s.
     case read_out orig hCard pioSendPci x s of
       None \<Rightarrow> None
     | Some r \<Rightarrow> andthen (\<lambda>_. r) (\<lambda>y t. Some (after_card (f_out fr) (f_card_ms fr) (f_library_ms fr) y t)) s))"

subsection \<open>What logging and delays do not touch\<close>

text \<open>The state without what logging and the delays of rules change.\<close>

definition visible :: "app \<Rightarrow> app" where
  "visible s = s\<lparr>w_out := [], w_clock := 0, w_sleeps := [], w_rands := 0\<rparr>"

lemma visible_same:
  assumes "visible t = visible s"
  shows "apduInList t = apduInList s" "apduOutList t = apduOutList s" "rulesList t = rulesList s"
    "m_bRulesActive t = m_bRulesActive s" "m_winscardConfig t = m_winscardConfig s"
    "m_remoteConfig t = m_remoteConfig s" "remoteReadersMap t = remoteReadersMap s"
    "cardReaderMap t = cardReaderMap s" "apduCounter t = apduCounter s"
    "m_processedApduByteCounter t = m_processedApduByteCounter s" "instructionDict t = instructionDict s"
    "w_live t = w_live s" "w_rx t = w_rx s" "w_tx t = w_tx s"
proof -
  have eq: "f (visible t) = f (visible s)" for f :: "app \<Rightarrow> 'x" using assms by simp
  show "apduInList t = apduInList s" "apduOutList t = apduOutList s" "rulesList t = rulesList s"
    "m_bRulesActive t = m_bRulesActive s" "m_winscardConfig t = m_winscardConfig s"
    "m_remoteConfig t = m_remoteConfig s" "remoteReadersMap t = remoteReadersMap s"
    "cardReaderMap t = cardReaderMap s" "apduCounter t = apduCounter s"
    "m_processedApduByteCounter t = m_processedApduByteCounter s" "instructionDict t = instructionDict s"
    "w_live t = w_live s" "w_rx t = w_rx s" "w_tx t = w_tx s"
    using eq[of apduInList] eq[of apduOutList] eq[of rulesList] eq[of m_bRulesActive] eq[of m_winscardConfig]
      eq[of m_remoteConfig] eq[of remoteReadersMap] eq[of cardReaderMap] eq[of apduCounter]
      eq[of m_processedApduByteCounter] eq[of instructionDict] eq[of w_live] eq[of w_rx] eq[of w_tx]
    by (simp_all add: visible_def)
qed

lemma visible_log [simp]:
  "visible (append_file p d s) = visible s"
  "visible (LogDebugString m b s) = visible s"
  "visible (LogWinscardRules m s) = visible s"
  "visible (DumpMemory l s) = visible s"
  "visible (exchange_log m s) = visible s"
  "visible (snd (rule_delay ms s)) = visible s"
  by (simp_all add: visible_def append_file_def File_AppendString_def LogDebugString_def getCurrentTimeString_def
      LogWinscardRules_def DumpMemory_def exchange_log_def rule_delay_def bindA_def guardE_def Let_def)

lemma visible_delays [simp]: "visible (delays rs s) = visible s"
  unfolding delays_def by (induction rs arbitrary: s) simp_all

lemma visible_update:
  assumes "visible t = visible s"
  shows "visible (t\<lparr>apduInList := a\<rparr>) = visible (s\<lparr>apduInList := a\<rparr>)"
    "visible (t\<lparr>apduOutList := a\<rparr>) = visible (s\<lparr>apduOutList := a\<rparr>)"
    "visible (t\<lparr>apduCounter := n\<rparr>) = visible (s\<lparr>apduCounter := n\<rparr>)"
    "visible (t\<lparr>m_processedApduByteCounter := n\<rparr>) = visible (s\<lparr>m_processedApduByteCounter := n\<rparr>)"
proof -
  have eq: "visible (f t) = visible (f s)" if "\<And>u. visible (f u) = f (visible u)" for f :: "app \<Rightarrow> app"
    using assms that by simp
  show "visible (t\<lparr>apduInList := a\<rparr>) = visible (s\<lparr>apduInList := a\<rparr>)"
    by (rule eq) (simp add: visible_def)
  show "visible (t\<lparr>apduOutList := a\<rparr>) = visible (s\<lparr>apduOutList := a\<rparr>)"
    by (rule eq) (simp add: visible_def)
  show "visible (t\<lparr>apduCounter := n\<rparr>) = visible (s\<lparr>apduCounter := n\<rparr>)"
    by (rule eq) (simp add: visible_def)
  show "visible (t\<lparr>m_processedApduByteCounter := n\<rparr>) = visible (s\<lparr>m_processedApduByteCounter := n\<rparr>)"
    by (rule eq) (simp add: visible_def)
qed

text \<open>Actions that only write logs.\<close>

definition only_logs :: "unit act \<Rightarrow> bool" where
  "only_logs m \<longleftrightarrow> (\<forall>s. \<exists>t. m s = (Inr (), t) \<and> visible t = visible s)"

lemma only_logsD: "only_logs m \<Longrightarrow> \<exists>t. m s = (Inr (), t) \<and> visible t = visible s"
  by (simp add: only_logs_def)

lemma only_logs_modA: "(\<And>s. visible (f s) = visible s) \<Longrightarrow> only_logs (modA f)"
  by (simp add: only_logs_def)

lemma only_logs_returnA: "only_logs (returnA ())"
  by (simp add: only_logs_def)

lemma only_logs_bindA: "only_logs m \<Longrightarrow> (\<And>x. only_logs (f x)) \<Longrightarrow> only_logs (bindA m f)"
  unfolding only_logs_def bindA_def by (metis (mono_tags, lifting) case_prod_conv old.sum.simps(6))

lemma only_logs_getA: "(\<And>x. only_logs (f x)) \<Longrightarrow> only_logs (bindA (getA g) f)"
  by (simp add: only_logs_def bindA_unfold)

lemma only_logs_if: "only_logs a \<Longrightarrow> only_logs b \<Longrightarrow> only_logs (if c then a else b)"
  by simp

lemma only_logs_guard: "c \<Longrightarrow> only_logs m \<Longrightarrow> only_logs (bindA (liftA (guardE c e)) (\<lambda>_. m))"
  by (simp add: only_logs_def)

lemmas only_logs_rules = only_logs_getA only_logs_bindA only_logs_if only_logs_returnA only_logs_modA

lemma only_logs_message [simp]:
  "only_logs (log_message bs)" "only_logs (log_rules_header k)" "only_logs (log_response_time e st)"
  "only_logs (log_library_time e)"
  unfolding log_message_def log_rules_header_def log_response_time_def log_library_time_def
  by (intro only_logs_rules; simp)+

lemma only_logs_response: "unat n \<le> length buf \<Longrightarrow> only_logs (log_response buf n)"
  unfolding log_response_def by (intro only_logs_rules only_logs_guard; simp)

text \<open>
  The description of the instruction is found or not, but is not a key without a value. Only with
  \<open>LOG_WRITE_DESCRIPTION\<close> it is looked up at all.
\<close>

definition loggable :: "app \<Rightarrow> byte list \<Rightarrow> bool" where
  "loggable s pbSendBuffer \<longleftrightarrow>
     (bLOG_EXCHANGED_APDU (m_winscardConfig s) \<and> bLOG_WRITE_DESCRIPTION (m_winscardConfig s) \<longrightarrow>
        1 < length pbSendBuffer \<and>
        (\<exists>d. iniparser_getstring (instructionDict s) (''instructions:'' @ fmt_02x (pbSendBuffer ! 1)) (Str []) = Str d))"

lemma log_command_ok:
  assumes "unat n \<le> length buf" and "loggable s buf"
  shows "\<exists>t. log_command h buf n s = (Inr (), t) \<and> visible t = visible s"
proof -
  have desc: "\<exists>u. WriteDescription (buf ! 1) t = (Inr (), u) \<and> visible u = visible t"
    if "visible t = visible s" "bLOG_EXCHANGED_APDU (m_winscardConfig s)" "bLOG_WRITE_DESCRIPTION (m_winscardConfig s)" for t
    using assms(2) that visible_same(11)[OF that(1)]
    by (auto simp: WriteDescription_def loggable_def bindA_unfold)
  show ?thesis
  proof (cases "bLOG_EXCHANGED_APDU (m_winscardConfig s) \<and> bLOG_WRITE_DESCRIPTION (m_winscardConfig s)")
    case True
    let ?t0 = "LogWinscardRules (''SCardTransmit (handle 0x'' @ fmt_handle_08X h @ '')#'' @ [NL])
       (exchange_log (''SCardTransmit (handle 0x'' @ fmt_handle_08X h @ '')#'' @ [NL]) s)"
    let ?t1 = "exchange_log (''apduCounter:'' @ fmt_d (apduCounter ?t0) @ ''#'' @ [NL]) ?t0"
    let ?t2 = "exchange_log (''totalBytesINCounter:'' @ fmt_d (m_processedApduByteCounter ?t1 + 1) @ ''#'' @ [NL]) ?t1"
    obtain u where u: "WriteDescription (buf ! 1) ?t2 = (Inr (), u)" "visible u = visible ?t2"
      using desc[of ?t2] True by auto
    have "1 < length buf" using assms(2) True by (simp add: loggable_def)
    then show ?thesis using True assms(1) u
      by (simp add: log_command_def bindA_unfold)
  next
    case False
    then show ?thesis using assms(1) by (auto simp: log_command_def bindA_unfold)
  qed
qed

subsection \<open>The steps before and after the card\<close>

text \<open>An APDU as the history keeps it, and the states in which the rules are consulted.\<close>

definition padded :: "byte list \<Rightarrow> byte list" where
  "padded a = blit (replicate MAX_APDU_LENGTH 0) 0 a"

lemma length_padded [simp]: "length a \<le> MAX_APDU_LENGTH \<Longrightarrow> length (padded a) = MAX_APDU_LENGTH"
  by (simp add: padded_def)

definition with_command :: "byte list \<Rightarrow> app \<Rightarrow> app" where
  "with_command a s = s\<lparr>apduInList := padded a # apduInList s\<rparr>"

definition with_response :: "byte list \<Rightarrow> app \<Rightarrow> app" where
  "with_response a s = s\<lparr>apduOutList := padded a # apduOutList s\<rparr>"

lemma apdu_buffer_ok:
  "unat n \<le> MAX_APDU_LENGTH \<Longrightarrow> unat n \<le> length buf \<Longrightarrow> apdu_buffer buf n = Inr (padded (take (unat n) buf))"
  by (simp add: apdu_buffer_def padded_def)

lemma save_ok:
  assumes "unat n \<le> MAX_APDU_LENGTH" and "unat n \<le> length buf"
  shows "save_incoming buf n s = (Inr (), with_command (take (unat n) buf) s)"
    and "save_outgoing buf n s = (Inr (), with_response (take (unat n) buf) s)"
  using assms by (simp_all add: save_incoming_def save_outgoing_def apdu_buffer_ok with_command_def with_response_def)

lemma visible_with:
  assumes "visible t = visible s"
  shows "visible (with_command a t) = visible (with_command a s)"
    "visible (with_response a t) = visible (with_response a s)"
  using visible_same[OF assms] visible_update[OF assms] by (simp_all add: with_command_def with_response_def)

text \<open>The outcome of the rules depends on the visible state only.\<close>

lemma visible_rules:
  assumes "visible t = visible s"
  shows "hist_wf t = hist_wf s" "rule_ok t = rule_ok s" "fired t = fired s"
    "rules_length t = rules_length s" "rules_result t = rules_result s" "buffers_ok t = buffers_ok s"
proof -
  note v = visible_same[OF assms]
  show h: "hist_wf t = hist_wf s" "rule_ok t = rule_ok s" "fired t = fired s"
    by (rule same_history; rule v)+
  show l: "rules_length t = rules_length s" by (simp add: fun_eq_iff rules_length_def h v)
  show "rules_result t = rules_result s" by (simp add: fun_eq_iff rules_result_def h v l)
  show "buffers_ok t = buffers_ok s" by (simp add: fun_eq_iff buffers_ok_def l)
qed

text \<open>What makes a call of \<open>ApplyRules\<close> in a state free of faults.\<close>

definition rules_safe :: "app \<Rightarrow> byte list \<Rightarrow> byte list \<Rightarrow> dword \<Rightarrow> int \<Rightarrow> bool" where
  "rules_safe s stack buf len dir \<longleftrightarrow>
     m_bRulesActive s \<and> hist_wf s \<and>
     (\<forall>r \<in> set (rulesList s). r_direction r = dir \<and> r_usage r = 1 \<longrightarrow> rule_ok s r) \<and>
     buffers_ok s stack buf len dir"

lemma ApplyRules_visible:
  assumes "rules_safe s stack buf len dir" and "visible t = visible s"
  shows "\<exists>u. ApplyRules stack buf len dir t =
      (Inr (STAT_OK, blit buf 0 (rules_result s stack buf len dir), rules_length s buf len dir), u) \<and>
    visible u = visible s"
  using ApplyRules_spec[of t dir stack buf len] assms visible_same[OF assms(2)] visible_rules[OF assms(2)]
  by (simp add: rules_safe_def)

lemma length_rules_result:
  assumes "rules_safe s stack buf len dir"
  shows "length (rules_result s stack buf len dir) = unat (rules_length s buf len dir)"
  using assms by (auto simp: rules_safe_def buffers_ok_def rules_result_def blit_0 min_def split: if_splits)

lemma take_rules_result:
  assumes "rules_safe s stack buf len dir"
  shows "take (unat (rules_length s buf len dir)) (blit buf 0 (rules_result s stack buf len dir)) =
    rules_result s stack buf len dir"
  using length_rules_result[OF assms] by (simp add: take_blit_0)

text \<open>The command as the card gets it, its length, and the state after the first part.\<close>

definition sent_buffer :: "frame \<Rightarrow> byte list \<Rightarrow> byte list" where
  "sent_buffer fr cmd = blit (f_send fr) 0 cmd"

definition rewritten_length :: "app \<Rightarrow> frame \<Rightarrow> byte list \<Rightarrow> dword \<Rightarrow> dword" where
  "rewritten_length s fr cmd n = rules_length (with_command cmd s) (sent_buffer fr cmd) n INPUT_APDU"

definition rewritten :: "app \<Rightarrow> frame \<Rightarrow> byte list \<Rightarrow> dword \<Rightarrow> byte list" where
  "rewritten s fr cmd n = rules_result (with_command cmd s) (f_in fr) (sent_buffer fr cmd) n INPUT_APDU"

definition count_sent :: "dword \<Rightarrow> app \<Rightarrow> app" where
  "count_sent n s = s\<lparr>m_processedApduByteCounter := m_processedApduByteCounter s + n\<rparr>"

lemma visible_count: "visible t = visible s \<Longrightarrow> visible (count_sent n t) = visible (count_sent n s)"
  using visible_same[of t s] visible_update[of t s] by (simp add: count_sent_def)

lemma record_command_ok:
  assumes "unat n \<le> MAX_APDU_LENGTH" and "unat n \<le> length buf" and "loggable s buf"
  shows "\<exists>t. record_command h buf n s = (Inr (), t) \<and> visible t = visible (with_command (take (unat n) buf) s)"
proof -
  let ?s0 = "LogWinscardRules (''SCardTransmit called'' @ [NL]) s"
  have "loggable ?s0 buf" using assms(3) by (simp add: loggable_def)
  then obtain t where t: "log_command h buf n ?s0 = (Inr (), t)" "visible t = visible ?s0"
    using log_command_ok[OF assms(2)] by blast
  have "visible (with_command (take (unat n) buf) t) = visible (with_command (take (unat n) buf) s)"
    using t(2) by (intro visible_with) simp
  then show ?thesis
    using t(1) save_ok(1)[OF assms(1,2), of t] by (simp add: record_command_def bindA_unfold)
qed

lemma rewrite_command_plain:
  assumes "\<not> bMODIFY_APDU_BY_RULES (m_winscardConfig s)"
  shows "rewrite_command junk stack buf n s = (Inr (blit junk 0 (take (unat n) buf), n), count_sent n s)"
  using assms by (simp add: rewrite_command_def bindA_unfold count_sent_def)

lemma rewrite_command_rules:
  assumes "bMODIFY_APDU_BY_RULES (m_winscardConfig s)" and "visible t = visible s"
    and "rules_safe s stack (blit junk 0 (take (unat n) buf)) n INPUT_APDU"
  shows "\<exists>u. rewrite_command junk stack buf n t =
     (Inr (blit (blit junk 0 (take (unat n) buf)) 0
             (rules_result s stack (blit junk 0 (take (unat n) buf)) n INPUT_APDU),
           rules_length s (blit junk 0 (take (unat n) buf)) n INPUT_APDU), u) \<and>
    visible u = visible (count_sent (rules_length s (blit junk 0 (take (unat n) buf)) n INPUT_APDU) s)"
proof -
  let ?b = "blit junk 0 (take (unat n) buf)"
  let ?L = "rules_length s ?b n INPUT_APDU" and ?R = "rules_result s stack ?b n INPUT_APDU"
  have m: "bMODIFY_APDU_BY_RULES (m_winscardConfig t)"
    using visible_same(5)[OF assms(2)] assms(1) by simp
  obtain t1 where t1: "log_rules_header ''Incoming'' t = (Inr (), t1)" "visible t1 = visible t"
    using only_logsD[OF only_logs_message(2)] by blast
  obtain t2 where t2: "log_message (take (unat n) buf) t1 = (Inr (), t2)" "visible t2 = visible t1"
    using only_logsD[OF only_logs_message(1)] by blast
  have "visible t2 = visible s" using assms(2) t1(2) t2(2) by simp
  from ApplyRules_visible[OF assms(3) this] obtain t3 where
    t3: "ApplyRules stack ?b n INPUT_APDU t2 = (Inr (STAT_OK, blit ?b 0 ?R, ?L), t3)" "visible t3 = visible s"
    by blast
  obtain t4 where t4: "log_message (take (unat ?L) (blit ?b 0 ?R)) t3 = (Inr (), t4)" "visible t4 = visible t3"
    using only_logsD[OF only_logs_message(1)] by blast
  have "visible t4 = visible s" using t3(2) t4(2) by simp
  from visible_count[OF this, of ?L] show ?thesis
    using m t1(1) t2(1) t3(1) t4(1) by (simp add: rewrite_command_def bindA_unfold count_sent_def Let_def)
qed

definition count_exchange :: "app \<Rightarrow> app" where
  "count_exchange s = s\<lparr>apduCounter := apduCounter s + 1\<rparr>"

lemma visible_exchange: "visible t = visible s \<Longrightarrow> visible (count_exchange t) = visible (count_exchange s)"
  using visible_same[of t s] visible_update[of t s] by (simp add: count_exchange_def)

lemma rewrite_response_plain:
  "\<not> bMODIFY_APDU_BY_RULES (m_winscardConfig s) \<Longrightarrow> rewrite_response stack buf n s = (Inr (buf, n), s)"
  by (simp add: rewrite_response_def bindA_unfold)

lemma rewrite_response_rules:
  assumes "bMODIFY_APDU_BY_RULES (m_winscardConfig s)" and "visible t = visible s"
    and "rules_safe s stack buf n OUTPUT_APDU"
  shows "\<exists>u. rewrite_response stack buf n t =
     (Inr (blit buf 0 (rules_result s stack buf n OUTPUT_APDU), rules_length s buf n OUTPUT_APDU), u) \<and>
    visible u = visible s"
proof -
  let ?L = "rules_length s buf n OUTPUT_APDU" and ?R = "rules_result s stack buf n OUTPUT_APDU"
  have m: "bMODIFY_APDU_BY_RULES (m_winscardConfig t)"
    using visible_same(5)[OF assms(2)] assms(1) by simp
  obtain t1 where t1: "log_rules_header ''Outgoing'' t = (Inr (), t1)" "visible t1 = visible t"
    using only_logsD[OF only_logs_message(2)] by blast
  obtain t2 where t2: "log_message (take (unat n) buf) t1 = (Inr (), t2)" "visible t2 = visible t1"
    using only_logsD[OF only_logs_message(1)] by blast
  have "visible t2 = visible s" using assms(2) t1(2) t2(2) by simp
  from ApplyRules_visible[OF assms(3) this] obtain t3 where
    t3: "ApplyRules stack buf n OUTPUT_APDU t2 = (Inr (STAT_OK, blit buf 0 ?R, ?L), t3)" "visible t3 = visible s"
    by blast
  obtain t4 where t4: "log_message (take (unat ?L) (blit buf 0 ?R)) t3 = (Inr (), t4)" "visible t4 = visible t3"
    using only_logsD[OF only_logs_message(1)] by blast
  show ?thesis
    using m t1(1) t2(1) t3 t4 by (simp add: rewrite_response_def bindA_unfold)
qed

text \<open>The last part, given what the rules make of the answer.\<close>

lemma after_card_ok:
  assumes "unat (answer_length x) \<le> MAX_APDU_LENGTH" and "unat (answer_length x) \<le> length (x_recv x)"
    and "\<And>t. visible t = visible (with_response (take (unat (answer_length x)) (x_recv x)) s) \<Longrightarrow>
      \<exists>u. rewrite_response stack (x_recv x) (answer_length x) t = (Inr (buf, len), u) \<and> visible u = visible t"
  shows "\<exists>t. after_card stack ms1 ms2 x s = (Inr (x_result x, x_pci x, buf, len), t) \<and>
    visible t = visible (count_exchange (with_response (take (unat (answer_length x)) (x_recv x)) s))"
proof -
  let ?r = "with_response (take (unat (answer_length x)) (x_recv x))"
  obtain t1 where t1: "log_response_time ms1 (x_result x) s = (Inr (), t1)" "visible t1 = visible s"
    using only_logsD[OF only_logs_message(3)] by blast
  obtain t2 where t2: "log_response (x_recv x) (answer_length x) t1 = (Inr (), t2)" "visible t2 = visible t1"
    using only_logsD[OF only_logs_response[OF assms(2)]] by blast
  have v: "visible (?r t2) = visible (?r s)" using t1(2) t2(2) by (intro visible_with) simp
  from assms(3)[OF this] obtain t3 where
    t3: "rewrite_response stack (x_recv x) (answer_length x) (?r t2) = (Inr (buf, len), t3)" "visible t3 = visible (?r t2)"
    by blast
  obtain t4 where t4: "log_library_time ms2 (count_exchange t3) = (Inr (), t4)" "visible t4 = visible (count_exchange t3)"
    using only_logsD[OF only_logs_message(4)] by blast
  have "visible t4 = visible (count_exchange (?r s))"
    using t4(2) visible_exchange[of t3 "?r s"] t3(2) v by simp
  then show ?thesis
    using t1(1) t2(1) save_ok(2)[OF assms(1,2), of t2] t3(1) t4(1)
    by (simp add: after_card_def bindA_unfold count_exchange_def)
qed

text \<open>One exchange with a local card.\<close>

lemma send_local:
  assumes "\<not> IsRemoteCard h s" and "prepare x s = (Inr x', s)"
    and "f k (h, spci, take (unat (x_cb x')) (x_send x'), x_pci x', drop off (x_recv x'), x_pcb x') = (st, pci, buf, n)"
  shows "send_apdu (Some f) k h spci prepare off x s =
    (Inr (x'\<lparr>x_recv := take off (x_recv x') @ buf, x_pcb := n, x_pci := pci, x_result := st\<rparr>), s)"
  using assms by (simp add: send_apdu_def bindA_unfold call_original_def)

lemma force_nonzero_off [simp]:
  "\<not> bFORCE_APDU_NONZERO_INPUT_DATA (m_winscardConfig s) \<or> \<not> x_cb x < 6 \<Longrightarrow> force_nonzero x s = (Inr x, s)"
  by (auto simp: force_nonzero_def bindA_unfold)

lemma local_visible: "visible t = visible s \<Longrightarrow> IsRemoteCard h t = IsRemoteCard h s"
  using visible_same[of t s] by (simp add: IsRemoteCard_def)

lemma transmit_shape:
  assumes "before_card (f_send fr) (f_in fr) h sbuf cb s = (Inr (buf, len), t)"
    and "\<not> IsRemoteCard h t"
    and "\<not> bFORCE_APDU_NONZERO_INPUT_DATA (m_winscardConfig t)"
    and "f 0 (h, spci, take (unat len) buf, rpci, rbuf, pcb) = (st, pci, rbuf', n)"
    and "\<not> (n = 2 \<and> bAUTO_REQUEST_DATA (m_winscardConfig t))"
  shows "SCardTransmit (Some f) fr h spci sbuf cb rpci rbuf pcb s =
    Some (after_card (f_out fr) (f_card_ms fr) (f_library_ms fr)
      \<lparr>x_send = buf, x_cb = len, x_recv = rbuf', x_pcb = n, x_pci = pci, x_result = st\<rparr> t)"
proof -
  let ?x = "\<lparr>x_send = buf, x_cb = len, x_recv = rbuf, x_pcb = pcb, x_pci = rpci, x_result = SCARD_S_SUCCESS\<rparr>"
  have "first_exchange (Some f) h spci ?x t =
      (Inr \<lparr>x_send = buf, x_cb = len, x_recv = rbuf', x_pcb = n, x_pci = pci, x_result = st\<rparr>, t)"
    unfolding first_exchange_def
    using send_local[of h t force_nonzero ?x ?x f 0 spci 0 st pci rbuf' n] assms(2-4) by simp
  then show ?thesis using assms(1,5) by (auto simp: SCardTransmit_def andthen_def read_out_def)
qed

lemma response_count: "with_response a (count_sent n s) = count_sent n (with_response a s)"
  by (cases s) (simp add: with_response_def count_sent_def)

text \<open>What a failed or successful call leaves in \<open>*pcbRecvLength\<close>.\<close>

definition answered :: "status \<Rightarrow> dword \<Rightarrow> dword" where
  "answered st n = (if st = SCARD_S_SUCCESS then n else 0)"

text \<open>The call with the rules in use.\<close>

lemma transmit_with_rules:
  assumes cfg: "bMODIFY_APDU_BY_RULES (m_winscardConfig s)" "\<not> bAUTO_REQUEST_DATA (m_winscardConfig s)"
      "\<not> bFORCE_APDU_NONZERO_INPUT_DATA (m_winscardConfig s)"
    and loc: "\<not> IsRemoteCard h s"
    and cmd: "cmd = take (unat cb) sbuf" "unat cb \<le> MAX_APDU_LENGTH" "unat cb \<le> length sbuf" "loggable s sbuf"
    and safe_in: "rules_safe (with_command cmd s) (f_in fr) (sent_buffer fr cmd) cb INPUT_APDU"
    and card: "f 0 (h, spci, rewritten s fr cmd cb, rpci, rbuf, pcb) = (st, pci, rbuf', n)"
    and resp: "resp = take (unat (answered st n)) rbuf'"
    and safe_out: "rules_safe (with_response resp (with_command cmd s)) (f_out fr) rbuf' (answered st n) OUTPUT_APDU"
  shows "\<exists>t. SCardTransmit (Some f) fr h spci sbuf cb rpci rbuf pcb s =
      Some (Inr (st, pci,
        blit rbuf' 0 (rules_result (with_response resp (with_command cmd s)) (f_out fr) rbuf' (answered st n) OUTPUT_APDU),
        rules_length (with_response resp (with_command cmd s)) rbuf' (answered st n) OUTPUT_APDU), t) \<and>
    visible t = visible (count_exchange (with_response resp
      (count_sent (rewritten_length s fr cmd cb) (with_command cmd s))))"
proof -
  let ?L = "rewritten_length s fr cmd cb" and ?B = "blit (sent_buffer fr cmd) 0 (rewritten s fr cmd cb)"
  let ?s1 = "with_command cmd s"
  obtain t0 where t0: "record_command h sbuf cb s = (Inr (), t0)" "visible t0 = visible ?s1"
    using record_command_ok[OF cmd(2-4)] cmd(1) by blast
  have "bMODIFY_APDU_BY_RULES (m_winscardConfig ?s1)" using cfg(1) by (simp add: with_command_def)
  from rewrite_command_rules[OF this t0(2), of "f_in fr" "f_send fr" cb sbuf] safe_in
  obtain t1 where t1: "rewrite_command (f_send fr) (f_in fr) sbuf cb t0 = (Inr (?B, ?L), t1)"
    "visible t1 = visible (count_sent ?L ?s1)"
    by (auto simp: sent_buffer_def rewritten_def rewritten_length_def cmd(1))
  have before: "before_card (f_send fr) (f_in fr) h sbuf cb s = (Inr (?B, ?L), t1)"
    using t0 t1 by (simp add: before_card_def)
  have c: "m_winscardConfig t1 = m_winscardConfig s" "remoteReadersMap t1 = remoteReadersMap s"
    using visible_same(5,7)[OF t1(2)] by (simp_all add: count_sent_def with_command_def)
  have sent: "take (unat ?L) ?B = rewritten s fr cmd cb"
    using take_rules_result[OF safe_in] by (simp add: rewritten_def rewritten_length_def)
  let ?x = "\<lparr>x_send = ?B, x_cb = ?L, x_recv = rbuf', x_pcb = n, x_pci = pci, x_result = st\<rparr>"
  have shape: "SCardTransmit (Some f) fr h spci sbuf cb rpci rbuf pcb s =
      Some (after_card (f_out fr) (f_card_ms fr) (f_library_ms fr) ?x t1)"
    by (rule transmit_shape[OF before]) (use c cfg loc card sent in \<open>auto simp: IsRemoteCard_def\<close>)
  have n: "answer_length ?x = answered st n" by (simp add: answer_length_def answered_def)
  have b: "unat (answered st n) \<le> MAX_APDU_LENGTH" "unat (answered st n) \<le> length rbuf'"
    using safe_out by (simp_all add: rules_safe_def buffers_ok_def)
  let ?s2 = "with_response resp ?s1"
  have out: "\<exists>u. rewrite_response (f_out fr) rbuf' (answered st n) t =
      (Inr (blit rbuf' 0 (rules_result ?s2 (f_out fr) rbuf' (answered st n) OUTPUT_APDU),
            rules_length ?s2 rbuf' (answered st n) OUTPUT_APDU), u) \<and> visible u = visible t"
    if v: "visible t = visible (with_response resp t1)" for t
  proof -
    let ?s3 = "count_sent ?L ?s2"
    have v3: "visible t = visible ?s3"
      unfolding v visible_with(2)[OF t1(2)]
      by (simp only: response_count)
    have hist: "apduInList ?s3 = apduInList ?s2" "apduOutList ?s3 = apduOutList ?s2"
      and rl: "rulesList ?s3 = rulesList ?s2" "m_bRulesActive ?s3 = m_bRulesActive ?s2"
      by (simp_all add: count_sent_def)
    note same = same_history[OF hist]
    have len: "rules_length ?s3 = rules_length ?s2" by (simp add: fun_eq_iff rules_length_def same rl)
    have res: "rules_result ?s3 = rules_result ?s2" by (simp add: fun_eq_iff rules_result_def same rl len)
    have safe3: "rules_safe ?s3 (f_out fr) rbuf' (answered st n) OUTPUT_APDU"
      using safe_out by (simp add: rules_safe_def buffers_ok_def same rl len)
    have "bMODIFY_APDU_BY_RULES (m_winscardConfig ?s3)"
      using cfg(1) by (simp add: count_sent_def with_response_def with_command_def)
    from rewrite_response_rules[OF this v3 safe3] show ?thesis by (simp add: len res v3)
  qed
  have resp': "resp = take (unat (answer_length ?x)) (x_recv ?x)" by (simp add: n resp)
  have "\<exists>t. after_card (f_out fr) (f_card_ms fr) (f_library_ms fr) ?x t1 =
      (Inr (x_result ?x, x_pci ?x, blit rbuf' 0 (rules_result ?s2 (f_out fr) rbuf' (answered st n) OUTPUT_APDU),
            rules_length ?s2 rbuf' (answered st n) OUTPUT_APDU), t) \<and>
    visible t = visible (count_exchange (with_response (take (unat (answer_length ?x)) (x_recv ?x)) t1))"
    by (rule after_card_ok) (use b out resp' n in \<open>simp_all\<close>)
  then show ?thesis
    using shape visible_exchange[OF visible_with(2)[OF t1(2), of resp]] resp' by auto
qed

subsection \<open>Properties\<close>

text \<open>
  C1: The library is a man in the middle. For a local card and with the rules in use, a call of
  \<open>SCardTransmit\<close> sends the card the command as the incoming rules rewrite it (consulting a history
  that begins with the original command), and gives the application the card's answer as the
  outgoing rules rewrite it (consulting a history that begins with the original answer), together
  with the card's status and protocol structure. Both originals are recorded, the counters of
  exchanges and of sent bytes advance, and besides log and delays nothing else changes.
\<close>

theorem transmit_applies_rules:
  assumes cfg: "bMODIFY_APDU_BY_RULES (m_winscardConfig s)" "\<not> bAUTO_REQUEST_DATA (m_winscardConfig s)"
      "\<not> bFORCE_APDU_NONZERO_INPUT_DATA (m_winscardConfig s)"
    and loc: "\<not> IsRemoteCard h s"
    and cmd: "cmd = take (unat cb) sbuf" "unat cb \<le> MAX_APDU_LENGTH" "unat cb \<le> length sbuf" "loggable s sbuf"
    and safe_in: "rules_safe (with_command cmd s) (f_in fr) (sent_buffer fr cmd) cb INPUT_APDU"
    and card: "f 0 (h, spci, rewritten s fr cmd cb, rpci, rbuf, pcb) = (st, pci, rbuf', n)"
    and resp: "resp = take (unat (answered st n)) rbuf'"
    and safe_out: "rules_safe (with_response resp (with_command cmd s)) (f_out fr) rbuf' (answered st n) OUTPUT_APDU"
  shows "\<exists>t. SCardTransmit (Some f) fr h spci sbuf cb rpci rbuf pcb s =
      Some (Inr (st, pci,
        blit rbuf' 0 (rules_result (with_response resp (with_command cmd s)) (f_out fr) rbuf' (answered st n) OUTPUT_APDU),
        rules_length (with_response resp (with_command cmd s)) rbuf' (answered st n) OUTPUT_APDU), t) \<and>
    visible t = visible (count_exchange (with_response resp
      (count_sent (rewritten_length s fr cmd cb) (with_command cmd s))))"
  using assms by (rule transmit_with_rules)

text \<open>A card that answers every command with 90 00, and a call frame of zeros.\<close>

definition ok_card :: "nat \<Rightarrow> (unit, unit) transmit_fn" where
  "ok_card k = (\<lambda>(h, spci, cmd, pci, buf, n). (SCARD_S_SUCCESS, pci, blit buf 0 [0x90, 0x00], 2))"

definition zero_frame :: frame where
  "zero_frame = \<lparr>f_send = replicate MAX_APDU_LENGTH 0, f_in = replicate MAX_APDU_LENGTH 0,
     f_out = replicate MAX_APDU_LENGTH 0, f_card_ms = 0, f_library_ms = 0\<rparr>"

lemma zero_frame_sel [simp]:
  "f_send zero_frame = replicate MAX_APDU_LENGTH 0" "f_in zero_frame = replicate MAX_APDU_LENGTH 0"
  "f_out zero_frame = replicate MAX_APDU_LENGTH 0"
  by (simp_all add: zero_frame_def)

definition rules_app :: app where
  "rules_app = select_app\<lparr>m_winscardConfig := (m_winscardConfig select_app)\<lparr>bMODIFY_APDU_BY_RULES := True\<rparr>\<rparr>"

lemma rules_app_sel [simp]:
  "m_bRulesActive rules_app" "rulesList rules_app = [select_rule]"
  "apduInList rules_app = [padded select_apdu]" "apduOutList rules_app = [replicate MAX_APDU_LENGTH 0]"
  "bMODIFY_APDU_BY_RULES (m_winscardConfig rules_app)" "\<not> bAUTO_REQUEST_DATA (m_winscardConfig rules_app)"
  "\<not> bFORCE_APDU_NONZERO_INPUT_DATA (m_winscardConfig rules_app)" "\<not> IsRemoteCard h rules_app"
  "\<not> bLOG_EXCHANGED_APDU (m_winscardConfig rules_app)"
  by (simp_all add: rules_app_def padded_def IsRemoteCard_def select_app_def quiet_app_def app_init_def
      WINSCARD_CONFIG_new_def WINSCARD_CONFIG_clear_def)

lemma select_rule_sel [simp]:
  "r_direction select_rule = INPUT_APDU" "r_usage select_rule = 1" "r_msDelay select_rule = 0"
  by (simp_all add: select_rule_def APDU_RULE_new_def)

lemma rule_ok_select: "apduInList s \<noteq> [] \<Longrightarrow> rule_ok s select_rule"
  by (simp add: rule_ok_def select_rule_def match_ok_def in_buffer_def elem_defs APDU_RULE_new_def)

lemma select_fires:
  "apduInList s = padded select_apdu # as \<Longrightarrow> fired s INPUT_APDU [select_rule] = [select_rule]"
  "fired s OUTPUT_APDU [select_rule] = []"
  by (simp_all add: fired_def rule_matches_def select_rule_def match_byte_def apdu_at_def elem_defs
      select_apdu_def APDU_RULE_new_def blit_def padded_def)

lemma rules_app_in:
  "rules_safe (with_command select_apdu rules_app) (replicate MAX_APDU_LENGTH 0)
     (sent_buffer zero_frame select_apdu) 7 INPUT_APDU"
  "rewritten_length rules_app zero_frame select_apdu 7 = 7"
  "rewritten rules_app zero_frame select_apdu 7 = [0x80, 0xA4, 0x04, 0x00, 0x02, 0x3F, 0x00]"
proof -
  let ?s = "with_command select_apdu rules_app"
  have f: "fired ?s INPUT_APDU (rulesList ?s) = [select_rule]"
    by (simp add: with_command_def select_fires)
  have b: "sent_buffer zero_frame select_apdu = select_apdu @ replicate 293 0"
    by (simp add: sent_buffer_def blit_0 select_apdu_def MAX_APDU_LENGTH_def)
  have L: "rules_length ?s (sent_buffer zero_frame select_apdu) 7 INPUT_APDU = 7"
    unfolding rules_length_def Let_def f b by (simp add: select_apdu_def)
  then show "rewritten_length rules_app zero_frame select_apdu 7 = 7" by (simp add: rewritten_length_def)
  have h: "hist_wf ?s"
    by (simp add: hist_wf_def with_command_def length_select_apdu MAX_APDU_LENGTH_def padded_def)
  have "buffers_ok ?s (replicate MAX_APDU_LENGTH 0) (sent_buffer zero_frame select_apdu) 7 INPUT_APDU"
    using L unfolding buffers_ok_def b by (simp add: length_select_apdu MAX_APDU_LENGTH_def)
  moreover have "rule_ok ?s select_rule" by (rule rule_ok_select) (simp add: with_command_def)
  ultimately show "rules_safe ?s (replicate MAX_APDU_LENGTH 0) (sent_buffer zero_frame select_apdu) 7 INPUT_APDU"
    using h by (simp add: rules_safe_def with_command_def)
  show "rewritten rules_app zero_frame select_apdu 7 = [0x80, 0xA4, 0x04, 0x00, 0x02, 0x3F, 0x00]"
    unfolding rewritten_def rules_result_def L f unfolding b
    by (simp add: patches_def patch_all_def select_rule_def APDU_RULE_new_def elem_defs select_apdu_def blit_def)
qed

lemma rules_app_out:
  fixes n :: dword
  assumes "unat n \<le> 6"
  shows "rules_safe (with_response (take (unat n) buf) (with_command select_apdu rules_app)) (replicate MAX_APDU_LENGTH 0)
      [0x90, 0x00, 0, 0, 0, 0] n OUTPUT_APDU"
    and "rules_length (with_response (take (unat n) buf) (with_command select_apdu rules_app))
      [0x90, 0x00, 0, 0, 0, 0] n OUTPUT_APDU = n"
    and "rules_result (with_response (take (unat n) buf) (with_command select_apdu rules_app)) (replicate MAX_APDU_LENGTH 0)
      [0x90, 0x00, 0, 0, 0, 0] n OUTPUT_APDU = take (unat n) [0x90, 0x00, 0, 0, 0, 0]"
proof -
  let ?s = "with_response (take (unat n) buf) (with_command select_apdu rules_app)"
  have f: "fired ?s OUTPUT_APDU (rulesList ?s) = []"
    by (simp add: with_command_def with_response_def select_fires)
  show L: "rules_length ?s [0x90, 0x00, 0, 0, 0, 0] n OUTPUT_APDU = n"
    unfolding rules_length_def Let_def f by (simp add: elem_defs)
  have "length (take (unat n) buf) \<le> MAX_APDU_LENGTH" using assms by (simp add: MAX_APDU_LENGTH_def)
  then have "hist_wf ?s"
    by (simp add: hist_wf_def with_command_def with_response_def length_select_apdu MAX_APDU_LENGTH_def)
  moreover have "buffers_ok ?s (replicate MAX_APDU_LENGTH 0) [0x90, 0x00, 0, 0, 0, 0] n OUTPUT_APDU"
    using assms unfolding buffers_ok_def L by (simp add: MAX_APDU_LENGTH_def)
  moreover have "rule_ok ?s select_rule" by (rule rule_ok_select) (simp add: with_command_def with_response_def)
  ultimately show "rules_safe ?s (replicate MAX_APDU_LENGTH 0) [0x90, 0x00, 0, 0, 0, 0] n OUTPUT_APDU"
    by (simp add: rules_safe_def with_command_def with_response_def)
  show "rules_result ?s (replicate MAX_APDU_LENGTH 0) [0x90, 0x00, 0, 0, 0, 0] n OUTPUT_APDU =
      take (unat n) [0x90, 0x00, 0, 0, 0, 0]"
    using assms unfolding rules_result_def L f by (simp add: blit_0)
qed

theorem transmit_applies_rules_witness:
  "\<exists>t. SCardTransmit (Some ok_card) zero_frame 5 () select_apdu 7 () [0, 0, 0, 0, 0, 0] 6 rules_app =
      Some (Inr (SCARD_S_SUCCESS, (), [0x90, 0x00, 0, 0, 0, 0], 2), t) \<and>
    apduInList t = [padded select_apdu, padded select_apdu]"
proof -
  have card: "ok_card 0 (5, (), rewritten rules_app zero_frame select_apdu 7, (), [0, 0, 0, 0, 0, 0], 6) =
      (SCARD_S_SUCCESS, (), [0x90, 0x00, 0, 0, 0, 0], 2)"
    by (simp add: ok_card_def blit_def)
  have cmd: "select_apdu = take (unat (7 :: dword)) select_apdu" by (simp add: length_select_apdu)
  have a: "answered SCARD_S_SUCCESS 2 = 2" by (simp add: answered_def)
  note in_ok = rules_app_in(1)
  note out = rules_app_out[of 2 "[0x90, 0x00, 0, 0, 0, 0]", simplified]
  obtain t where t: "SCardTransmit (Some ok_card) zero_frame 5 () select_apdu 7 () [0, 0, 0, 0, 0, 0] 6 rules_app =
      Some (Inr (SCARD_S_SUCCESS, (), blit [0x90, 0x00, 0, 0, 0, 0] 0 [0x90, 0x00], 2), t)"
    and v: "visible t = visible (count_exchange (with_response [0x90, 0x00]
      (count_sent (rewritten_length rules_app zero_frame select_apdu 7) (with_command select_apdu rules_app))))"
    using transmit_applies_rules[of rules_app 5 select_apdu 7 select_apdu zero_frame ok_card "()" "()"
        "[0, 0, 0, 0, 0, 0]" 6 SCARD_S_SUCCESS "()" "[0x90, 0x00, 0, 0, 0, 0]" 2 "[0x90, 0x00]"]
      cmd in_ok card out a
    by (auto simp: length_select_apdu MAX_APDU_LENGTH_def loggable_def)
  moreover have "blit [0x90, 0x00, 0, 0, 0, 0] 0 [0x90, 0x00] = [0x90 :: byte, 0x00, 0, 0, 0, 0]" by (simp add: blit_def)
  moreover have "apduInList t = [padded select_apdu, padded select_apdu]"
    using visible_same(1)[OF v] by (simp add: count_exchange_def with_response_def count_sent_def with_command_def)
  ultimately show ?thesis by auto
qed

text \<open>The rules are switched off, or were not loaded.\<close>

definition rules_idle :: "app \<Rightarrow> bool" where
  "rules_idle s \<longleftrightarrow> \<not> bMODIFY_APDU_BY_RULES (m_winscardConfig s) \<or> \<not> m_bRulesActive s"

lemma rewrite_command_idle:
  assumes "rules_idle t"
  shows "\<exists>u. rewrite_command junk stack buf n t = (Inr (blit junk 0 (take (unat n) buf), n), u) \<and>
    visible u = visible (count_sent n t)"
proof (cases "bMODIFY_APDU_BY_RULES (m_winscardConfig t)")
  case False
  then show ?thesis by (simp add: rewrite_command_plain)
next
  case True
  let ?b = "blit junk 0 (take (unat n) buf)"
  obtain t1 where t1: "log_rules_header ''Incoming'' t = (Inr (), t1)" "visible t1 = visible t"
    using only_logsD[OF only_logs_message(2)] by blast
  obtain t2 where t2: "log_message (take (unat n) buf) t1 = (Inr (), t2)" "visible t2 = visible t1"
    using only_logsD[OF only_logs_message(1)] by blast
  have v2: "visible t2 = visible t" using t1(2) t2(2) by simp
  then have "\<not> m_bRulesActive t2" using assms True visible_same(4)[OF v2] by (simp add: rules_idle_def)
  then have a: "ApplyRules stack ?b n INPUT_APDU t2 = (Inr (STAT_OK, ?b, n), t2)" by (simp add: ApplyRules_def)
  obtain t4 where t4: "log_message (take (unat n) ?b) t2 = (Inr (), t4)" "visible t4 = visible t2"
    using only_logsD[OF only_logs_message(1)] by blast
  from visible_count[of t4 t n] show ?thesis using True t1(1) t2(1) a t4 v2
    by (simp add: rewrite_command_def bindA_unfold count_sent_def Let_def)
qed

lemma rewrite_response_idle:
  assumes "rules_idle t"
  shows "\<exists>u. rewrite_response stack buf n t = (Inr (buf, n), u) \<and> visible u = visible t"
proof (cases "bMODIFY_APDU_BY_RULES (m_winscardConfig t)")
  case False
  then show ?thesis by (simp add: rewrite_response_plain)
next
  case True
  obtain t1 where t1: "log_rules_header ''Outgoing'' t = (Inr (), t1)" "visible t1 = visible t"
    using only_logsD[OF only_logs_message(2)] by blast
  obtain t2 where t2: "log_message (take (unat n) buf) t1 = (Inr (), t2)" "visible t2 = visible t1"
    using only_logsD[OF only_logs_message(1)] by blast
  have v2: "visible t2 = visible t" using t1(2) t2(2) by simp
  then have "\<not> m_bRulesActive t2" using assms True visible_same(4)[OF v2] by (simp add: rules_idle_def)
  then have a: "ApplyRules stack buf n OUTPUT_APDU t2 = (Inr (STAT_OK, buf, n), t2)" by (simp add: ApplyRules_def)
  obtain t4 where t4: "log_message (take (unat n) buf) t2 = (Inr (), t4)" "visible t4 = visible t2"
    using only_logsD[OF only_logs_message(1)] by blast
  then show ?thesis using True t1(1) t2(1) a v2 by (simp add: rewrite_response_def bindA_unfold)
qed

lemma idle_visible: "visible t = visible s \<Longrightarrow> rules_idle t = rules_idle s"
  using visible_same[of t s] by (simp add: rules_idle_def)

lemma frame_idle [simp]:
  "rules_idle (with_command a s) = rules_idle s" "rules_idle (with_response a s) = rules_idle s"
  "rules_idle (count_sent n s) = rules_idle s" "rules_idle (count_exchange s) = rules_idle s"
  "m_winscardConfig (with_command a s) = m_winscardConfig s" "m_winscardConfig (with_response a s) = m_winscardConfig s"
  "m_winscardConfig (count_sent n s) = m_winscardConfig s" "m_winscardConfig (count_exchange s) = m_winscardConfig s"
  "IsRemoteCard h (with_command a s) = IsRemoteCard h s" "IsRemoteCard h (count_sent n s) = IsRemoteCard h s"
  by (simp_all add: rules_idle_def with_command_def with_response_def count_sent_def count_exchange_def IsRemoteCard_def)

text \<open>Both ends of a call without rules.\<close>

lemma before_card_idle:
  assumes "rules_idle s" and "unat n \<le> MAX_APDU_LENGTH" and "unat n \<le> length buf" and "loggable s buf"
  shows "\<exists>t. before_card junk stack h buf n s = (Inr (blit junk 0 (take (unat n) buf), n), t) \<and>
    visible t = visible (count_sent n (with_command (take (unat n) buf) s))"
proof -
  let ?s1 = "with_command (take (unat n) buf) s"
  obtain t0 where t0: "record_command h buf n s = (Inr (), t0)" "visible t0 = visible ?s1"
    using record_command_ok[OF assms(2-4)] by blast
  have "rules_idle t0" using idle_visible[OF t0(2)] assms(1) by simp
  from rewrite_command_idle[OF this, of junk stack buf n] show ?thesis
    using t0 visible_count[OF t0(2), of n] by (simp add: before_card_def)
qed

lemma after_card_idle:
  assumes "rules_idle s" and "unat (answer_length x) \<le> MAX_APDU_LENGTH" and "unat (answer_length x) \<le> length (x_recv x)"
  shows "\<exists>t. after_card stack ms1 ms2 x s = (Inr (x_result x, x_pci x, x_recv x, answer_length x), t) \<and>
    visible t = visible (count_exchange (with_response (take (unat (answer_length x)) (x_recv x)) s))"
proof (rule after_card_ok[OF assms(2,3)])
  fix t assume v: "visible t = visible (with_response (take (unat (answer_length x)) (x_recv x)) s)"
  have "rules_idle t" using idle_visible[OF v] assms(1) by simp
  then show "\<exists>u. rewrite_response stack (x_recv x) (answer_length x) t = (Inr (x_recv x, answer_length x), u) \<and>
      visible u = visible t"
    by (rule rewrite_response_idle)
qed

text \<open>The command as it is handed to the card.\<close>

lemma take_sent:
  "unat n \<le> length buf \<Longrightarrow> take (unat n) (blit junk 0 (take (unat n) buf)) = take (unat n) buf"
  by (simp add: take_blit_0)

text \<open>
  C25: Without rules the library is transparent. For a local card, with rules switched off or not
  loaded, no forced input data and no read-out of the answer, the card gets exactly the
  application's command and the application exactly the card's answer, protocol structure and
  status; only the reported length is 0 if the card's call failed. Both are recorded.
\<close>

theorem transmit_transparent:
  assumes "rules_idle s" and "\<not> IsRemoteCard h s"
    and "\<not> bFORCE_APDU_NONZERO_INPUT_DATA (m_winscardConfig s)"
    and "unat cb \<le> MAX_APDU_LENGTH" and "unat cb \<le> length sbuf" and "loggable s sbuf"
    and card: "f 0 (h, spci, take (unat cb) sbuf, rpci, rbuf, pcb) = (st, pci, rbuf', n)"
    and "\<not> (n = 2 \<and> bAUTO_REQUEST_DATA (m_winscardConfig s))"
    and "unat (answered st n) \<le> MAX_APDU_LENGTH" and "unat (answered st n) \<le> length rbuf'"
  shows "\<exists>t. SCardTransmit (Some f) fr h spci sbuf cb rpci rbuf pcb s =
      Some (Inr (st, pci, rbuf', answered st n), t) \<and>
    visible t = visible (count_exchange (with_response (take (unat (answered st n)) rbuf')
      (count_sent cb (with_command (take (unat cb) sbuf) s))))"
proof -
  obtain t where t: "before_card (f_send fr) (f_in fr) h sbuf cb s =
      (Inr (blit (f_send fr) 0 (take (unat cb) sbuf), cb), t)"
    "visible t = visible (count_sent cb (with_command (take (unat cb) sbuf) s))"
    using before_card_idle[OF assms(1,4-6)] by blast
  have c: "m_winscardConfig t = m_winscardConfig s" "rules_idle t" "\<not> IsRemoteCard h t"
    using visible_same(5)[OF t(2)] idle_visible[OF t(2)] local_visible[OF t(2)] assms(1,2) by simp_all
  let ?x = "\<lparr>x_send = blit (f_send fr) 0 (take (unat cb) sbuf), x_cb = cb, x_recv = rbuf', x_pcb = n,
     x_pci = pci, x_result = st\<rparr>"
  have shape: "SCardTransmit (Some f) fr h spci sbuf cb rpci rbuf pcb s =
      Some (after_card (f_out fr) (f_card_ms fr) (f_library_ms fr) ?x t)"
    by (rule transmit_shape[OF t(1)])
      (use assms(3,8) c in \<open>simp_all only: take_sent[OF assms(5)] card not_False_eq_True\<close>)
  have n: "answer_length ?x = answered st n" by (simp add: answer_length_def answered_def)
  have "\<exists>u. after_card (f_out fr) (f_card_ms fr) (f_library_ms fr) ?x t =
      (Inr (x_result ?x, x_pci ?x, x_recv ?x, answer_length ?x), u) \<and>
    visible u = visible (count_exchange (with_response (take (unat (answer_length ?x)) (x_recv ?x)) t))"
    by (rule after_card_idle) (use c n assms(9,10) in simp_all)
  then show ?thesis
    using shape n visible_exchange[OF visible_with(2)[OF t(2), of "take (unat (answered st n)) rbuf'"]] by auto
qed

lemma quiet_app_cfg [simp]:
  "rules_idle quiet_app" "\<not> bFORCE_APDU_NONZERO_INPUT_DATA (m_winscardConfig quiet_app)"
  "\<not> bAUTO_REQUEST_DATA (m_winscardConfig quiet_app)" "\<not> IsRemoteCard h quiet_app" "loggable quiet_app buf"
  by (simp_all add: rules_idle_def loggable_def IsRemoteCard_def quiet_app_def app_init_def WINSCARD_CONFIG_new_def
      WINSCARD_CONFIG_clear_def)

theorem transmit_transparent_witness:
  "\<exists>t. SCardTransmit (Some ok_card) zero_frame 5 () select_apdu 7 () [0, 0, 0] 3 quiet_app =
      Some (Inr (SCARD_S_SUCCESS, (), [0x90, 0x00, 0], 2), t) \<and>
    visible t = visible (count_exchange (with_response [0x90, 0x00] (count_sent 7 (with_command select_apdu quiet_app))))"
  using transmit_transparent[of quiet_app 5 7 select_apdu ok_card "()" "()" "[0, 0, 0]" 3 SCARD_S_SUCCESS "()"
      "[0x90, 0x00, 0]" 2 zero_frame]
  by (simp add: length_select_apdu MAX_APDU_LENGTH_def ok_card_def blit_def answered_def)

text \<open>
  C38: Commands longer than 300 bytes overrun the library's buffers. Whatever the configuration,
  the call writes behind its 300-byte buffers before the card sees anything.
\<close>

theorem transmit_long_command_overruns:
  assumes "MAX_APDU_LENGTH < unat cb" and "unat cb \<le> length sbuf" and "loggable s sbuf"
  shows "\<exists>t. SCardTransmit orig fr h spci sbuf cb rpci rbuf pcb s = Some (Inl Out_Of_Bounds, t) \<and>
    visible t = visible s"
proof -
  let ?s0 = "LogWinscardRules (''SCardTransmit called'' @ [NL]) s"
  have "loggable ?s0 sbuf" using assms(3) by (simp add: loggable_def)
  then obtain t where t: "log_command h sbuf cb ?s0 = (Inr (), t)" "visible t = visible ?s0"
    using log_command_ok[OF assms(2)] by blast
  have "apdu_buffer sbuf cb = Inl Out_Of_Bounds" using assms(1) by (simp add: apdu_buffer_def guardE_def)
  then show ?thesis using t
    by (simp add: SCardTransmit_def andthen_def before_card_def record_command_def save_incoming_def bindA_def)
qed

theorem transmit_long_command_overruns_witness:
  "\<exists>t. SCardTransmit (Some ok_card) zero_frame 5 () (replicate 301 0) 301 () [0, 0, 0] 3 quiet_app =
      Some (Inl Out_Of_Bounds, t) \<and> visible t = visible quiet_app"
  by (rule transmit_long_command_overruns) (simp_all add: MAX_APDU_LENGTH_def)

subsection \<open>Reading out the answer of a local card\<close>

definition status_61 :: "byte \<Rightarrow> bool" where
  "status_61 b \<longleftrightarrow> b = 0x61 \<or> b = 0x6C"

definition wanted :: "byte \<Rightarrow> byte" where
  "wanted sw2 = (if sw2 = 0 then 254 else sw2)"

lemma get_data_stop:
  assumes "off < length (x_recv x)" and "\<not> status_61 (x_recv x ! off)"
  shows "get_data_loop orig k h spci off x s = Some (Inr x, s)"
  using assms by (subst get_data_loop.simps) (simp add: status_61_def)

lemma get_data_round:
  assumes "\<not> IsRemoteCard h s" and "off < length (x_recv x)" and "status_61 (x_recv x ! off)"
    and "unat (x_pcb x - 1) < length (x_recv x)" and "nle = wanted (x_recv x ! unat (x_pcb x - 1))"
    and "5 \<le> length (x_send x)"
    and card: "f k (h, spci, [0x00, 0xC0, 0x00, 0x00, nle], x_pci x, drop off (x_recv x), ucast nle + 2) = (st, pci, buf, n)"
  shows "get_data_loop (Some f) k h spci off x s =
    get_data_loop (Some f) (Suc k) h spci (unat (n - 2))
      (x\<lparr>x_send := [0x00, 0xC0, 0x00, 0x00, nle] @ drop 5 (x_send x), x_cb := 5,
         x_recv := take off (x_recv x) @ buf, x_pcb := n, x_pci := pci, x_result := st\<rparr>) s"
proof -
  obtain a b c d e r where send: "x_send x = a # b # c # d # e # r"
    using assms(6) by (auto simp: Suc_le_length_iff numeral_eq_Suc)
  let ?x1 = "x\<lparr>x_send := [0x00, 0xC0, 0x00, 0x00, nle] @ r, x_cb := 5, x_pcb := ucast nle + 2\<rparr>"
  have cmd: "get_data_command x = Inr ?x1"
    using assms(4,5) by (simp add: get_data_command_def wanted_def Let_def send)
  have "send_apdu (Some f) k h spci returnA off ?x1 s =
      (Inr (?x1\<lparr>x_recv := take off (x_recv ?x1) @ buf, x_pcb := n, x_pci := pci, x_result := st\<rparr>), s)"
    by (rule send_local[OF assms(1)]) (use card in simp_all)
  then show ?thesis
    using assms(2,3) cmd by (subst get_data_loop.simps) (simp add: status_61_def send)
qed

text \<open>A call whose first answer is two bytes long, up to the read-out.\<close>

lemma transmit_read_out:
  assumes "rules_idle s" and "\<not> IsRemoteCard h s"
    and "\<not> bFORCE_APDU_NONZERO_INPUT_DATA (m_winscardConfig s)" and "bAUTO_REQUEST_DATA (m_winscardConfig s)"
    and "unat cb \<le> MAX_APDU_LENGTH" and "unat cb \<le> length sbuf" and "loggable s sbuf"
    and card: "f 0 (h, spci, take (unat cb) sbuf, rpci, rbuf, pcb) = (st, pci, rbuf', 2)"
  shows "\<exists>t. visible t = visible (count_sent cb (with_command (take (unat cb) sbuf) s)) \<and>
    SCardTransmit (Some f) fr h spci sbuf cb rpci rbuf pcb s =
      (case get_data_loop (Some f) 1 h spci 0
              \<lparr>x_send = blit (f_send fr) 0 (take (unat cb) sbuf), x_cb = cb, x_recv = rbuf', x_pcb = 2,
               x_pci = pci, x_result = st\<rparr> t of
         None \<Rightarrow> None
       | Some r \<Rightarrow> andthen (\<lambda>_. r) (\<lambda>y t. Some (after_card (f_out fr) (f_card_ms fr) (f_library_ms fr) y t)) t)"
proof -
  let ?b = "blit (f_send fr) 0 (take (unat cb) sbuf)"
  obtain t where t: "before_card (f_send fr) (f_in fr) h sbuf cb s = (Inr (?b, cb), t)"
    "visible t = visible (count_sent cb (with_command (take (unat cb) sbuf) s))"
    using before_card_idle[OF assms(1,5-7)] by blast
  have c: "m_winscardConfig t = m_winscardConfig s" "\<not> IsRemoteCard h t"
    using visible_same(5)[OF t(2)] local_visible[OF t(2)] assms(2) by simp_all
  let ?x = "\<lparr>x_send = ?b, x_cb = cb, x_recv = rbuf, x_pcb = pcb, x_pci = rpci, x_result = SCARD_S_SUCCESS\<rparr>"
  have "force_nonzero ?x t = (Inr ?x, t)" by (rule force_nonzero_off) (use c assms(3) in simp)
  then have "first_exchange (Some f) h spci ?x t =
      (Inr \<lparr>x_send = ?b, x_cb = cb, x_recv = rbuf', x_pcb = 2, x_pci = pci, x_result = st\<rparr>, t)"
    unfolding first_exchange_def
    using send_local[of h t force_nonzero ?x ?x f 0 spci 0 st pci rbuf' 2] card c(2)
    by (simp only: simp_thms xfer.simps take_sent[OF assms(6)] drop_0 take_0 append_Nil)
  then show ?thesis using t c(1) assms(4)
    by (intro exI[of _ t]) (simp add: SCardTransmit_def andthen_def read_out_def)
qed

lemma length_sent [simp]:
  "length (f_send fr) = MAX_APDU_LENGTH \<Longrightarrow> length (take n sbuf) \<le> MAX_APDU_LENGTH \<Longrightarrow>
    length (blit (f_send fr) 0 (take n sbuf)) = MAX_APDU_LENGTH"
  by simp

text \<open>The end of a call after the read-out.\<close>

lemma transmit_read_out_end:
  assumes "rules_idle s" and "visible t = visible (count_sent cb (with_command cmd s))"
    and "unat (answer_length y) \<le> MAX_APDU_LENGTH" and "unat (answer_length y) \<le> length (x_recv y)"
  shows "\<exists>u. andthen (\<lambda>_. (Inr y, t)) (\<lambda>y t. Some (after_card (f_out fr) (f_card_ms fr) (f_library_ms fr) y t)) t =
      Some (Inr (x_result y, x_pci y, x_recv y, answer_length y), u) \<and>
    apduOutList u = padded (take (unat (answer_length y)) (x_recv y)) # apduOutList s"
proof -
  have "rules_idle t" using idle_visible[OF assms(2)] assms(1) by simp
  from after_card_idle[OF this assms(3,4), of "f_out fr" "f_card_ms fr" "f_library_ms fr"] obtain u where
    u: "after_card (f_out fr) (f_card_ms fr) (f_library_ms fr) y t =
      (Inr (x_result y, x_pci y, x_recv y, answer_length y), u)"
    "visible u = visible (count_exchange (with_response (take (unat (answer_length y)) (x_recv y)) t))"
    by blast
  have "apduOutList u = padded (take (unat (answer_length y)) (x_recv y)) # apduOutList t"
    using visible_same(2)[OF u(2)] by (simp add: count_exchange_def with_response_def)
  then show ?thesis using u(1) visible_same(2)[OF assms(2)]
    by (simp add: andthen_def count_sent_def with_command_def)
qed

text \<open>The parameters of a transparent call with read-out on a local card.\<close>

definition reads_out :: "app \<Rightarrow> frame \<Rightarrow> handle \<Rightarrow> byte list \<Rightarrow> dword \<Rightarrow> bool" where
  "reads_out s fr h sbuf cb \<longleftrightarrow>
     rules_idle s \<and> \<not> IsRemoteCard h s \<and> \<not> bFORCE_APDU_NONZERO_INPUT_DATA (m_winscardConfig s) \<and>
     bAUTO_REQUEST_DATA (m_winscardConfig s) \<and> unat cb \<le> MAX_APDU_LENGTH \<and> unat cb \<le> length sbuf \<and>
     loggable s sbuf \<and> length (f_send fr) = MAX_APDU_LENGTH"

text \<open>
  A single read-out is transparent to the application. When the card answers a command with
  two bytes \<open>61 xx\<close> or \<open>6C xx\<close>, the library asks it once for the \<open>xx\<close> bytes (254 for 0), and if
  the status bytes of that answer are not again \<open>61\<close> or \<open>6C\<close>, the application receives this answer
  with its length and status, and it is what the history records.
\<close>

theorem get_data_reads_answer:
  assumes cfg: "reads_out s fr h sbuf cb"
    and first: "f 0 (h, spci, take (unat cb) sbuf, rpci, rbuf, pcb) = (st1, pci1, buf1, 2)"
      "2 \<le> length buf1" "status_61 (buf1 ! 0)"
    and second: "f 1 (h, spci, [0x00, 0xC0, 0x00, 0x00, wanted (buf1 ! 1)], pci1, buf1, ucast (wanted (buf1 ! 1)) + 2) =
        (st2, pci2, buf2, n2)" "unat (n2 - 2) < length buf2" "\<not> status_61 (buf2 ! unat (n2 - 2))"
    and fits: "unat (answered st2 n2) \<le> MAX_APDU_LENGTH" "unat (answered st2 n2) \<le> length buf2"
  shows "\<exists>u. SCardTransmit (Some f) fr h spci sbuf cb rpci rbuf pcb s =
      Some (Inr (st2, pci2, buf2, answered st2 n2), u) \<and>
    apduOutList u = padded (take (unat (answered st2 n2)) buf2) # apduOutList s"
proof -
  note c = cfg[unfolded reads_out_def]
  let ?b = "blit (f_send fr) 0 (take (unat cb) sbuf)"
  let ?x = "\<lparr>x_send = ?b, x_cb = cb, x_recv = buf1, x_pcb = 2, x_pci = pci1, x_result = st1\<rparr>"
  let ?y = "\<lparr>x_send = [0x00, 0xC0, 0x00, 0x00, wanted (buf1 ! 1)] @ drop 5 ?b, x_cb = 5, x_recv = buf2,
    x_pcb = n2, x_pci = pci2, x_result = st2\<rparr>"
  obtain t where t: "visible t = visible (count_sent cb (with_command (take (unat cb) sbuf) s))"
    and run: "SCardTransmit (Some f) fr h spci sbuf cb rpci rbuf pcb s =
      (case get_data_loop (Some f) 1 h spci 0 ?x t of None \<Rightarrow> None
       | Some r \<Rightarrow> andthen (\<lambda>_. r) (\<lambda>y t. Some (after_card (f_out fr) (f_card_ms fr) (f_library_ms fr) y t)) t)"
    using transmit_read_out[of s h cb sbuf f spci rpci rbuf pcb st1 pci1 buf1 fr] c first(1) by blast
  have "length ?b = MAX_APDU_LENGTH" by (rule length_sent) (use c in simp_all)
  then have b: "5 \<le> length ?b" by (simp add: MAX_APDU_LENGTH_def)
  have loc: "\<not> IsRemoteCard h t" using local_visible[OF t] c by simp
  have ne: "buf1 \<noteq> []" using first(2) by auto
  have one: "get_data_loop (Some f) 1 h spci 0 ?x t = get_data_loop (Some f) (Suc 1) h spci (unat (n2 - 2)) ?y t"
    using get_data_round[of h t 0 ?x "wanted (buf1 ! 1)" f 1 spci st2 pci2 buf2 n2] loc ne b first second(1)
    by simp
  have "get_data_loop (Some f) (Suc 1) h spci (unat (n2 - 2)) ?y t = Some (Inr ?y, t)"
    by (rule get_data_stop) (use second(2,3) in simp_all)
  moreover have n: "answer_length ?y = answered st2 n2" by (simp add: answer_length_def answered_def)
  ultimately show ?thesis
    using transmit_read_out_end[of s t cb "take (unat cb) sbuf" ?y fr] c t fits run one by simp
qed

text \<open>The configuration of the read-out, and a card that announces two bytes and delivers them.\<close>

definition auto_app :: app where
  "auto_app = quiet_app\<lparr>m_winscardConfig := (m_winscardConfig quiet_app)\<lparr>bAUTO_REQUEST_DATA := True\<rparr>\<rparr>"

lemma auto_app_reads_out: "reads_out auto_app zero_frame 5 select_apdu 7"
  by (simp add: reads_out_def auto_app_def rules_idle_def loggable_def IsRemoteCard_def quiet_app_def app_init_def
      WINSCARD_CONFIG_new_def WINSCARD_CONFIG_clear_def MAX_APDU_LENGTH_def length_select_apdu)

definition data_card :: "nat \<Rightarrow> (unit, unit) transmit_fn" where
  "data_card k = (\<lambda>(h, spci, cmd, pci, buf, n).
     if k = 0 then (SCARD_S_SUCCESS, pci, blit buf 0 [0x61, 0x02], 2)
     else (SCARD_S_SUCCESS, pci, blit buf 0 [0xAA, 0xBB, 0x90, 0x00], 4))"

theorem get_data_reads_answer_witness:
  "\<exists>u. SCardTransmit (Some data_card) zero_frame 5 () select_apdu 7 () [0, 0, 0, 0, 0] 5 auto_app =
      Some (Inr (SCARD_S_SUCCESS, (), [0xAA, 0xBB, 0x90, 0x00, 0], 4), u) \<and>
    apduOutList u = padded [0xAA, 0xBB, 0x90, 0x00] # apduOutList auto_app"
  using get_data_reads_answer[of auto_app zero_frame 5 select_apdu 7 data_card "()" "()" "[0, 0, 0, 0, 0]" 5
      SCARD_S_SUCCESS "()" "[0x61, 0x02, 0, 0, 0]" SCARD_S_SUCCESS "()" "[0xAA, 0xBB, 0x90, 0x00, 0]" 4]
    auto_app_reads_out
  by (simp add: data_card_def blit_def status_61_def wanted_def answered_def MAX_APDU_LENGTH_def)

text \<open>
  A second read-out loses the first one's bytes. When the answer to the first \<open>GET DATA\<close>
  again ends in \<open>61 xx\<close>, the next answer is stored behind the bytes already read, but the reported
  length is the length of that last answer alone, so the application sees only the beginning of
  what is in its buffer; and the status bytes are then looked for at the offset of the last
  answer's length instead of at the end.
\<close>

theorem get_data_second_round_truncates:
  assumes cfg: "reads_out s fr h sbuf cb"
    and first: "f 0 (h, spci, take (unat cb) sbuf, rpci, rbuf, pcb) = (st1, pci1, buf1, 2)"
      "2 \<le> length buf1" "status_61 (buf1 ! 0)"
    and second: "f 1 (h, spci, [0x00, 0xC0, 0x00, 0x00, wanted (buf1 ! 1)], pci1, buf1, ucast (wanted (buf1 ! 1)) + 2) =
        (st2, pci2, buf2, n2)" "2 \<le> n2" "unat n2 \<le> length buf2" "status_61 (buf2 ! (unat n2 - 2))"
    and third: "f 2 (h, spci, [0x00, 0xC0, 0x00, 0x00, wanted (buf2 ! (unat n2 - 1))], pci2, drop (unat n2 - 2) buf2,
          ucast (wanted (buf2 ! (unat n2 - 1))) + 2) = (SCARD_S_SUCCESS, pci3, buf3, n3)"
      "buf = take (unat n2 - 2) buf2 @ buf3"
      "unat (n3 - 2) < length buf" "\<not> status_61 (buf ! unat (n3 - 2))"
    and fits: "unat n3 \<le> MAX_APDU_LENGTH" "unat n3 \<le> length buf"
  shows "\<exists>u. SCardTransmit (Some f) fr h spci sbuf cb rpci rbuf pcb s =
      Some (Inr (SCARD_S_SUCCESS, pci3, buf, n3), u) \<and>
    apduOutList u = padded (take (unat n3) buf) # apduOutList s"
proof -
  note c = cfg[unfolded reads_out_def]
  let ?b = "blit (f_send fr) 0 (take (unat cb) sbuf)"
  let ?x = "\<lparr>x_send = ?b, x_cb = cb, x_recv = buf1, x_pcb = 2, x_pci = pci1, x_result = st1\<rparr>"
  let ?y = "\<lparr>x_send = [0x00, 0xC0, 0x00, 0x00, wanted (buf1 ! 1)] @ drop 5 ?b, x_cb = 5, x_recv = buf2,
    x_pcb = n2, x_pci = pci2, x_result = st2\<rparr>"
  let ?z = "\<lparr>x_send = [0x00, 0xC0, 0x00, 0x00, wanted (buf2 ! (unat n2 - 1))] @ drop 5 ?b, x_cb = 5, x_recv = buf,
    x_pcb = n3, x_pci = pci3, x_result = SCARD_S_SUCCESS\<rparr>"
  obtain t where t: "visible t = visible (count_sent cb (with_command (take (unat cb) sbuf) s))"
    and run: "SCardTransmit (Some f) fr h spci sbuf cb rpci rbuf pcb s =
      (case get_data_loop (Some f) 1 h spci 0 ?x t of None \<Rightarrow> None
       | Some r \<Rightarrow> andthen (\<lambda>_. r) (\<lambda>y t. Some (after_card (f_out fr) (f_card_ms fr) (f_library_ms fr) y t)) t)"
    using transmit_read_out[of s h cb sbuf f spci rpci rbuf pcb st1 pci1 buf1 fr] c first(1) by blast
  have "length ?b = MAX_APDU_LENGTH" by (rule length_sent) (use c in simp_all)
  then have b: "5 \<le> length ?b" by (simp add: MAX_APDU_LENGTH_def)
  have loc: "\<not> IsRemoteCard h t" using local_visible[OF t] c by simp
  have ne: "buf1 \<noteq> []" using first(2) by auto
  have one: "get_data_loop (Some f) 1 h spci 0 ?x t = get_data_loop (Some f) 2 h spci (unat (n2 - 2)) ?y t"
    using get_data_round[of h t 0 ?x "wanted (buf1 ! 1)" f 1 spci st2 pci2 buf2 n2] loc ne b first second(1)
    by (simp add: numeral_2_eq_2)
  have n2: "unat (n2 - 2) = unat n2 - 2" "unat (n2 - 1) = unat n2 - 1" "2 \<le> unat n2"
    using second(2) by (simp_all add: unat_sub word_le_nat_alt)
  have two: "get_data_loop (Some f) 2 h spci (unat (n2 - 2)) ?y t = get_data_loop (Some f) 3 h spci (unat (n3 - 2)) ?z t"
    using get_data_round[of h t "unat n2 - 2" ?y "wanted (buf2 ! (unat n2 - 1))" f 2 spci SCARD_S_SUCCESS pci3 buf3 n3]
      loc b second(3,4) third(1,2) n2 by (simp add: numeral_3_eq_3)
  have "get_data_loop (Some f) 3 h spci (unat (n3 - 2)) ?z t = Some (Inr ?z, t)"
    by (rule get_data_stop) (use third(3,4) in simp_all)
  moreover have n: "answer_length ?z = n3" by (simp add: answer_length_def)
  ultimately show ?thesis
    using transmit_read_out_end[of s t cb "take (unat cb) sbuf" ?z fr] c t fits run one two by simp
qed

definition chunk_card :: "nat \<Rightarrow> (unit, unit) transmit_fn" where
  "chunk_card k = (\<lambda>(h, spci, cmd, pci, buf, n).
     if k = 0 then (SCARD_S_SUCCESS, pci, blit buf 0 [0x61, 0x02], 2)
     else if k = 1 then (SCARD_S_SUCCESS, pci, blit buf 0 [0xAA, 0xBB, 0x61, 0x01], 4)
     else (SCARD_S_SUCCESS, pci, blit buf 0 [0xCC, 0x90, 0x00], 3))"

theorem get_data_second_round_truncates_witness:
  "\<exists>u. SCardTransmit (Some chunk_card) zero_frame 5 () select_apdu 7 () [0, 0, 0, 0, 0] 5 auto_app =
      Some (Inr (SCARD_S_SUCCESS, (), [0xAA, 0xBB, 0xCC, 0x90, 0x00], 3), u) \<and>
    apduOutList u = padded [0xAA, 0xBB, 0xCC] # apduOutList auto_app"
  using get_data_second_round_truncates[of auto_app zero_frame 5 select_apdu 7 chunk_card "()" "()" "[0, 0, 0, 0, 0]" 5
      SCARD_S_SUCCESS "()" "[0x61, 0x02, 0, 0, 0]" SCARD_S_SUCCESS "()" "[0xAA, 0xBB, 0x61, 0x01, 0]" 4
      "()" "[0xCC, 0x90, 0x00]" 3 "[0xAA, 0xBB, 0xCC, 0x90, 0x00]"]
    auto_app_reads_out
  by (simp add: chunk_card_def blit_def status_61_def wanted_def MAX_APDU_LENGTH_def)

text \<open>A card that answers every command with two bytes \<open>61 xx\<close> keeps the loop where it is.\<close>

definition always_more :: "(nat \<Rightarrow> ('q, 'p) transmit_fn) \<Rightarrow> handle \<Rightarrow> 'q \<Rightarrow> bool" where
  "always_more f h spci \<longleftrightarrow>
     (\<forall>k cmd pci buf n. 2 \<le> length buf \<longrightarrow>
        (\<exists>st pci' buf'. f k (h, spci, cmd, pci, buf, n) = (st, pci', buf', 2) \<and>
           2 \<le> length buf' \<and> status_61 (buf' ! 0)))"

definition stuck ::
    "(nat \<Rightarrow> ('q, 'p) transmit_fn) option \<Rightarrow> handle \<Rightarrow> 'q \<Rightarrow> nat \<Rightarrow> 'p xfer \<Rightarrow> app \<Rightarrow> bool" where
  "stuck orig h spci off x s \<longleftrightarrow>
     (\<exists>f. orig = Some f \<and> always_more f h spci) \<and> off = 0 \<and> \<not> IsRemoteCard h s \<and>
     2 \<le> length (x_recv x) \<and> status_61 (x_recv x ! 0) \<and> x_pcb x = 2 \<and> 5 \<le> length (x_send x)"

lemma stuck_step:
  assumes "stuck orig h spci off x s"
  shows "\<exists>x1. bindA (liftA (get_data_command x)) (send_apdu orig k h spci returnA off) s = (Inr x1, s) \<and>
    off < length (x_recv x) \<and> status_61 (x_recv x ! off) \<and>
    stuck orig h spci (unat (x_pcb x1 - 2)) x1 s"
proof -
  from assms obtain f where a: "orig = Some f" "always_more f h spci" "off = 0" "\<not> IsRemoteCard h s"
    "2 \<le> length (x_recv x)" "status_61 (x_recv x ! 0)" "x_pcb x = 2" "5 \<le> length (x_send x)"
    by (auto simp: stuck_def)
  let ?le = "wanted (x_recv x ! 1)"
  obtain b c d e g rest where send: "x_send x = b # c # d # e # g # rest"
    using a(8) by (auto simp: Suc_le_length_iff numeral_eq_Suc)
  obtain st pci buf where card: "f k (h, spci, [0x00, 0xC0, 0x00, 0x00, ?le], x_pci x, x_recv x, ucast ?le + 2) =
      (st, pci, buf, 2)" "2 \<le> length buf" "status_61 (buf ! 0)"
    using a(2,5) unfolding always_more_def by blast
  let ?x1 = "x\<lparr>x_send := [0x00, 0xC0, 0x00, 0x00, ?le] @ rest, x_cb := 5, x_pcb := ucast ?le + 2\<rparr>"
  let ?x2 = "?x1\<lparr>x_recv := buf, x_pcb := 2, x_pci := pci, x_result := st\<rparr>"
  have "get_data_command x = Inr ?x1"
    using a(5,7) by (simp add: get_data_command_def wanted_def Let_def send)
  moreover have "send_apdu (Some f) k h spci returnA 0 ?x1 s = (Inr ?x2, s)"
    using send_local[OF a(4), of returnA ?x1 ?x1 f k spci 0 st pci buf 2] card(1) by simp
  moreover have "stuck orig h spci 0 ?x2 s" using a card by (auto simp: stuck_def)
  moreover have "0 < length (x_recv x)" using a(5) by linarith
  ultimately show ?thesis using a(1,3,6) by (intro exI[of _ ?x2]) simp
qed

lemma get_data_loop_stuck:
  fixes orig :: "(nat \<Rightarrow> ('q, 'p) transmit_fn) option" and r :: "'p xfer res \<times> app"
  assumes "get_data_loop orig k h spci off x s = Some r"
  shows "\<not> stuck orig h spci off x s"
proof -
  let ?P = "\<lambda>(orig :: (nat \<Rightarrow> ('q, 'p) transmit_fn) option) (k :: nat) h spci off x s (r :: 'p xfer res \<times> app).
    \<not> stuck orig h spci off x s"
  have step: "?P orig k h spci off x s r"
    if IH: "\<And>orig k h spci off x s r. loop orig k h spci off x s = Some r \<Longrightarrow> ?P orig k h spci off x s r"
      and eq: "(if off < length (x_recv x) then
          if x_recv x ! off = 0x61 \<or> x_recv x ! off = 0x6C then
            (case bindA (liftA (get_data_command x)) (send_apdu orig k h spci returnA off) s of
               (Inl e, s1) \<Rightarrow> Some (Inl e, s1)
             | (Inr x1, s1) \<Rightarrow> loop orig (Suc k) h spci (unat (x_pcb x1 - 2)) x1 s1)
          else Some (Inr x, s)
        else Some (Inl Out_Of_Bounds, s)) = Some r"
    for loop and orig :: "(nat \<Rightarrow> ('q, 'p) transmit_fn) option" and k h spci off x s and r :: "'p xfer res \<times> app"
  proof
    assume "stuck orig h spci off x s"
    from stuck_step[OF this, of k] obtain x1 where
      x1: "bindA (liftA (get_data_command x)) (send_apdu orig k h spci returnA off) s = (Inr x1, s)"
        "off < length (x_recv x)" "status_61 (x_recv x ! off)" "stuck orig h spci (unat (x_pcb x1 - 2)) x1 s"
      by blast
    then have "loop orig (Suc k) h spci (unat (x_pcb x1 - 2)) x1 s = Some r"
      using eq by (auto simp: status_61_def)
    from IH[OF this] x1(4) show False by blast
  qed
  show ?thesis
  proof (rule get_data_loop.raw_induct[of ?P "((((((orig, k), h), spci), off), x), s)" r, simplified prod.case])
    show "get_data_loop orig k h spci off x s = Some r" by (rule assms)
  qed (fact step)
qed

text \<open>
  C37: The read-out need not end. A local card that answers every command with two bytes
  \<open>61 xx\<close> or \<open>6C xx\<close> keeps \<open>SCardTransmit\<close> sending \<open>GET DATA\<close> for ever: the call does not return.
\<close>

theorem get_data_never_ends:
  assumes cfg: "reads_out s fr h sbuf cb" and "always_more f h spci" and "2 \<le> length rbuf"
  shows "SCardTransmit (Some f) fr h spci sbuf cb rpci rbuf pcb s = None"
proof -
  note c = cfg[unfolded reads_out_def]
  let ?b = "blit (f_send fr) 0 (take (unat cb) sbuf)"
  obtain st1 pci1 buf1 where first: "f 0 (h, spci, take (unat cb) sbuf, rpci, rbuf, pcb) = (st1, pci1, buf1, 2)"
    "2 \<le> length buf1" "status_61 (buf1 ! 0)"
    using assms(2,3) unfolding always_more_def by blast
  let ?x = "\<lparr>x_send = ?b, x_cb = cb, x_recv = buf1, x_pcb = 2, x_pci = pci1, x_result = st1\<rparr>"
  obtain t where t: "visible t = visible (count_sent cb (with_command (take (unat cb) sbuf) s))"
    and run: "SCardTransmit (Some f) fr h spci sbuf cb rpci rbuf pcb s =
      (case get_data_loop (Some f) 1 h spci 0 ?x t of None \<Rightarrow> None
       | Some r \<Rightarrow> andthen (\<lambda>_. r) (\<lambda>y t. Some (after_card (f_out fr) (f_card_ms fr) (f_library_ms fr) y t)) t)"
    using transmit_read_out[of s h cb sbuf f spci rpci rbuf pcb st1 pci1 buf1 fr] c first(1) by blast
  have "length ?b = MAX_APDU_LENGTH" by (rule length_sent) (use c in simp_all)
  then have b: "5 \<le> length ?b" by (simp add: MAX_APDU_LENGTH_def)
  have "\<not> IsRemoteCard h t" using local_visible[OF t] c by simp
  then have "get_data_loop (Some f) 1 h spci 0 ?x t = None"
    using get_data_loop_stuck[of "Some f" 1 h spci 0 ?x t] assms(2) first(2,3) b
    by (cases "get_data_loop (Some f) 1 h spci 0 ?x t") (auto simp: stuck_def)
  then show ?thesis using run by simp
qed

definition more_card :: "nat \<Rightarrow> (unit, unit) transmit_fn" where
  "more_card k = (\<lambda>(h, spci, cmd, pci, buf, n). (SCARD_S_SUCCESS, pci, blit buf 0 [0x61, 0x00], 2))"

theorem get_data_never_ends_witness:
  "SCardTransmit (Some more_card) zero_frame 5 () select_apdu 7 () [0, 0] 2 auto_app = None"
  by (rule get_data_never_ends[OF auto_app_reads_out])
    (auto simp: always_more_def more_card_def blit_def status_61_def)

subsection \<open>What no transmission changes\<close>

text \<open>
  The invariant of the histories, and the part of the state that transmissions read but never
  write. \<open>ref\<close> is the state to compare with.
\<close>

definition settled :: "app \<Rightarrow> app \<Rightarrow> bool" where
  "settled ref s \<longleftrightarrow> hist_wf s \<and> rulesList s = rulesList ref \<and> m_bRulesActive s = m_bRulesActive ref \<and>
     m_winscardConfig s = m_winscardConfig ref \<and> remoteReadersMap s = remoteReadersMap ref \<and>
     instructionDict s = instructionDict ref"

lemma settled_visible: "visible t = visible s \<Longrightarrow> settled ref t = settled ref s"
  using visible_same[of t s] by (simp add: settled_def hist_wf_def)

lemma settled_log:
  "settled ref s \<Longrightarrow> settled ref (LogWinscardRules m s)"
  "settled ref s \<Longrightarrow> settled ref (exchange_log m s)"
  "settled ref s \<Longrightarrow> settled ref (DumpMemory l s)"
  by (simp_all only: settled_visible[OF visible_log(3)] settled_visible[OF visible_log(4)]
      settled_visible[OF visible_log(5)])

lemma keeps_settled_core: "keeps_core m \<Longrightarrow> keeps (settled ref) m"
proof (rule keepsI)
  fix s assume "keeps_core m" "settled ref s"
  then show "settled ref (snd (m s))"
    using core_eqD[OF keeps_coreD[of m s]] by (simp add: settled_def hist_wf_def)
qed

lemma settled_counters:
  "settled ref s \<Longrightarrow> settled ref (s\<lparr>apduCounter := n\<rparr>)"
  "settled ref s \<Longrightarrow> settled ref (s\<lparr>m_processedApduByteCounter := m\<rparr>)"
  by (simp_all add: settled_def hist_wf_def)

lemma keeps_only_logs: "only_logs m \<Longrightarrow> keeps (settled ref) m"
proof (rule keepsI)
  fix s assume m: "only_logs m" and s: "settled ref s"
  obtain t where t: "m s = (Inr (), t)" "visible t = visible s" using only_logsD[OF m] by blast
  show "settled ref (snd (m s))" using s by (simp only: t(1) snd_conv settled_visible[OF t(2)])
qed

lemma keeps_if: "keeps P a \<Longrightarrow> keeps P b \<Longrightarrow> keeps P (if c then a else b)"
  by simp

lemma keeps_case:
  "(\<And>y z. keeps P (g y z)) \<Longrightarrow> keeps P (case p of (y, z) \<Rightarrow> g y z)"
  by (cases p) simp

lemmas keeps_rules = keeps_bindA keeps_pure keeps_if keeps_case keeps_modA

lemma keeps_charp:
  "keeps P a \<Longrightarrow> keeps P b \<Longrightarrow> (\<And>d. keeps P (g d)) \<Longrightarrow>
    keeps P (case c of NULL \<Rightarrow> a | INI_INVALID_KEY \<Rightarrow> b | Str d \<Rightarrow> g d)"
  by (cases c) simp_all

lemma keeps_WriteDescription: "keeps (settled ref) (WriteDescription b)"
  unfolding WriteDescription_def by (intro keeps_rules keeps_charp settled_log)

lemma apdu_buffer_length: "apdu_buffer buf n = Inr a \<Longrightarrow> length a = MAX_APDU_LENGTH"
  by (auto simp: apdu_buffer_def bindE_eq_Inr)

text \<open>Partial correctness of \<open>andthen\<close>: what holds of every returning part holds of the whole.\<close>

lemma andthen_keeps:
  assumes "andthen m g s = Some r" and "keeps P m" and "P s"
    and "\<And>x t. P t \<Longrightarrow> g x t = Some r \<Longrightarrow> P (snd r)"
  shows "P (snd r)"
  using keepsD[OF assms(2,3)] assms(1,4) by (auto simp: andthen_def split: prod.splits sum.splits)

text \<open>
  What a property of the library's state must survive to survive a whole transmission. The exchange log
  may depend on the configuration, so its three functions are laws of their own.
\<close>

locale transmit_inv =
  fixes P :: "app \<Rightarrow> bool"
  assumes log_law: "P s \<Longrightarrow> P (LogWinscardRules m s)"
    and exchange_law: "keeps P (log_command h sbuf n)" "keeps P (log_response rbuf n)" "keeps P (log_response_time e st)"
    and remote_law: "keeps P (Remote_SCardTransmit reader apdu rbuf n)"
    and delay_law: "keeps P (rule_delay ms)"
    and counter_law: "P s \<Longrightarrow> P (s\<lparr>apduCounter := n\<rparr>)" "P s \<Longrightarrow> P (s\<lparr>m_processedApduByteCounter := n\<rparr>)"
    and history_law: "P s \<Longrightarrow> length a = MAX_APDU_LENGTH \<Longrightarrow> P (s\<lparr>apduInList := a # apduInList s\<rparr>)"
      "P s \<Longrightarrow> length a = MAX_APDU_LENGTH \<Longrightarrow> P (s\<lparr>apduOutList := a # apduOutList s\<rparr>)"
    and name_law: "P s \<Longrightarrow> P (s\<lparr>cardReaderMap := (cardReaderMap s)(h \<mapsto> r)\<rparr>)"
begin

lemma keeps_rules_loop: "keeps P (rules_loop dir rs st)"
proof (induction rs arbitrary: st)
  case Nil
  then show ?case by (cases st) (simp only: rules_loop.simps keeps_pure)
next
  case (Cons r rs)
  have look: "keeps P (\<lambda>s. (match_all ms s, s))" for ms by (rule keepsI) simp
  obtain buf len found where st: "st = (buf, len, found)" by (cases st)
  show ?case unfolding st rules_loop.simps by (intro keeps_rules look delay_law Cons.IH)
qed

lemma keeps_ApplyRules: "keeps P (ApplyRules stack buf len dir)"
proof (rule keepsI)
  fix s assume s: "P s"
  let ?run = "bindA (liftA (guardE (unat len \<le> MAX_APDU_LENGTH \<and> unat len \<le> length buf) Out_Of_Bounds)) (\<lambda>_.
        bindA (rules_loop dir (rulesList s) (blit stack 0 (take (unat len) buf), len, False))
          (\<lambda>(newBuffer, len, bRuleFound).
        bindA (if dir = INPUT_APDU \<and> bRuleFound
               then bindA (liftA (guardE (4 < length buf) Out_Of_Bounds))
                      (\<lambda>_. returnA (ucast (buf ! 4) + 5))
               else returnA len) (\<lambda>len1.
        bindA (liftA (guardE (unat len1 \<le> MAX_APDU_LENGTH \<and> unat len1 \<le> length buf) Out_Of_Bounds)) (\<lambda>_.
        returnA (STAT_OK, blit buf 0 (take (unat len1) newBuffer), len1)))))"
  have "keeps P ?run" by (intro keeps_rules keeps_rules_loop)
  from keepsD[OF this s] show "P (snd (ApplyRules stack buf len dir s))"
    using s by (simp add: ApplyRules_def)
qed

lemma keeps_save: "keeps P (save_incoming buf n)" "keeps P (save_outgoing buf n)"
proof -
  have "P (s\<lparr>apduInList := a # apduInList s\<rparr>)" "P (s\<lparr>apduOutList := a # apduOutList s\<rparr>)"
    if "P s" "apdu_buffer buf n = Inr a" for s a
    using that(1) history_law[OF that(1) apdu_buffer_length[OF that(2)]] by simp_all
  then show "keeps P (save_incoming buf n)" "keeps P (save_outgoing buf n)"
    by (auto intro!: keepsI simp: save_incoming_def save_outgoing_def bindA_def split: sum.split)
qed

lemma keeps_log_lines: "keeps P (log_message bs)" "keeps P (log_rules_header k)" "keeps P (log_library_time e)"
  unfolding log_message_def log_rules_header_def log_library_time_def by (intro keeps_rules log_law; assumption?)+

lemma keeps_before_card: "keeps P (before_card junk stack h buf n)"
  unfolding before_card_def record_command_def rewrite_command_def Let_def
  by (intro keeps_rules log_law counter_law exchange_law keeps_save keeps_log_lines keeps_ApplyRules)

lemma keeps_after_card: "keeps P (after_card stack ms1 ms2 x)"
  unfolding after_card_def rewrite_response_def
  by (intro keeps_rules counter_law exchange_law keeps_save keeps_log_lines keeps_ApplyRules)

lemma keeps_send_apdu:
  assumes "\<And>y. keeps P (prepare y)"
  shows "keeps P (send_apdu orig k h spci prepare off x)"
proof -
  have name: "keeps P (\<lambda>s. map_prod Inr id (GetReaderName h s))"
    by (rule keepsI) (simp add: GetReaderName_def name_law split: option.split)
  have call: "keeps P (call_original orig' args)" for orig' :: "('x \<Rightarrow> 'y) option" and args
    by (cases orig') (auto simp: call_original_def intro: keeps_pure)
  show ?thesis
    unfolding send_apdu_def
    by (intro keeps_rules name call assms remote_law)
qed

lemma keeps_get_data_loop:
  fixes orig :: "(nat \<Rightarrow> ('q, 'p) transmit_fn) option" and r :: "'p xfer res \<times> app"
  assumes "get_data_loop orig k h spci off x s = Some r"
  shows "P s \<Longrightarrow> P (snd r)"
proof -
  let ?P = "\<lambda>(orig :: (nat \<Rightarrow> ('q, 'p) transmit_fn) option) (k :: nat) (h :: handle) (spci :: 'q) (off :: nat)
    (x :: 'p xfer) s (r :: 'p xfer res \<times> app). P s \<longrightarrow> P (snd r)"
  have step: "?P orig k h spci off x s r"
    if IH: "\<And>orig k h spci off x s r. loop orig k h spci off x s = Some r \<Longrightarrow> ?P orig k h spci off x s r"
      and eq: "(if off < length (x_recv x) then
          if x_recv x ! off = 0x61 \<or> x_recv x ! off = 0x6C then
            (case bindA (liftA (get_data_command x)) (send_apdu orig k h spci returnA off) s of
               (Inl e, s1) \<Rightarrow> Some (Inl e, s1)
             | (Inr x1, s1) \<Rightarrow> loop orig (Suc k) h spci (unat (x_pcb x1 - 2)) x1 s1)
          else Some (Inr x, s)
        else Some (Inl Out_Of_Bounds, s)) = Some r"
    for loop and orig :: "(nat \<Rightarrow> ('q, 'p) transmit_fn) option" and k h spci off x s and r :: "'p xfer res \<times> app"
  proof
    assume s: "P s"
    let ?one = "bindA (liftA (get_data_command x)) (send_apdu orig k h spci returnA off) s"
    have "keeps P (bindA (liftA (get_data_command x)) (send_apdu orig k h spci returnA off))"
      by (intro keeps_rules keeps_send_apdu)
    from keepsD[OF this s] have one: "P (snd ?one)" .
    show "P (snd r)"
    proof (cases "off < length (x_recv x) \<and> (x_recv x ! off = 0x61 \<or> x_recv x ! off = 0x6C)")
      case False
      then show ?thesis using eq s by (auto split: if_splits)
    next
      case True
      obtain res s1 where r1: "?one = (res, s1)" by (cases ?one)
      show ?thesis
      proof (cases res)
        case (Inl e)
        then show ?thesis using eq True r1 one by auto
      next
        case (Inr x1)
        then have "loop orig (Suc k) h spci (unat (x_pcb x1 - 2)) x1 s1 = Some r" using eq True r1 by auto
        from IH[OF this] show ?thesis using one r1 by simp
      qed
    qed
  qed
  have "?P orig k h spci off x s r"
  proof (rule get_data_loop.raw_induct[of ?P "((((((orig, k), h), spci), off), x), s)" r, simplified prod.case])
    show "get_data_loop orig k h spci off x s = Some r" by (rule assms)
  qed (fact step)
  then show "P s \<Longrightarrow> P (snd r)" by simp
qed

lemma keeps_read_out:
  "read_out orig h spci x s = Some r \<Longrightarrow> P s \<Longrightarrow> P (snd r)"
  using keeps_get_data_loop[of orig 1 h spci 0 x s r] by (auto simp: read_out_def split: if_splits)

lemma keeps_transmit:
  assumes "SCardTransmit orig fr h spci sbuf cb rpci rbuf pcb s = Some r" and "P s"
  shows "P (snd r)"
proof -
  let ?fin = "\<lambda>y t. Some (after_card (f_out fr) (f_card_ms fr) (f_library_ms fr) y t)"
  let ?tail = "\<lambda>x s. case read_out orig h spci x s of None \<Rightarrow> None | Some r \<Rightarrow> andthen (\<lambda>_. r) ?fin s"
  have tail: "P (snd r)" if "P t" "?tail x t = Some r" for x t r
  proof (cases "read_out orig h spci x t")
    case None
    then show ?thesis using that(2) by simp
  next
    case (Some q)
    have q: "P (snd q)" by (rule keeps_read_out[OF Some that(1)])
    have a: "andthen (\<lambda>_. q) ?fin t = Some r" using that(2) Some by simp
    show ?thesis
    proof (cases q)
      case (Pair res u)
      show ?thesis
      proof (cases res)
        case (Inl e)
        then show ?thesis using a q Pair by (auto simp: andthen_def)
      next
        case (Inr y)
        then have "r = after_card (f_out fr) (f_card_ms fr) (f_library_ms fr) y u"
          using a Pair by (simp add: andthen_def)
        then show ?thesis using keepsD[OF keeps_after_card] q Pair by simp
      qed
    qed
  qed
  have force: "keeps P (force_nonzero y)" for y
    unfolding force_nonzero_def by (intro keeps_rules)
  have first: "keeps P (first_exchange orig h spci x)" for x
    unfolding first_exchange_def by (rule keeps_send_apdu[OF force])
  have mid: "P (snd r)" if "P t" "andthen (first_exchange orig h spci x) ?tail t = Some r" for x t r
    by (rule andthen_keeps[OF that(2) first that(1)]) (rule tail)
  show ?thesis
    by (rule andthen_keeps[OF assms(1)[unfolded SCardTransmit_def] keeps_before_card assms(2)])
      (auto split: prod.splits intro: mid)
qed

end

lemma keeps_settled_logs:
  "keeps (settled ref) (log_command h buf n)" "keeps (settled ref) (log_response buf n)"
  "keeps (settled ref) (log_response_time e st)"
proof -
  show "keeps (settled ref) (log_command h buf n)"
    unfolding log_command_def by (intro keeps_rules settled_log keeps_WriteDescription)
  show "keeps (settled ref) (log_response buf n)"
    unfolding log_response_def by (intro keeps_rules settled_log)
  show "keeps (settled ref) (log_response_time e st)"
    by (rule keeps_only_logs[OF only_logs_message(3)])
qed

interpretation settled: transmit_inv "settled ref" for ref
proof unfold_locales
  show "keeps (settled ref) (rule_delay ms)" for ms
    by (rule keepsI) (simp only: settled_visible[OF visible_log(6)])
qed (auto intro: settled_log settled_counters keeps_settled_logs keeps_settled_core[OF keeps_core_transmit]
    simp: settled_def hist_wf_def)

text \<open>A call as a step of the library's state; a call that does not return leaves no state.\<close>

record 'p call =
  c_frame :: frame
  c_card :: handle
  c_command :: "byte list"
  c_length :: dword
  c_pci :: 'p
  c_buffer :: "byte list"
  c_capacity :: dword

definition transmit_step ::
    "(nat \<Rightarrow> ('q, 'p) transmit_fn) option \<Rightarrow> 'q \<Rightarrow> 'p call \<Rightarrow> app \<Rightarrow> app" where
  "transmit_step orig spci c s =
     (case SCardTransmit orig (c_frame c) (c_card c) spci (c_command c) (c_length c) (c_pci c) (c_buffer c) (c_capacity c) s of
        None \<Rightarrow> s | Some (_, t) \<Rightarrow> t)"

interpretation transmissions: inv_machine "transmit_step orig spci" "settled ref"
  for orig :: "(nat \<Rightarrow> ('q, 'p) transmit_fn) option" and spci :: 'q and ref :: app
proof unfold_locales
  fix s :: app and c :: "'p call"
  assume s: "settled ref s"
  let ?run = "SCardTransmit orig (c_frame c) (c_card c) spci (c_command c) (c_length c) (c_pci c) (c_buffer c) (c_capacity c) s"
  show "settled ref (transmit_step orig spci c s)"
  proof (cases ?run)
    case None
    then show ?thesis using s by (simp add: transmit_step_def)
  next
    case (Some r)
    from settled.keeps_transmit[OF Some s] show ?thesis by (cases r) (simp add: transmit_step_def Some)
  qed
qed

text \<open>
  Transmissions leave the configuration alone. Whatever the cards and the proxy answer, after
  any sequence of \<open>SCardTransmit\<close> calls, failed or not, all entries of the histories are 300 bytes
  long (so that no rule can read outside one) and the rules, their activation, the configuration,
  the remote cards and the instruction descriptions are those of the start.
\<close>

theorem transmissions_keep_configuration:
  assumes "hist_wf s"
  shows "hist_wf (fold (transmit_step orig spci) calls s) \<and>
    rulesList (fold (transmit_step orig spci) calls s) = rulesList s \<and>
    m_bRulesActive (fold (transmit_step orig spci) calls s) = m_bRulesActive s \<and>
    m_winscardConfig (fold (transmit_step orig spci) calls s) = m_winscardConfig s \<and>
    remoteReadersMap (fold (transmit_step orig spci) calls s) = remoteReadersMap s \<and>
    instructionDict (fold (transmit_step orig spci) calls s) = instructionDict s"
proof -
  have "settled s s" using assms by (simp add: settled_def)
  from transmissions.fold_inv[OF this] show ?thesis by (simp add: settled_def)
qed

theorem transmissions_keep_configuration_witness:
  "hist_wf (fold (transmit_step (Some ok_card) ())
      [\<lparr>c_frame = zero_frame, c_card = 5, c_command = select_apdu, c_length = 7, c_pci = (),
        c_buffer = [0, 0, 0, 0, 0, 0], c_capacity = 6\<rparr>] rules_app)"
proof -
  have "hist_wf rules_app" by (simp add: hist_wf_def length_select_apdu MAX_APDU_LENGTH_def)
  then show ?thesis by (rule transmissions_keep_configuration[THEN conjunct1])
qed

subsection \<open>Remote cards and forced input data\<close>

lemma remote_transmit_run:
  assumes "remoteReadersMap s h \<noteq> None" and "cardReaderMap s h = Some reader"
    and "rules_idle s" and "\<not> bAUTO_REQUEST_DATA (m_winscardConfig s)"
    and "unat cb \<le> MAX_APDU_LENGTH" and "unat cb \<le> length sbuf" and "loggable s sbuf"
    and "has_socket p s"
    and "w_rx s = map RecvByte (proxy_response (nextCommandID (m_remoteConfig s) + 2)
           (BYTE_ConvertFromArrayToHexString rdata sp) @ [NL]) @ es"
    and "2 \<le> length rdata" and "length rdata \<le> 260" and "length rdata \<le> length rbuf"
  shows "\<exists>t. SCardTransmit orig fr h spci sbuf cb rpci rbuf pcb s =
      Some (Inr (SCARD_S_SUCCESS, rpci, blit rbuf 0 rdata, of_nat (length rdata)), t) \<and>
    w_rx t = es \<and>
    w_tx t = w_tx s @ [Remote_FormatRequest reader (nextCommandID (m_remoteConfig s) + 2) ''APDU''
                         (BYTE_ConvertFromArrayToHexString (take (unat cb) sbuf) False) [] CMD_LINE_SEPARATOR @ [NL]] \<and>
    has_socket p t \<and> nextCommandID (m_remoteConfig t) = nextCommandID (m_remoteConfig s) + 2 \<and>
    cardReaderMap t = cardReaderMap s \<and> remoteReadersMap t = remoteReadersMap s \<and>
    m_winscardConfig t = m_winscardConfig s \<and> m_bRulesActive t = m_bRulesActive s"
proof -
  let ?b = "blit (f_send fr) 0 (take (unat cb) sbuf)"
  obtain t where t: "before_card (f_send fr) (f_in fr) h sbuf cb s = (Inr (?b, cb), t)"
    "visible t = visible (count_sent cb (with_command (take (unat cb) sbuf) s))"
    using before_card_idle[OF assms(3,5-7)] by blast
  have same: "m_remoteConfig t = m_remoteConfig s" "w_rx t = w_rx s" "w_tx t = w_tx s" "w_live t = w_live s"
    "m_winscardConfig t = m_winscardConfig s" "m_bRulesActive t = m_bRulesActive s"
    "cardReaderMap t = cardReaderMap s" "remoteReadersMap t = remoteReadersMap s"
    using visible_same[OF t(2)] by (simp_all add: count_sent_def with_command_def)
  have remote: "IsRemoteCard h t" "GetReaderName h t = (reader, t)"
    using assms(1,2) by (simp_all add: IsRemoteCard_def GetReaderName_def same)
  have sock: "has_socket p t" using assms(8) by (simp add: has_socket_def same)
  have rx: "w_rx t = map RecvByte (proxy_response (nextCommandID (m_remoteConfig t) + 2)
      (BYTE_ConvertFromArrayToHexString rdata sp) @ [NL]) @ es"
    using assms(9) by (simp add: same)
  let ?req = "Remote_FormatRequest reader (nextCommandID (m_remoteConfig s) + 2) ''APDU''
      (BYTE_ConvertFromArrayToHexString (take (unat cb) sbuf) False) [] CMD_LINE_SEPARATOR @ [NL]"
  obtain u where u: "Remote_SCardTransmit reader (take (unat cb) ?b) rbuf pcb t =
      (Inr (STAT_OK, blit rbuf 0 rdata, of_nat (length rdata)), u)" "w_rx u = es" "w_tx u = w_tx s @ [?req]"
      "has_socket p u" "nextCommandID (m_remoteConfig u) = nextCommandID (m_remoteConfig s) + 2"
    using Remote_SCardTransmit_answered[OF sock rx assms(10-12), of reader "take (unat cb) ?b" pcb]
    by (auto simp: take_sent[OF assms(6)] same)
  have core: "core u = core t"
    using keeps_coreD[OF keeps_core_transmit, of reader "take (unat cb) ?b" rbuf pcb t] u(1) by simp
  let ?x = "\<lparr>x_send = ?b, x_cb = cb, x_recv = rbuf, x_pcb = pcb, x_pci = rpci, x_result = SCARD_S_SUCCESS\<rparr>"
  let ?y = "?x\<lparr>x_recv := blit rbuf 0 rdata, x_pcb := of_nat (length rdata)\<rparr>"
  have first: "first_exchange orig h spci ?x t = (Inr ?y, u)"
    using remote u(1) by (simp add: first_exchange_def send_apdu_def bindA_unfold)
  have n: "answer_length ?y = of_nat (length rdata)" by (simp add: answer_length_def)
  have len: "unat (of_nat (length rdata) :: dword) = length rdata"
    using assms(11) by (simp add: unat_of_nat take_bit_eq_mod)
  have "rules_idle u" "\<not> bAUTO_REQUEST_DATA (m_winscardConfig u)"
    using assms(3,4) core_eqD[OF core] by (simp_all add: rules_idle_def same)
  moreover from this(1) obtain v where v: "after_card (f_out fr) (f_card_ms fr) (f_library_ms fr) ?y u =
      (Inr (SCARD_S_SUCCESS, rpci, blit rbuf 0 rdata, of_nat (length rdata)), v)"
    "visible v = visible (count_exchange (with_response (take (length rdata) (blit rbuf 0 rdata)) u))"
    using after_card_idle[of u ?y "f_out fr" "f_card_ms fr" "f_library_ms fr"] n len assms(11,12)
    by (auto simp: MAX_APDU_LENGTH_def)
  moreover have "w_rx v = es" "w_tx v = w_tx s @ [?req]"
    using visible_same(13,14)[OF v(2)] u(2,3) by (simp_all add: count_exchange_def with_response_def)
  moreover have "has_socket p v" "nextCommandID (m_remoteConfig v) = nextCommandID (m_remoteConfig s) + 2"
    "cardReaderMap v = cardReaderMap s" "remoteReadersMap v = remoteReadersMap s" "m_winscardConfig v = m_winscardConfig s"
    "m_bRulesActive v = m_bRulesActive s"
    using visible_same[OF v(2)] u(4,5) core_eqD[OF core] same
    by (simp_all add: count_exchange_def with_response_def has_socket_def)
  ultimately show ?thesis using t(1) first
    by (simp add: SCardTransmit_def andthen_def read_out_def)
qed

text \<open>
  C3: A remote card is reached through the proxy, end to end. For the handle of a remote card,
  with a live proxy connection and without rules and read-out, a proxy that answers the next
  request with the response bytes in hexadecimal makes \<open>SCardTransmit\<close> return success with exactly
  these bytes and their number; exactly one request was sent, an \<open>APDU\<close> command with the
  application's bytes for the reader the card was connected through, whose identifier is two above
  the last one; the original library is not involved.
\<close>

theorem remote_transmit_end_to_end:
  assumes "remoteReadersMap s h \<noteq> None" and "cardReaderMap s h = Some reader"
    and "rules_idle s" and "\<not> bAUTO_REQUEST_DATA (m_winscardConfig s)"
    and "unat cb \<le> MAX_APDU_LENGTH" and "unat cb \<le> length sbuf" and "loggable s sbuf"
    and "has_socket p s"
    and "w_rx s = map RecvByte (proxy_response (nextCommandID (m_remoteConfig s) + 2)
           (BYTE_ConvertFromArrayToHexString rdata sp) @ [NL]) @ es"
    and "2 \<le> length rdata" and "length rdata \<le> 260" and "length rdata \<le> length rbuf"
  shows "\<exists>t. SCardTransmit orig fr h spci sbuf cb rpci rbuf pcb s =
      Some (Inr (SCARD_S_SUCCESS, rpci, blit rbuf 0 rdata, of_nat (length rdata)), t) \<and>
    w_rx t = es \<and>
    w_tx t = w_tx s @ [Remote_FormatRequest reader (nextCommandID (m_remoteConfig s) + 2) ''APDU''
                         (BYTE_ConvertFromArrayToHexString (take (unat cb) sbuf) False) [] CMD_LINE_SEPARATOR @ [NL]]"
  using remote_transmit_run[OF assms, of orig fr spci rpci pcb] by blast

definition remote_card_app :: "recv_event list \<Rightarrow> app" where
  "remote_card_app rx = (connected_app rx)\<lparr>remoteReadersMap := [2 \<mapsto> ''Simona''], cardReaderMap := [2 \<mapsto> ''Simona'']\<rparr>"

theorem remote_transmit_end_to_end_witness:
  "\<exists>t. SCardTransmit (None :: (nat \<Rightarrow> (unit, unit) transmit_fn) option) zero_frame 2 () [0x00, 0xA4, 0x04, 0x00] 4 () [0, 0, 0] 3
      (remote_card_app (map RecvByte (proxy_response 3 (BYTE_ConvertFromArrayToHexString [0x90, 0x00] False) @ [NL]))) =
    Some (Inr (SCARD_S_SUCCESS, (), [0x90, 0x00, 0], 2), t) \<and> w_rx t = [] \<and>
    w_tx t = [Remote_FormatRequest ''Simona'' 3 ''APDU'' (BYTE_ConvertFromArrayToHexString [0x00, 0xA4, 0x04, 0x00] False)
                [] CMD_LINE_SEPARATOR @ [NL]]"
proof -
  define sb rd rb :: "byte list" where bufs: "sb = [0x00, 0xA4, 0x04, 0x00]" "rd = [0x90, 0x00]" "rb = [0, 0, 0]"
  define s0 where s0: "s0 = remote_card_app (map RecvByte (proxy_response 3 (BYTE_ConvertFromArrayToHexString rd False) @ [NL]))"
  have s: "remoteReadersMap s0 2 \<noteq> None" "cardReaderMap s0 2 = Some ''Simona''" "rules_idle s0"
    "\<not> bAUTO_REQUEST_DATA (m_winscardConfig s0)" "loggable s0 sb" "has_socket 0 s0" "w_tx s0 = []"
    by (simp_all add: s0 remote_card_app_def connected_app_def has_socket_def rules_idle_def loggable_def quiet_app_def
        app_init_def REMOTE_CONFIG_new_def WINSCARD_CONFIG_new_def WINSCARD_CONFIG_clear_def)
  have id: "nextCommandID (m_remoteConfig s0) + 2 = 3"
    by (simp add: s0 remote_card_app_def connected_app_def REMOTE_CONFIG_new_def)
  have rx: "w_rx s0 = map RecvByte (proxy_response (nextCommandID (m_remoteConfig s0) + 2)
      (BYTE_ConvertFromArrayToHexString rd False) @ [NL]) @ []"
    unfolding id by (simp add: s0 remote_card_app_def)
  have cb: "unat (4 :: dword) \<le> MAX_APDU_LENGTH" "unat (4 :: dword) \<le> length sb"
    by (simp_all add: MAX_APDU_LENGTH_def bufs)
  have len: "2 \<le> length rd" "length rd \<le> 260" "length rd \<le> length rb" by (simp_all add: bufs)
  have out: "blit rb 0 rd = [0x90, 0x00, 0]" "of_nat (length rd) = (2 :: dword)" "take (unat (4 :: dword)) sb = sb"
    by (simp_all add: blit_def bufs)
  have "\<exists>t. SCardTransmit (None :: (nat \<Rightarrow> (unit, unit) transmit_fn) option) zero_frame 2 () sb 4 () rb 3 s0 =
      Some (Inr (SCARD_S_SUCCESS, (), blit rb 0 rd, of_nat (length rd)), t) \<and> w_rx t = [] \<and>
    w_tx t = w_tx s0 @ [Remote_FormatRequest ''Simona'' (nextCommandID (m_remoteConfig s0) + 2) ''APDU''
        (BYTE_ConvertFromArrayToHexString (take (unat (4 :: dword)) sb) False) [] CMD_LINE_SEPARATOR @ [NL]]"
    by (rule remote_transmit_end_to_end; fact s(1-6) cb rx len)
  then have "\<exists>t. SCardTransmit (None :: (nat \<Rightarrow> (unit, unit) transmit_fn) option) zero_frame 2 () sb 4 () rb 3 s0 =
      Some (Inr (SCARD_S_SUCCESS, (), [0x90, 0x00, 0], 2), t) \<and> w_rx t = [] \<and>
    w_tx t = [Remote_FormatRequest ''Simona'' 3 ''APDU'' (BYTE_ConvertFromArrayToHexString sb False) [] CMD_LINE_SEPARATOR @ [NL]]"
    unfolding id out s(7) append_Nil .
  then show ?thesis unfolding s0 bufs .
qed

text \<open>
  Forcing input data breaks commands without \<open>P3\<close>. With \<open>FORCE_APDU_NONZERO_INPUT_DATA\<close>, a local
  card gets a four-byte command as five bytes whose last one, 01, announces a data byte that is
  not sent, and a five-byte command with its last byte (a length of expected data, say) replaced
  by the length 01 of one zero byte.
\<close>

theorem forced_input_data:
  assumes "rules_idle s" and "\<not> IsRemoteCard h s"
    and "bFORCE_APDU_NONZERO_INPUT_DATA (m_winscardConfig s)" and "\<not> bAUTO_REQUEST_DATA (m_winscardConfig s)"
    and "length cmd = 4 \<or> length cmd = 5" and "loggable s cmd" and "length (f_send fr) = MAX_APDU_LENGTH"
    and card: "f 0 (h, spci, (if length cmd = 4 then cmd @ [0x01] else take 4 cmd @ [0x01, 0x00]), rpci, rbuf, pcb) =
      (st, pci, rbuf', n)"
    and "unat (answered st n) \<le> MAX_APDU_LENGTH" and "unat (answered st n) \<le> length rbuf'"
  shows "\<exists>t. SCardTransmit (Some f) fr h spci cmd (of_nat (length cmd)) rpci rbuf pcb s =
      Some (Inr (st, pci, rbuf', answered st n), t)"
proof -
  let ?n = "of_nat (length cmd) :: dword" and ?b = "blit (f_send fr) 0 cmd"
  have n: "unat ?n = length cmd" "?n < 6" "unat ?n \<le> MAX_APDU_LENGTH" "unat (?n + 1) = length cmd + 1"
    using assms(5) by (auto simp: MAX_APDU_LENGTH_def)
  obtain t where t: "before_card (f_send fr) (f_in fr) h cmd ?n s = (Inr (?b, ?n), t)"
    "visible t = visible (count_sent ?n (with_command cmd s))"
    using before_card_idle[OF assms(1) n(3) _ assms(6), of "f_send fr" "f_in fr" h] n(1) by auto
  have c: "m_winscardConfig t = m_winscardConfig s" "rules_idle t" "\<not> IsRemoteCard h t"
    using visible_same(5)[OF t(2)] idle_visible[OF t(2)] local_visible[OF t(2)] assms(1,2) by simp_all
  let ?x = "\<lparr>x_send = ?b, x_cb = ?n, x_recv = rbuf, x_pcb = pcb, x_pci = rpci, x_result = SCARD_S_SUCCESS\<rparr>"
  let ?x1 = "?x\<lparr>x_send := ?b[4 := 1, 5 := 0], x_cb := ?n + 1\<rparr>"
  let ?y = "?x1\<lparr>x_recv := rbuf', x_pcb := n, x_pci := pci, x_result := st\<rparr>"
  have force: "force_nonzero ?x t = (Inr ?x1, t)"
    using c(1) assms(3) n(2) by (simp add: force_nonzero_def bindA_unfold)
  have sent: "take (length cmd + 1) (?b[4 := 1, 5 := 0]) =
      (if length cmd = 4 then cmd @ [0x01] else take 4 cmd @ [0x01, 0x00])"
  proof -
    obtain b0 b1 b2 b3 r where cmd: "cmd = b0 # b1 # b2 # b3 # r" "r = [] \<or> (\<exists>b4. r = [b4])"
      using assms(5) by (auto simp: length_Suc_conv numeral_eq_Suc)
    have "6 \<le> length (f_send fr)"
      using assms(7) by (simp add: MAX_APDU_LENGTH_def)
    then obtain j0 j1 j2 j3 j4 j5 js where "f_send fr = j0 # j1 # j2 # j3 # j4 # j5 # js"
      by (auto simp: Suc_le_length_iff numeral_eq_Suc)
    then show ?thesis using cmd by (auto simp: blit_0)
  qed
  have "first_exchange (Some f) h spci ?x t = (Inr ?y, t)"
    unfolding first_exchange_def
    using send_local[where prepare = force_nonzero and x' = ?x1, OF c(3) force, of f 0 spci 0 st pci rbuf' n] card sent n(4)
    by simp
  moreover have a: "answer_length ?y = answered st n" by (simp add: answer_length_def answered_def)
  moreover have "\<exists>u. after_card (f_out fr) (f_card_ms fr) (f_library_ms fr) ?y t =
      (Inr (x_result ?y, x_pci ?y, x_recv ?y, answer_length ?y), u) \<and>
    visible u = visible (count_exchange (with_response (take (unat (answer_length ?y)) (x_recv ?y)) t))"
    by (rule after_card_idle) (use c a assms(9,10) in simp_all)
  ultimately show ?thesis using t(1) c(1) assms(4)
    by (auto simp: SCardTransmit_def andthen_def read_out_def)
qed

definition strict_card :: "nat \<Rightarrow> (unit, unit) transmit_fn" where
  "strict_card k q = (case q of (h, spci, cmd, rpci, rbuf, n) \<Rightarrow>
     if 4 < length cmd \<and> length cmd < 5 + unat (cmd ! 4) then (SCARD_S_SUCCESS, rpci, [0x67, 0x00, 0], 2)
     else (SCARD_S_SUCCESS, rpci, [0x90, 0x00, 0], 2))"

definition forcing_app :: app where
  "forcing_app = quiet_app\<lparr>m_winscardConfig := (m_winscardConfig quiet_app)\<lparr>bFORCE_APDU_NONZERO_INPUT_DATA := True\<rparr>\<rparr>"

theorem forced_input_data_witness:
  "\<exists>t. SCardTransmit (Some strict_card) zero_frame 5 () [0x00, 0x44, 0x00, 0x00] (of_nat (length [0x00, 0x44, 0x00, 0x00 :: byte])) ()
      [0, 0, 0] 3 forcing_app =
    Some (Inr (SCARD_S_SUCCESS, (), [0x67, 0x00, 0], answered SCARD_S_SUCCESS 2), t)"
  by (rule forced_input_data)
    (simp_all add: forcing_app_def rules_idle_def loggable_def quiet_app_def app_init_def IsRemoteCard_def
      WINSCARD_CONFIG_new_def WINSCARD_CONFIG_clear_def MAX_APDU_LENGTH_def strict_card_def answered_def)

end
