(* ===== verification/Reader_Lists.thy ===== *)
theory Reader_Lists
  imports Card_Handles
begin

text \<open>
  \<open>SCardListReadersA\<close> and \<open>SCardListReadersW\<close> (\<open>Winscard.cpp\<close>): the list of the real readers with
  the virtual ones appended, in a buffer of the caller or in one the library allocates, and the
  preferred reader moved to the front. The parts the two variants share are written once, over the
  character type; where they differ is an argument. Memory behind a pointer is the list of its
  cells (\<open>None\<close> is a null pointer).
\<close>

abbreviation SCARD_E_NO_READERS_AVAILABLE :: status where "SCARD_E_NO_READERS_AVAILABLE \<equiv> 0x8010002E"
abbreviation SCARD_E_INSUFFICIENT_BUFFER :: status where "SCARD_E_INSUFFICIENT_BUFFER \<equiv> 0x80100008"
abbreviation SCARD_AUTOALLOCATE :: dword where "SCARD_AUTOALLOCATE \<equiv> 0xFFFFFFFF"

text \<open>
  The original function, called twice by one listing: call 0 asks for the length with a null
  buffer, call 1 fills the buffer. It returns the status, the buffer's cells and the length.
\<close>

type_synonym ('g, 'c) list_fn = "nat \<Rightarrow> handle \<times> 'g \<times> 'c list option \<times> dword \<Rightarrow> status \<times> 'c list option \<times> dword"

subsection \<open>Refreshing the virtual readers\<close>

definition reader_atr :: "string \<Rightarrow> unit act" where
  "reader_atr r =
     bindA (Remote_SCardConnect r []) (\<lambda>(status, atr).
     if status = SCARD_S_SUCCESS
     then modA (\<lambda>s. s\<lparr>remoteCardsATRMap := (remoteCardsATRMap s)(r \<mapsto> atr)\<rparr>) else returnA ())"

definition set_virtual :: "(string list \<Rightarrow> string list) \<Rightarrow> app \<Rightarrow> app" where
  "set_virtual f s = s\<lparr>m_winscardConfig := (m_winscardConfig s)\<lparr>listVIRTUAL_READERS := f (listVIRTUAL_READERS (m_winscardConfig s))\<rparr>\<rparr>"

definition refresh_readers :: "unit act" where
  "refresh_readers =
     bindA (getA (\<lambda>s. bRedirect (m_remoteConfig s))) (\<lambda>redirect.
     if redirect then
       bindA (Remote_ListReaders []) (\<lambda>(status, remoteReaders).
       if status = SCARD_S_SUCCESS then
         bindA (modA (\<lambda>s. (set_virtual (\<lambda>_. remoteReaders) s)\<lparr>remoteCardsATRMap := Map.empty\<rparr>)) (\<lambda>_.
         bindA (forA reader_atr remoteReaders) (\<lambda>_.
         modA (\<lambda>s. set_virtual (\<lambda>v. listVIRTUAL_READERS_STATIC (m_winscardConfig s) @ v) s)))
       else returnA ())
     else returnA ())"

subsection \<open>Appending the virtual readers\<close>

text \<open>
  The virtual readers are written over the last terminating zero of the real ones; the result is
  the buffer and the new length, with a zero in its last cell.
\<close>

definition append_at :: "dword \<Rightarrow> nat" where
  "append_at realLen = (if realLen > 0 then unat realLen - 1 else 0)"

definition appended_length :: "dword \<Rightarrow> nat \<Rightarrow> dword" where
  "appended_length realLen virtReadersLen =
     (if realLen = 0 then of_nat (virtReadersLen + 1) else of_nat (unat realLen + virtReadersLen))"

definition write_virtual ::
    "(char \<Rightarrow> 'c) \<Rightarrow> 'c \<Rightarrow> string list \<Rightarrow> dword \<Rightarrow> 'c list \<Rightarrow> ('c list \<times> nat) res" where
  "write_virtual conv zero virt realLen buf =
     bindE (guardE (append_at realLen \<le> length buf) Out_Of_Bounds) (\<lambda>_.
     bindE (String_SerializeAsSeparatedArray conv virt zero (Some (drop (append_at realLen) buf)) (reqLength virt))
       (\<lambda>(_, arr, n). Inr (take (append_at realLen) buf @ the arr, n)))"

definition append_virtual ::
    "(char \<Rightarrow> 'c) \<Rightarrow> 'c \<Rightarrow> string list \<Rightarrow> dword \<Rightarrow> 'c list \<Rightarrow> ('c list \<times> dword) res" where
  "append_virtual conv zero virt realLen buf =
     bindE (write_virtual conv zero virt realLen buf) (\<lambda>(buf1, n).
     let len = appended_length realLen n
     in bindE (guardE (unat (len - 1) < length buf1) Out_Of_Bounds)
          (\<lambda>_. Inr (buf1[unat (len - 1) := zero], len)))"

definition no_real_text :: string where
  "no_real_text = ''No real cards available, but virtual readers specified => continuing only with virtual readers.'' @ [NL]"

subsection \<open>A buffer of the caller\<close>

text \<open>
  \<open>slack\<close> is what a too short buffer is told to have more (0 or 2 cells), \<open>fetch_adj\<close> what the
  length given to the original is reduced by (0 or 1), \<open>parse_adj\<close> likewise for the parser (1 or
  0), \<open>hint\<close> the log line of the wide variant. Lengths are compared as \<open>size_t\<close>.
\<close>

definition list_supplied ::
    "(char \<Rightarrow> 'c) \<Rightarrow> 'c \<Rightarrow> nat \<Rightarrow> dword \<Rightarrow> dword \<Rightarrow> unit act \<Rightarrow> ('g, 'c) list_fn \<Rightarrow> handle \<Rightarrow> 'g \<Rightarrow>
     string list \<Rightarrow> 'c list option \<Rightarrow> dword \<Rightarrow> (status \<times> 'c list option \<times> dword \<times> 'c list list) act" where
  "list_supplied conv zero slack fetch_adj parse_adj hint orig hContext mszGroups virt mszReaders pcchReaders =
     (let (st0, _, len0) = orig 0 (hContext, mszGroups, None, pcchReaders);
          none = (st0 = SCARD_E_NO_READERS_AVAILABLE \<and> virt \<noteq> []);
          status = (if none then SCARD_S_SUCCESS else st0);
          realLen = (if none then 0 else len0)
      in if status \<noteq> SCARD_S_SUCCESS then returnA (status, mszReaders, pcchReaders, [])
         else
           (case mszReaders of
              None \<Rightarrow> bindA hint (\<lambda>_.
                returnA (status, None, of_nat (unat realLen + reqLength virt + slack), []))
            | Some mem \<Rightarrow>
                if unat realLen + reqLength virt + 2 > unat pcchReaders then
                  bindA hint (\<lambda>_.
                  returnA (SCARD_E_INSUFFICIENT_BUFFER, Some mem, of_nat (unat realLen + reqLength virt + slack), []))
                else
                  bindA (liftA (guardE (unat pcchReaders \<le> length mem) Out_Of_Bounds)) (\<lambda>_.
                  let mem0 = blit mem 0 (replicate (unat pcchReaders) zero);
                      (st1, out1, len1) = orig 1 (hContext, mszGroups, Some mem0, pcchReaders - fetch_adj);
                      mem1 = (case out1 of None \<Rightarrow> mem0 | Some m \<Rightarrow> m);
                      none1 = (st1 = SCARD_E_NO_READERS_AVAILABLE \<and> virt \<noteq> [])
                  in bindA (if none1 then debugA no_real_text True else returnA ()) (\<lambda>_.
                     let status1 = (if none1 then SCARD_S_SUCCESS else st1); realLen1 = (if none1 then 0 else len1)
                     in if status1 \<noteq> SCARD_S_SUCCESS then returnA (status1, Some mem1, pcchReaders, [])
                        else
                          bindA (liftA (if virt \<noteq> [] then append_virtual conv zero virt realLen1 mem1
                                        else Inr (mem1, realLen1))) (\<lambda>(mem2, len2).
                          bindA (liftA (String_ParseSeparatedArray mem2 (unat (len2 - parse_adj)) zero [])) (\<lambda>items.
                          returnA (SCARD_S_SUCCESS, Some mem2, len2, items)))))))"

subsection \<open>A buffer of the library\<close>

text \<open>
  The common start of both variants: the length of the real readers, a zeroed block for them and
  the virtual ones with two more cells, and the second call of the original on it. The result is
  the status, the value behind \<open>pcchReaders\<close>, and, when the block was allocated, its content with
  the first length.
\<close>

definition alloc_and_fetch ::
    "'c \<Rightarrow> ('g, 'c) list_fn \<Rightarrow> handle \<Rightarrow> 'g \<Rightarrow> string list \<Rightarrow> (status \<times> dword \<times> ('c list \<times> dword) option) act" where
  "alloc_and_fetch zero orig hContext mszGroups virt =
     (let (st0, _, realLen) = orig 0 (hContext, mszGroups, None, 0);
          none = (st0 = SCARD_E_NO_READERS_AVAILABLE \<and> virt \<noteq> []);
          status = (if none then SCARD_S_SUCCESS else st0);
          pcch = (if none then 0 else realLen)
      in if status \<noteq> SCARD_S_SUCCESS then returnA (status, pcch, None)
         else
           (let newLen = (of_nat (unat pcch + reqLength virt + 2) :: dword);
                block = replicate (unat newLen) zero;
                (st1, out1, len1) = orig 1 (hContext, mszGroups, Some block, newLen);
                block1 = (case out1 of None \<Rightarrow> block | Some m \<Rightarrow> m);
                none1 = (st1 = SCARD_E_NO_READERS_AVAILABLE \<and> virt \<noteq> [])
            in bindA (if none1 then debugA no_real_text True else returnA ()) (\<lambda>_.
               returnA (if none1 then SCARD_S_SUCCESS else st1, if none1 then 0 else len1, Some (block1, realLen)))))"

text \<open>Storing the block's address through \<open>mszReaders\<close>, taken as a pointer to a pointer.\<close>

definition char_cells :: "addr \<Rightarrow> char list" where
  "char_cells a = map (\<lambda>i. char_of (a div 256 ^ i)) [0..<8]"

definition wchar_cells :: "addr \<Rightarrow> wchar list" where
  "wchar_cells a = map (\<lambda>i. of_nat (a div 65536 ^ i)) [0..<4]"

definition store_ptr :: "('c list) \<Rightarrow> 'c list option \<Rightarrow> 'c list option res" where
  "store_ptr cells mszReaders =
     (case mszReaders of
        None \<Rightarrow> Inl Null_Deref
      | Some mem \<Rightarrow> bindE (guardE (length cells \<le> length mem) Out_Of_Bounds) (\<lambda>_. Inr (Some (blit mem 0 cells))))"

text \<open>
  The narrow variant. \<open>a\<close> is the address the allocator returns. The block is handed over and
  remembered only on success; the last component is the block.
\<close>

definition list_alloc_A ::
    "addr \<Rightarrow> ('g, char) list_fn \<Rightarrow> handle \<Rightarrow> 'g \<Rightarrow> string list \<Rightarrow> char list option \<Rightarrow>
     (status \<times> char list option \<times> dword \<times> char list list \<times> char list option) act" where
  "list_alloc_A a orig hContext mszGroups virt mszReaders =
     bindA (alloc_and_fetch (CHR 0x00) orig hContext mszGroups virt) (\<lambda>(status, pcch, blk).
     case blk of
       None \<Rightarrow> returnA (status, mszReaders, pcch, [], None)
     | Some (readers, realLen) \<Rightarrow>
         if status \<noteq> SCARD_S_SUCCESS then returnA (status, mszReaders, pcch, [], None)
         else
           bindA (liftA (append_virtual (\<lambda>c. c) (CHR 0x00) virt realLen readers)) (\<lambda>(readers1, len).
           bindA (liftA (store_ptr (char_cells a) mszReaders)) (\<lambda>mem.
           bindA (liftA (String_ParseNullSeparatedArray readers1 (unat (len - 1)) [])) (\<lambda>items.
           bindA (modA (\<lambda>s. s\<lparr>m_charAllocatedMemoryList := m_charAllocatedMemoryList s @ [a], w_freed := removeAll a (w_freed s)\<rparr>)) (\<lambda>_.
           returnA (status, mem, len, items, Some readers1))))))"

text \<open>
  The wide variant writes the final zero through \<open>mszReaders\<close>, the caller's pointer variable, and
  not into the block; and it hands over the block whatever the status.
\<close>

definition list_alloc_W ::
    "addr \<Rightarrow> ('g, wchar) list_fn \<Rightarrow> handle \<Rightarrow> 'g \<Rightarrow> string list \<Rightarrow> wchar list option \<Rightarrow>
     (status \<times> wchar list option \<times> dword \<times> wchar list list \<times> wchar list option) act" where
  "list_alloc_W a orig hContext mszGroups virt mszReaders =
     bindA (alloc_and_fetch 0 orig hContext mszGroups virt) (\<lambda>(status, pcch, blk).
     case blk of
       None \<Rightarrow> returnA (status, mszReaders, pcch, [], None)
     | Some (readers, realLen) \<Rightarrow>
         bindA
           (if status = SCARD_S_SUCCESS then
              bindA (liftA (write_virtual wchar_of_char 0 virt realLen readers)) (\<lambda>(readers1, n).
              let len = appended_length realLen n
              in case mszReaders of
                   None \<Rightarrow> failA Null_Deref
                 | Some mem \<Rightarrow>
                     bindA (liftA (guardE (unat (len - 1) < length mem) Out_Of_Bounds)) (\<lambda>_.
                     returnA (readers1, Some (mem[unat (len - 1) := 0]), len)))
            else returnA (readers, mszReaders, pcch))
           (\<lambda>(readers2, mem1, len).
         bindA (liftA (store_ptr (wchar_cells a) mem1)) (\<lambda>mem2.
         bindA (liftA (String_ParseNullSeparatedArrayW readers2 (unat len) [])) (\<lambda>items.
         bindA (modA (\<lambda>s. s\<lparr>m_wcharAllocatedMemoryList := m_wcharAllocatedMemoryList s @ [a], w_freed := removeAll a (w_freed s)\<rparr>)) (\<lambda>_.
         returnA (status, mem2, len, items, Some readers2))))))"

subsection \<open>The preferred reader first\<close>

text \<open>\<open>memcmp(a, b, n) == 0\<close> on what the two pointers reach, up to the first difference.\<close>

fun memcmp_eq :: "nat \<Rightarrow> byte list \<Rightarrow> byte list \<Rightarrow> bool res" where
  "memcmp_eq 0 xs ys = Inr True"
| "memcmp_eq (Suc n) (x # xs) (y # ys) = (if x = y then memcmp_eq n xs ys else Inr False)"
| "memcmp_eq (Suc n) _ _ = Inl Out_Of_Bounds"

text \<open>
  The wide variant compares twice the length in bytes, but against the narrow characters of the
  preferred name.
\<close>

definition narrow_bytes :: "char list \<Rightarrow> byte list" where
  "narrow_bytes cs = map byte_of_char cs"

definition wide_bytes :: "wchar list \<Rightarrow> byte list" where
  "wide_bytes ws = concat (map (\<lambda>w. [ucast w, ucast (drop_bit 8 w)]) ws)"

definition pref_at_A :: "string \<Rightarrow> char list \<Rightarrow> nat \<Rightarrow> bool res" where
  "pref_at_A pref mem i = memcmp_eq (length pref) (narrow_bytes (pref @ [CHR 0x00])) (narrow_bytes (drop i mem))"

definition pref_at_W :: "string \<Rightarrow> wchar list \<Rightarrow> nat \<Rightarrow> bool res" where
  "pref_at_W pref mem i = memcmp_eq (length pref * 2) (narrow_bytes (pref @ [CHR 0x00])) (wide_bytes (drop i mem))"

fun find_pref :: "(nat \<Rightarrow> bool res) \<Rightarrow> nat \<Rightarrow> nat \<Rightarrow> nat option res" where
  "find_pref test 0 i = Inr None"
| "find_pref test (Suc n) i = bindE (test i) (\<lambda>b. if b then Inr (Some i) else find_pref test n (i + 1))"

text \<open>Preferred name, a zero, what was before it; what was behind it is in place.\<close>

definition move_first :: "'c \<Rightarrow> nat \<Rightarrow> 'c list \<Rightarrow> nat \<Rightarrow> nat \<Rightarrow> 'c list" where
  "move_first zero L mem len i =
     blit ((blit (take len mem) 0 (take L (drop i mem)))[L := zero]) (L + 1) (take i mem) @ drop len mem"

text \<open>
  The loop bound \<open>*pcchReaders - length\<close> is computed as \<open>size_t\<close>: for a name longer than the
  buffer it wraps, and the search runs off the memory.
\<close>

definition reorder_readers :: "'c \<Rightarrow> (nat \<Rightarrow> bool res) \<Rightarrow> nat \<Rightarrow> 'c list \<Rightarrow> dword \<Rightarrow> 'c list res" where
  "reorder_readers zero test L mem pcch =
     (if L = 0 then Inr mem
      else if unat pcch < L then Inl Out_Of_Bounds
      else
        bindE (find_pref test (unat pcch - L) 0) (\<lambda>r.
        case r of
          None \<Rightarrow> Inr mem
        | Some i \<Rightarrow> bindE (guardE (unat pcch \<le> length mem) Out_Of_Bounds)
                      (\<lambda>_. Inr (move_first zero L mem (unat pcch) i))))"

subsection \<open>The two entry points\<close>

definition report_readers :: "string \<Rightarrow> string list \<Rightarrow> unit act" where
  "report_readers sep names =
     bindA (logA (''-> Found readers: '' @ concat (map (\<lambda>n. n @ sep) names) @ [NL])) (\<lambda>_.
     logA (''Number of readers found: '' @ fmt_u (length names) @ [NL]))"

definition reorder_memory :: "'c \<Rightarrow> ('c list \<Rightarrow> nat \<Rightarrow> bool res) \<Rightarrow> string \<Rightarrow> status \<Rightarrow> 'c list option \<Rightarrow> dword \<Rightarrow> 'c list option res" where
  "reorder_memory zero test pref status mszReaders pcch =
     (case mszReaders of
        None \<Rightarrow> Inr None
      | Some mem \<Rightarrow>
          if status = STAT_OK
          then bindE (reorder_readers zero (test mem) (length pref) mem pcch) (\<lambda>m. Inr (Some m))
          else Inr (Some mem))"

definition SCardListReadersA ::
    "addr \<Rightarrow> ('g, char) list_fn option \<Rightarrow> handle \<Rightarrow> 'g \<Rightarrow> char list option \<Rightarrow> dword \<Rightarrow>
     (status \<times> char list option \<times> dword \<times> char list option) act" where
  "SCardListReadersA a orig hContext mszGroups mszReaders pcchReaders =
     bindA (logA (''SCardListReaders called'' @ [NL])) (\<lambda>_.
     bindA refresh_readers (\<lambda>_.
     bindA (getA m_winscardConfig) (\<lambda>c.
     bindA (case orig of None \<Rightarrow> failA Null_Deref | Some f \<Rightarrow> returnA f) (\<lambda>f.
     bindA
       (if pcchReaders = SCARD_AUTOALLOCATE
        then list_alloc_A a f hContext mszGroups (listVIRTUAL_READERS c) mszReaders
        else bindA (list_supplied (\<lambda>c. c) (CHR 0x00) 0 0 1 (returnA ()) f hContext mszGroups
                      (listVIRTUAL_READERS c) mszReaders pcchReaders)
               (\<lambda>(status, mem, len, items). returnA (status, mem, len, items, None)))
       (\<lambda>(status, mem, len, items, block).
     bindA (liftA (reorder_memory (CHR 0x00) (pref_at_A (sREADER_ORDERED_FIRST c)) (sREADER_ORDERED_FIRST c) status mem len)) (\<lambda>mem1.
     bindA (report_readers '','' items) (\<lambda>_.
     returnA (status, mem1, len, block))))))))"

text \<open>UTF-8 of a wide name for the log; the converter throws on a surrogate.\<close>

definition utf8_char :: "wchar \<Rightarrow> string res" where
  "utf8_char w =
     (let n = unat w
      in if n < 0x80 then Inr [char_of n]
         else if n < 0x800 then Inr [char_of (0xC0 + n div 64), char_of (0x80 + n mod 64)]
         else if 0xD800 \<le> n \<and> n < 0xE000 then Inl (Throws Exn_Range_Error)
         else Inr [char_of (0xE0 + n div 4096), char_of (0x80 + n div 64 mod 64), char_of (0x80 + n mod 64)])"

fun utf8_string :: "wchar list \<Rightarrow> string res" where
  "utf8_string [] = Inr []"
| "utf8_string (w # ws) = bindE (utf8_char w) (\<lambda>c. bindE (utf8_string ws) (\<lambda>s. Inr (c @ s)))"

fun utf8_strings :: "wchar list list \<Rightarrow> string list res" where
  "utf8_strings [] = Inr []"
| "utf8_strings (w # ws) = bindE (utf8_string w) (\<lambda>c. bindE (utf8_strings ws) (\<lambda>s. Inr (c # s)))"

definition SCardListReadersW ::
    "addr \<Rightarrow> ('g, wchar) list_fn option \<Rightarrow> handle \<Rightarrow> 'g \<Rightarrow> wchar list option \<Rightarrow> dword \<Rightarrow>
     (status \<times> wchar list option \<times> dword \<times> wchar list option) act" where
  "SCardListReadersW a orig hContext mszGroups mszReaders pcchReaders =
     bindA (logA (''SCardListReadersW(hContext:0x'' @ fmt_handle hContext @ '') called'' @ [NL])) (\<lambda>_.
     bindA refresh_readers (\<lambda>_.
     bindA (getA m_winscardConfig) (\<lambda>c.
     bindA (case orig of None \<Rightarrow> failA Null_Deref | Some f \<Rightarrow> returnA f) (\<lambda>f.
     bindA
       (if pcchReaders = SCARD_AUTOALLOCATE
        then list_alloc_W a f hContext mszGroups (listVIRTUAL_READERS c) mszReaders
        else bindA (list_supplied wchar_of_char 0 2 1 0
                      (logA (''Likely dummy call to obtain required buffer length for readers'' @ [NL])) f hContext mszGroups
                      (listVIRTUAL_READERS c) mszReaders pcchReaders)
               (\<lambda>(status, mem, len, items). returnA (status, mem, len, items, None)))
       (\<lambda>(status, mem, len, items, block).
     bindA (liftA (reorder_memory 0 (pref_at_W (sREADER_ORDERED_FIRST c)) (sREADER_ORDERED_FIRST c) status mem len)) (\<lambda>mem1.
     bindA (liftA (utf8_strings items)) (\<lambda>names.
     bindA (report_readers '', '' names) (\<lambda>_.
     returnA (status, mem1, len, block)))))))))"

subsection \<open>Packed lists\<close>

text \<open>A list of names as the interface returns it: each with its zero, and one zero more.\<close>

definition pack :: "(char \<Rightarrow> 'c) \<Rightarrow> 'c \<Rightarrow> string list \<Rightarrow> 'c list" where
  "pack conv zero ns = ser_items conv zero ns @ [zero]"

lemma length_pack [simp]: "length (pack conv zero ns) = reqLength ns + 1"
  by (simp add: pack_def)

lemma ser_items_append: "ser_items conv sep (xs @ ys) = ser_items conv sep xs @ ser_items conv sep ys"
  by (induction xs) auto

lemma reqLength_append: "reqLength (xs @ ys) = reqLength xs + reqLength ys"
  by (induction xs) auto

text \<open>
  The documented behaviour of the original listing for readers \<open>ns\<close> in a fixed state of the
  system: it reports the packed length, and fills a buffer that has room.
\<close>

definition lists_readers :: "(char \<Rightarrow> 'c) \<Rightarrow> 'c \<Rightarrow> string list \<Rightarrow> ('g, 'c) list_fn \<Rightarrow> bool" where
  "lists_readers conv zero ns f \<longleftrightarrow>
     (\<forall>ctx g len. f 0 (ctx, g, None, len) = (SCARD_S_SUCCESS, None, of_nat (reqLength ns + 1))) \<and>
     (\<forall>ctx g mem len. reqLength ns + 1 \<le> unat len \<longrightarrow> reqLength ns + 1 \<le> length mem \<longrightarrow>
        f 1 (ctx, g, Some mem, len) =
          (SCARD_S_SUCCESS, Some (blit mem 0 (pack conv zero ns)), of_nat (reqLength ns + 1)))"

lemma unat_of_nat_dword: "n < 2 ^ 32 \<Longrightarrow> unat (of_nat n :: dword) = n"
  by (simp add: unat_of_nat take_bit_eq_mod)

lemma unat_of_nat_minus_1: "n < 2 ^ 32 \<Longrightarrow> unat ((of_nat (n + 1) :: dword) - 1) = n"
  using unat_of_nat_dword[of n] by simp

lemma unat_dword_less: "unat (w :: dword) < 2 ^ 32"
proof -
  have "unat w < 2 ^ LENGTH(32)" by (rule unsigned_less)
  then show ?thesis by simp
qed

lemma write_virtual_packed:
  assumes "reqLength ns + 1 + reqLength virt \<le> length buf" and "reqLength ns + 1 < 2 ^ 32"
  shows "write_virtual conv zero virt (of_nat (reqLength ns + 1)) (blit buf 0 (pack conv zero ns)) =
    Inr (ser_items conv zero (ns @ virt) @ drop (reqLength ns + reqLength virt) (blit buf 0 (pack conv zero ns)), reqLength virt)"
proof -
  let ?len = "of_nat (reqLength ns + 1) :: dword"
  let ?b = "blit buf 0 (pack conv zero ns)"
  have u: "unat ?len = reqLength ns + 1" by (rule unat_of_nat_dword[OF assms(2)])
  then have "?len > 0" by (metis add_gr_0 less_one unat_gt_0 word_neq_0_conv unat_0 not_gr_zero)
  then have at: "append_at ?len = reqLength ns" unfolding append_at_def using u by simp
  have len: "length ?b = length buf" using assms(1) by simp
  have "take (reqLength ns) ?b = ser_items conv zero ns" by (simp add: blit_0 pack_def)
  moreover have "reqLength virt \<le> length buf - reqLength ns" using assms(1) by simp
  ultimately show ?thesis
    unfolding write_virtual_def at
    using assms(1) len
    by (simp add: String_SerializeAsSeparatedArray_def Let_def blit_0[of "drop _ _"]
        ser_items_append add.commute del: length_blit)
qed

lemma append_virtual_packed:
  assumes "reqLength ns + 2 + reqLength virt \<le> length buf" and "reqLength ns + 2 + reqLength virt < 2 ^ 32"
  shows "append_virtual conv zero virt (of_nat (reqLength ns + 1)) (blit buf 0 (pack conv zero ns)) =
    Inr (pack conv zero (ns @ virt) @ drop (reqLength ns + reqLength virt + 1) (blit buf 0 (pack conv zero ns)),
         of_nat (reqLength ns + reqLength virt + 1))"
proof -
  let ?b = "blit buf 0 (pack conv zero ns)"
  let ?n = "reqLength ns + reqLength virt"
  have w: "write_virtual conv zero virt (of_nat (reqLength ns + 1)) ?b =
      Inr (ser_items conv zero (ns @ virt) @ drop ?n ?b, reqLength virt)"
    by (rule write_virtual_packed) (use assms in simp_all)
  have u: "unat (of_nat (reqLength ns + 1) :: dword) = reqLength ns + 1"
    by (rule unat_of_nat_dword) (use assms(2) in simp)
  then have "(of_nat (reqLength ns + 1) :: dword) \<noteq> 0"
    by (metis add_is_0 one_neq_zero unat_0)
  then have len: "appended_length (of_nat (reqLength ns + 1)) (reqLength virt) = of_nat (?n + 1)"
    unfolding appended_length_def u by (simp add: algebra_simps)
  have idx: "unat ((of_nat (?n + 1) :: dword) - 1) = ?n"
    by (rule unat_of_nat_minus_1) (use assms(2) in simp)
  have lb: "length ?b = length buf" using assms(1) by simp
  then obtain c cs where d: "drop ?n ?b = c # cs" using assms(1) by (cases "drop ?n ?b") auto
  then have cs: "cs = drop (?n + 1) ?b" by (metis drop_Suc drop_drop list.sel(3) Suc_eq_plus1 tl_drop)
  have "length (ser_items conv zero (ns @ virt)) = ?n" by (simp add: reqLength_append)
  then have "(ser_items conv zero (ns @ virt) @ drop ?n ?b)[?n := zero] = pack conv zero (ns @ virt) @ cs"
    unfolding d by (simp add: pack_def list_update_append)
  moreover have "?n < Suc (length buf - Suc 0)" using assms(1) by linarith
  ultimately show ?thesis
    unfolding append_virtual_def w using idx lb assms(1) cs len by (simp add: Let_def d reqLength_append)
qed

lemma list_supplied_packed:
  assumes orig: "lists_readers conv zero ns f"
    and free: "sep_free conv zero (ns @ virt)" and "ns \<noteq> []" and "virt \<noteq> []"
    and room: "reqLength ns + reqLength virt + 3 \<le> unat pcch" and mem: "unat pcch \<le> length mem"
  shows "\<exists>rest. list_supplied conv zero slack 0 1 hint f ctx g virt (Some mem) pcch s =
    (Inr (SCARD_S_SUCCESS, Some (pack conv zero (ns @ virt) @ rest),
          of_nat (reqLength ns + reqLength virt + 1), map (map conv) (ns @ virt)), s)"
proof -
  have lt: "unat pcch < 2 ^ 32" by (rule unat_dword_less)
  let ?mem0 = "blit mem 0 (replicate (unat pcch) zero)"
  have q: "f 0 (ctx, g, None, pcch) = (SCARD_S_SUCCESS, None, of_nat (reqLength ns + 1))"
    and r: "f 1 (ctx, g, Some ?mem0, pcch) =
      (SCARD_S_SUCCESS, Some (blit ?mem0 0 (pack conv zero ns)), of_nat (reqLength ns + 1))"
    using orig room mem by (auto simp: lists_readers_def)
  have u: "unat (of_nat (reqLength ns + 1) :: dword) = reqLength ns + 1"
    by (rule unat_of_nat_dword) (use room lt in simp)
  let ?b = "blit ?mem0 0 (pack conv zero ns)"
  let ?rest = "drop (reqLength ns + reqLength virt + 1) ?b"
  let ?n = "reqLength ns + reqLength virt"
  have app: "append_virtual conv zero virt (of_nat (reqLength ns + 1)) ?b =
      Inr (pack conv zero (ns @ virt) @ ?rest, of_nat (?n + 1))"
    by (rule append_virtual_packed) (use room mem lt in simp_all)
  have idx: "unat ((of_nat (?n + 1) :: dword) - 1) = ?n"
    by (rule unat_of_nat_minus_1) (use room lt in simp)
  have parse: "String_ParseSeparatedArray (pack conv zero (ns @ virt) @ ?rest) ?n zero [] = Inr (map (map conv) (ns @ virt))"
    using parse_serialized[OF free, of ?rest] assms(3) by (simp add: pack_def reqLength_append)
  have le: "\<not> reqLength ns + 1 + reqLength virt + 2 > unat pcch" using room by simp
  show ?thesis
    unfolding list_supplied_def
    using q r u app idx parse le mem assms(4)
    by (intro exI[of _ ?rest]) (simp add: Let_def bindA_def del: of_nat_add of_nat_Suc)
qed

lemma memcmp_eq_take:
  "n \<le> length xs \<Longrightarrow> n \<le> length ys \<Longrightarrow> memcmp_eq n xs ys = Inr (take n xs = take n ys)"
  by (induction n xs ys rule: memcmp_eq.induct) auto

lemma inj_byte_of_char: "inj byte_of_char"
  by (rule inj_on_inverseI[of _ char_of_byte]) simp

lemma pref_at_A_eq:
  assumes "i + length pref \<le> length mem"
  shows "pref_at_A pref mem i = Inr (take (length pref) (drop i mem) = pref)"
proof -
  have "length pref \<le> length (narrow_bytes (pref @ [CHR 0x00]))" "length pref \<le> length (narrow_bytes (drop i mem))"
    using assms by (simp_all add: narrow_bytes_def)
  then show ?thesis
    using map_injective[OF _ inj_byte_of_char, of pref "take (length pref) (drop i mem)"]
    by (auto simp: pref_at_A_def memcmp_eq_take narrow_bytes_def take_map)
qed

lemma find_pref_first:
  assumes "\<forall>j. i \<le> j \<and> j < k \<longrightarrow> test j = Inr False" and "test k = Inr True" and "i \<le> k" and "k < i + n"
  shows "find_pref test n i = Inr (Some k)"
  using assms
proof (induction n arbitrary: i)
  case (Suc n)
  show ?case
  proof (cases "i = k")
    case True
    with Suc.prems show ?thesis by simp
  next
    case False
    then have "test i = Inr False" using Suc.prems(1,3) by simp
    moreover have "find_pref test n (i + 1) = Inr (Some k)"
      by (rule Suc.IH) (use Suc.prems False in simp_all)
    ultimately show ?thesis by simp
  qed
qed simp

lemma move_first_packed:
  assumes "length pref = L"
  shows "move_first zero L ((P @ pref @ [zero] @ Q) @ rest) (length (P @ pref @ [zero] @ Q)) (length P) =
    (pref @ [zero] @ P @ Q) @ rest"
proof -
  define M where "M = P @ pref @ [zero] @ Q"
  have M: "take L (drop (length P) (M @ rest)) = pref" "take (length P) (M @ rest) = P"
    "drop (length P + L + 1) M = Q" "L + 1 \<le> length M"
    using assms by (simp_all add: M_def)
  obtain c D where d: "drop L M = c # D" using M(4) by (cases "drop L M") auto
  then have D: "D = drop (L + 1) M" by (metis Suc_eq_plus1 drop_Suc list.sel(3) tl_drop)
  have "drop (length P) D = Q" unfolding D using M(3) by (simp add: add.assoc add.commute)
  moreover have "(blit M 0 pref)[L := zero] = pref @ zero # D"
    using assms by (simp add: blit_0 d list_update_append)
  ultimately show ?thesis
    using M(1,2) assms unfolding move_first_def M_def[symmetric]
    by (simp add: blit_def[of "pref @ zero # D"])
qed

lemma reorder_packed:
  assumes "pref \<noteq> []"
    and total: "reqLength (pre @ pref # post) + 1 < 2 ^ 32"
    and first: "\<forall>j < reqLength pre. take (length pref) (drop j (pack (\<lambda>c. c) (CHR 0x00) (pre @ pref # post))) \<noteq> pref"
    and mem_def: "mem = pack (\<lambda>c. c) (CHR 0x00) (pre @ pref # post) @ rest"
  shows "reorder_readers (CHR 0x00) (pref_at_A pref mem) (length pref) mem (of_nat (reqLength (pre @ pref # post) + 1)) =
    Inr (pack (\<lambda>c. c) (CHR 0x00) (pref # pre @ post) @ rest)"
proof -
  let ?P = "ser_items (\<lambda>c. c) (CHR 0x00) pre" and ?Q = "ser_items (\<lambda>c. c) (CHR 0x00) post @ [CHR 0x00]"
  let ?M = "?P @ pref @ [CHR 0x00] @ ?Q"
  have M: "pack (\<lambda>c. c) (CHR 0x00) (pre @ pref # post) = ?M"
    using assms(1) by (simp add: pack_def ser_items_append)
  have n: "reqLength (pre @ pref # post) + 1 = length ?M" using M length_pack by metis
  have u: "unat (of_nat (reqLength (pre @ pref # post) + 1) :: dword) = length ?M"
    using unat_of_nat_dword[OF total] n by simp
  have lenM: "length ?M = reqLength pre + length pref + reqLength post + 2" by simp
  have lm: "length mem = length ?M + length rest" unfolding mem_def M by simp
  have before: "pref_at_A pref mem j = Inr False" if "j < reqLength pre" for j
  proof -
    have "take (length pref) (drop j mem) = take (length pref) (drop j ?M)"
      using that lenM unfolding mem_def M by simp
    then show ?thesis using first that pref_at_A_eq[of j pref mem] lenM lm M by simp
  qed
  have at: "pref_at_A pref mem (reqLength pre) = Inr True"
  proof -
    have "drop (reqLength pre) mem = pref @ [CHR 0x00] @ ?Q @ rest"
      unfolding mem_def M by (simp add: drop_append[of _ ?P])
    then show ?thesis using pref_at_A_eq[of "reqLength pre" pref mem] lenM lm by simp
  qed
  have "find_pref (pref_at_A pref mem) (length ?M - length pref) 0 = Inr (Some (reqLength pre))"
    by (rule find_pref_first) (use before at lenM in simp_all)
  moreover have "move_first (CHR 0x00) (length pref) mem (length ?M) (reqLength pre) =
      pack (\<lambda>c. c) (CHR 0x00) (pref # pre @ post) @ rest"
    using move_first_packed[of pref "length pref" "CHR 0x00" ?P ?Q rest] assms(1)
    unfolding mem_def M by (simp add: pack_def ser_items_append)
  ultimately show ?thesis
    unfolding reorder_readers_def u using assms(1) lm lenM by simp
qed

subsection \<open>Properties\<close>

text \<open>An original library with fixed readers.\<close>

definition fixed_readers :: "string list \<Rightarrow> ('g, char) list_fn" where
  "fixed_readers ns n = (\<lambda>(ctx, g, mem, len).
     if n = 0 then (SCARD_S_SUCCESS, None, of_nat (reqLength ns + 1))
     else (SCARD_S_SUCCESS, map_option (\<lambda>m. blit m 0 (pack (\<lambda>c. c) (CHR 0x00) ns)) mem, of_nat (reqLength ns + 1)))"

lemma fixed_readers_lists: "lists_readers (\<lambda>c. c) (CHR 0x00) ns (fixed_readers ns)"
  by (simp add: lists_readers_def fixed_readers_def)



text \<open>
  Asking for the length and then calling with that length fails. The narrow listing reports,
  for a null buffer, two cells fewer than it demands from a buffer: calling it again with a buffer
  of the reported size returns \<open>SCARD_E_INSUFFICIENT_BUFFER\<close> and the same size, for any real and
  virtual readers; the wide listing, which reports two cells more, passes the test.
\<close>

theorem narrow_two_call_idiom_fails:
  assumes "\<And>len. f 0 (ctx, g, None, len) = (SCARD_S_SUCCESS, None, n)"
    and "unat n + reqLength virt + 2 < 2 ^ 32"
  shows "\<exists>L. list_supplied (\<lambda>c. c) (CHR 0x00) 0 0 1 (returnA ()) f ctx g virt None p s =
      (Inr (SCARD_S_SUCCESS, None, L, []), s) \<and>
    list_supplied (\<lambda>c. c) (CHR 0x00) 0 0 1 (returnA ()) f ctx g virt (Some mem) L s =
      (Inr (SCARD_E_INSUFFICIENT_BUFFER, Some mem, L, []), s) \<and>
    \<not> unat n + reqLength virt + 2 > unat (of_nat (unat n + reqLength virt + 2) :: dword)"
proof -
  let ?L = "of_nat (unat n + reqLength virt) :: dword"
  have L: "unat ?L = unat n + reqLength virt" by (rule unat_of_nat_dword) (use assms(2) in simp)
  have W: "unat (of_nat (unat n + reqLength virt + 2) :: dword) = unat n + reqLength virt + 2"
    by (rule unat_of_nat_dword) (use assms(2) in simp)
  have "unat n + reqLength virt + 2 > unat ?L" unfolding L by simp
  then show ?thesis
    unfolding W by (intro exI[of _ ?L]) (simp add: list_supplied_def assms(1) Let_def bindA_def del: of_nat_add)
qed

theorem narrow_two_call_idiom_fails_witness:
  "\<exists>L. list_supplied (\<lambda>c. c) (CHR 0x00) 0 0 1 (returnA ()) (fixed_readers [''Gem'']) 0 () [] None 0 quiet_app =
      (Inr (SCARD_S_SUCCESS, None, L, []), quiet_app) \<and>
    list_supplied (\<lambda>c. c) (CHR 0x00) 0 0 1 (returnA ()) (fixed_readers [''Gem'']) 0 () []
        (Some (replicate 5 (CHR 0x00))) L quiet_app =
      (Inr (SCARD_E_INSUFFICIENT_BUFFER, Some (replicate 5 (CHR 0x00)), L, []), quiet_app)"
  using narrow_two_call_idiom_fails[of "fixed_readers [''Gem'']" 0 "()" 5 "[]" 0 quiet_app "replicate 5 (CHR 0x00)"]
  by (auto simp: fixed_readers_def)

text \<open>
  C28: The preferred reader is moved to the front. When the preferred name is one of the listed
  readers and does not occur earlier in the buffer, not even inside or across other names, the
  reordered buffer is the packed list with that reader first and the others in their order.
\<close>

theorem preferred_reader_first:
  assumes "pref \<noteq> []" and "reqLength (pre @ pref # post) + 1 < 2 ^ 32"
    and "\<forall>j < reqLength pre. take (length pref) (drop j (pack (\<lambda>c. c) (CHR 0x00) (pre @ pref # post))) \<noteq> pref"
    and "mem = pack (\<lambda>c. c) (CHR 0x00) (pre @ pref # post) @ rest"
  shows "reorder_readers (CHR 0x00) (pref_at_A pref mem) (length pref) mem (of_nat (reqLength (pre @ pref # post) + 1)) =
    Inr (pack (\<lambda>c. c) (CHR 0x00) (pref # pre @ post) @ rest)"
  using reorder_packed[OF assms] .

theorem preferred_reader_first_witness:
  "reorder_readers (CHR 0x00) (pref_at_A ''B'' (''A'' @ [CHR 0x00] @ ''B'' @ [CHR 0x00, CHR 0x00])) 1
      (''A'' @ [CHR 0x00] @ ''B'' @ [CHR 0x00, CHR 0x00]) 5 =
    Inr (''B'' @ [CHR 0x00] @ ''A'' @ [CHR 0x00, CHR 0x00])"
proof -
  have "\<forall>j < reqLength [''A'']. take (length ''B'') (drop j (pack (\<lambda>c. c) (CHR 0x00) ([''A''] @ ''B'' # []))) \<noteq> ''B''"
    by (auto simp: pack_def less_Suc_eq numeral_2_eq_2)
  from preferred_reader_first[OF _ _ this, of _ "[]"] show ?thesis by (simp add: pack_def)
qed

text \<open>
  The wide listing into a library buffer overwrites the caller's stack. When the original has
  at least one reader and the list is longer than the pointer variable the caller passes (four
  cells), \<open>SCardListReadersW\<close> with \<open>SCARD_AUTOALLOCATE\<close> stores its final zero through that variable,
  beyond its end.
\<close>

theorem wide_autoallocate_overruns:
  assumes "lists_readers wchar_of_char 0 ns f" and "ns \<noteq> []"
    and "4 \<le> reqLength ns + reqLength virt" and "reqLength ns + reqLength virt + 3 < 2 ^ 32"
    and "length ptr = 4"
  shows "fst (list_alloc_W a f ctx g virt (Some ptr) s) = Inl Out_Of_Bounds"
proof -
  let ?n = "reqLength ns + reqLength virt"
  have u: "unat (of_nat (reqLength ns + 1) :: dword) = reqLength ns + 1"
    by (rule unat_of_nat_dword) (use assms(4) in simp)
  have v: "unat (of_nat (reqLength ns + 1 + reqLength virt + 2) :: dword) = reqLength ns + 1 + reqLength virt + 2"
    by (rule unat_of_nat_dword) (use assms(4) in simp)
  let ?block = "replicate (reqLength ns + 1 + reqLength virt + 2) (0 :: wchar)"
  have q: "f 0 (ctx, g, None, 0) = (SCARD_S_SUCCESS, None, of_nat (reqLength ns + 1))"
    and r: "f 1 (ctx, g, Some ?block, of_nat (reqLength ns + 1 + reqLength virt + 2)) =
      (SCARD_S_SUCCESS, Some (blit ?block 0 (pack wchar_of_char 0 ns)), of_nat (reqLength ns + 1))"
    using assms(1) v by (auto simp: lists_readers_def)
  have fetch: "alloc_and_fetch 0 f ctx g virt s =
      (Inr (SCARD_S_SUCCESS, of_nat (reqLength ns + 1), Some (blit ?block 0 (pack wchar_of_char 0 ns), of_nat (reqLength ns + 1))), s)"
    unfolding alloc_and_fetch_def using q r u v by (simp add: Let_def bindA_def del: of_nat_add of_nat_Suc)
  have w: "write_virtual wchar_of_char 0 virt (of_nat (reqLength ns + 1)) (blit ?block 0 (pack wchar_of_char 0 ns)) =
      Inr (ser_items wchar_of_char 0 (ns @ virt) @ drop ?n (blit ?block 0 (pack wchar_of_char 0 ns)), reqLength virt)"
    by (rule write_virtual_packed) (use assms(4) in simp_all)
  have "(of_nat (reqLength ns + 1) :: dword) \<noteq> 0" using u by (metis add_is_0 one_neq_zero unat_0)
  then have len: "appended_length (of_nat (reqLength ns + 1)) (reqLength virt) = of_nat (?n + 1)"
    unfolding appended_length_def u by (simp add: algebra_simps)
  have "unat ((of_nat (?n + 1) :: dword) - 1) = ?n" by (rule unat_of_nat_minus_1) (use assms(4) in simp)
  then show ?thesis
    unfolding list_alloc_W_def using fetch w len assms(3,5)
    by (simp add: bindA_def Let_def del: of_nat_add of_nat_Suc)
qed

theorem wide_autoallocate_overruns_witness:
  "\<exists>f :: (unit, wchar) list_fn. lists_readers wchar_of_char 0 [''Gem''] f \<and>
     fst (list_alloc_W 4096 f 0 () [''Simona''] (Some [0, 0, 0, 0]) quiet_app) = Inl Out_Of_Bounds"
proof -
  let ?f = "\<lambda>n (ctx, g, mem, len). if n = 0 then (SCARD_S_SUCCESS, None, of_nat (reqLength [''Gem''] + 1))
     else (SCARD_S_SUCCESS, map_option (\<lambda>m. blit m 0 (pack wchar_of_char 0 [''Gem''])) mem, of_nat (reqLength [''Gem''] + 1))"
  have l: "lists_readers wchar_of_char 0 [''Gem''] ?f" by (simp add: lists_readers_def)
  have "fst (list_alloc_W 4096 ?f 0 () [''Simona''] (Some [0, 0, 0, 0]) quiet_app) = Inl Out_Of_Bounds"
    by (rule wide_autoallocate_overruns[OF l]) simp_all
  with l show ?thesis by blast
qed

end
