(* ===== verification/Library_Machine.thy ===== *)
theory Library_Machine
  imports Transmit Reader_Lists
begin

text \<open>
  The library as a state machine. A step is a call of any exported function that returns, with any
  arguments and any behaviour of the original library, the proxy and the network; the states an
  application can reach are those after any sequence of such calls. What all of them have in common is
  proved once in the locale \<open>library_inv\<close> from the laws of the single effects, and interpreted on the
  invariants of the library.
\<close>

subsection \<open>Steps\<close>

text \<open>
  Arguments that are only passed through are memory cells or addresses. The last rule is what the pure
  forwarders and the functions that answer a remote card locally leave behind (\<open>Forwarders\<close>): a line of the log.
\<close>

inductive lib_step :: "app \<Rightarrow> app \<Rightarrow> bool" where
  establish: "SCardEstablishContext orig scope (r1 :: addr) (r2 :: addr) h s = (Inr x, t) \<Longrightarrow> lib_step s t"
| release: "SCardReleaseContext orig h s = (Inr x, t) \<Longrightarrow> lib_step s t"
| connect: "SCardConnectA orig c reader mode prots h0 p0 s = (Inr x, t) \<Longrightarrow> lib_step s t"
| connect_wide: "SCardConnectW orig c wreader mode prots h0 p0 s = (Inr x, t) \<Longrightarrow> lib_step s t"
| status: "SCardStatusA orig h (out :: string \<times> byte list) l1 st pr l2 s = (Inr x, t) \<Longrightarrow> lib_step s t"
| change: "SCardGetStatusChangeA orig c time states n s = (Inr x, t) \<Longrightarrow> lib_step s t"
| change_wide: "SCardGetStatusChangeW orig c time wstates n s = (Inr x, t) \<Longrightarrow> lib_step s t"
| free: "SCardFreeMemory orig c p s = (Inr x, t) \<Longrightarrow> lib_step s t"
| readers: "SCardListReadersA a orig c (groups :: string option) mem n s = (Inr x, t) \<Longrightarrow> lib_step s t"
| readers_wide: "SCardListReadersW a orig c (wgroups :: wchar list option) wmem n s = (Inr x, t) \<Longrightarrow> lib_step s t"
| transmit: "SCardTransmit orig fr h (spci :: byte list) sbuf cb (rpci :: byte list) rbuf pcb s = Some (Inr x, t) \<Longrightarrow> lib_step s t"
| forward: "lib_step s (LogWinscardRules msg s)"

text \<open>A forwarded call that returns is a step of the last kind, whatever types its arguments have.\<close>

lemma forwarded_step:
  "bindA (logA msg) (\<lambda>_. call_original orig args) s = (Inr x, t) \<Longrightarrow> lib_step s t"
  "bindA (logA msg) (\<lambda>_. local_only h remote orig args) s = (Inr x, t) \<Longrightarrow> lib_step s t"
  by (auto simp: bindA_unfold local_only_def call_original_def intro: lib_step.forward
      split: option.splits if_splits)

inductive lib_reach :: "app \<Rightarrow> app \<Rightarrow> bool" for s0 :: app where
  start: "lib_reach s0 s0"
| step: "lib_reach s0 s \<Longrightarrow> lib_step s t \<Longrightarrow> lib_reach s0 t"

inductive_cases lib_stepE: "lib_step s t"

subsection \<open>What survives every call\<close>

locale library_inv = transmit_inv P for P :: "app \<Rightarrow> bool" +
  assumes debug_law: "P s \<Longrightarrow> P (LogDebugString m b s)"
    and request_law: "keeps P (Remote_SendRequest r c d resp)"
    and line_law: "keeps P (SendLine p l)" "keeps P (ReceiveResponse p e n)"
    and sampled_law: "P s \<Longrightarrow> P (upd_remote (\<lambda>c. c\<lparr>sampleReaded := False\<rparr>) s)"
    and atr_law: "P s \<Longrightarrow> P (s\<lparr>remoteCardsATRMap := atrs\<rparr>)"
    and virtual_law: "P s \<Longrightarrow> P (set_virtual f s)"
    and release_law: "P s \<Longrightarrow> P (Remote_SCardReleaseContext s)"
    and memory_law: "P s \<Longrightarrow> P (s\<lparr>m_charAllocatedMemoryList := cs\<rparr>)" "P s \<Longrightarrow> P (s\<lparr>m_wcharAllocatedMemoryList := cs\<rparr>)"
      "P s \<Longrightarrow> P (s\<lparr>w_freed := cs\<rparr>)"
    and connect_law: "P s \<Longrightarrow> SCardConnectA orig hc reader mode prots h0 p0 s = (Inr x, t) \<Longrightarrow> P t"
begin

lemmas keeps_laws = log_law debug_law counter_law atr_law virtual_law release_law sampled_law memory_law

lemma keeps_call: "keeps P (call_original orig args)"
  by (cases orig) (auto simp: call_original_def intro: keeps_pure)

lemma keeps_option_case: "keeps P a \<Longrightarrow> (\<And>y. keeps P (g y)) \<Longrightarrow> keeps P (case x of None \<Rightarrow> a | Some y \<Rightarrow> g y)"
  by (cases x) simp_all

lemma keeps_local_only: "keeps P (local_only h remote orig args)"
  unfolding local_only_def by (intro keeps_rules keeps_call)

lemmas keeps_all = keeps_rules keeps_call keeps_option_case keeps_local_only keeps_laws keeps_tryA keeps_forA
  request_law line_law

lemma keeps_catch: "keeps P (catch_unknown name msg out e)"
  unfolding catch_unknown_def by (intro keeps_all)

lemma keeps_remote: "keeps P (Remote_SCardConnect r atr)" "keeps P (Remote_ListReaders rs)"
  unfolding Remote_SCardConnect_def Remote_ListReaders_def Let_def by (intro keeps_all keeps_catch; assumption?)+

lemma keeps_refresh: "keeps P refresh_readers"
  unfolding refresh_readers_def reader_atr_def by (intro keeps_all keeps_remote)

lemma keeps_alloc: "keeps P (alloc_and_fetch z f hc g virt)"
  unfolding alloc_and_fetch_def Let_def by (intro keeps_all)

lemma keeps_list_alloc: "keeps P (list_alloc_A a f hc g virt mem)" "keeps P (list_alloc_W a' f' hc g' virt wmem)"
proof -
  show "keeps P (list_alloc_A a f hc g virt mem)"
    unfolding list_alloc_A_def by (intro keeps_all keeps_alloc)
  show "keeps P (list_alloc_W a' f' hc g' virt wmem)"
    unfolding list_alloc_W_def Let_def by (intro keeps_all keeps_alloc)
qed

lemma keeps_supplied: "keeps P hint \<Longrightarrow> keeps P (list_supplied conv z slack fa pa hint f hc g virt mem n)"
  unfolding list_supplied_def Let_def by (intro keeps_all)

lemma keeps_listing: "keeps P (SCardListReadersA a orig hc g mem n)" "keeps P (SCardListReadersW a' orig' hc g' wmem n)"
proof -
  show "keeps P (SCardListReadersA a orig hc g mem n)"
    unfolding SCardListReadersA_def report_readers_def by (intro keeps_all keeps_refresh keeps_list_alloc keeps_supplied)
  show "keeps P (SCardListReadersW a' orig' hc g' wmem n)"
    unfolding SCardListReadersW_def report_readers_def by (intro keeps_all keeps_refresh keeps_list_alloc keeps_supplied)
qed

lemma keeps_contexts: "keeps P (SCardEstablishContext orig scope r1 r2 h)" "keeps P (SCardReleaseContext orig' hc)"
  unfolding SCardEstablishContext_def SCardReleaseContext_def by (intro keeps_all; assumption?)+

lemma keeps_connect_wide: "keeps P (SCardConnectW orig c reader mode prots h0 p0)"
  unfolding SCardConnectW_def measure_command_def by (intro keeps_all)

lemma keeps_status: "keeps P (SCardStatusA orig h out l1 st pr l2)"
  unfolding SCardStatusA_def by (intro keeps_all)

lemma keeps_change: "keeps P (SCardGetStatusChangeA orig c time states n)" "keeps P (SCardGetStatusChangeW orig' c time wstates n)"
  unfolding SCardGetStatusChangeA_def SCardGetStatusChangeW_def status_change_def Let_def by (intro keeps_all; assumption?)+

lemma keeps_free_from:
  "keeps P (free_from m_charAllocatedMemoryList (\<lambda>f s. s\<lparr>m_charAllocatedMemoryList := f (m_charAllocatedMemoryList s)\<rparr>) p)"
  "keeps P (free_from m_wcharAllocatedMemoryList (\<lambda>f s. s\<lparr>m_wcharAllocatedMemoryList := f (m_wcharAllocatedMemoryList s)\<rparr>) p)"
  by (auto simp: keeps_def free_from_def intro: memory_law)

lemma keeps_free: "keeps P (SCardFreeMemory orig c p)"
  unfolding SCardFreeMemory_def by (intro keeps_all keeps_free_from)

lemma kept: "keeps P m \<Longrightarrow> P s \<Longrightarrow> m s = (r, t) \<Longrightarrow> P t"
  by (metis keepsD snd_conv)

text \<open>So it survives every step, and holds in every state an application can reach.\<close>

lemma step_keeps:
  assumes "lib_step s t" and "P s"
  shows "P t"
proof -
  show ?thesis using assms(1)
  proof cases
    case (connect orig c reader mode prots h0 p0 x)
    then show ?thesis using connect_law[OF assms(2)] by blast
  next
    case (transmit orig fr h spci sbuf cb rpci rbuf pcb x)
    from keeps_transmit[OF transmit assms(2)] show ?thesis by simp
  next
    case establish
    from kept[OF keeps_contexts(1) assms(2) this] show ?thesis .
  next
    case release
    from kept[OF keeps_contexts(2) assms(2) this] show ?thesis .
  next
    case connect_wide
    from kept[OF keeps_connect_wide assms(2) this] show ?thesis .
  next
    case status
    from kept[OF keeps_status assms(2) this] show ?thesis .
  next
    case change
    from kept[OF keeps_change(1) assms(2) this] show ?thesis .
  next
    case change_wide
    from kept[OF keeps_change(2) assms(2) this] show ?thesis .
  next
    case free
    from kept[OF keeps_free assms(2) this] show ?thesis .
  next
    case readers
    from kept[OF keeps_listing(1) assms(2) this] show ?thesis .
  next
    case readers_wide
    from kept[OF keeps_listing(2) assms(2) this] show ?thesis .
  next
    case forward
    then show ?thesis using log_law[OF assms(2)] by simp
  qed
qed

lemma reach_keeps: "lib_reach s0 s \<Longrightarrow> P s0 \<Longrightarrow> P s"
  by (induction rule: lib_reach.induct) (auto intro: step_keeps)

end

text \<open>
  \<open>SCardConnectA\<close> enters a card in two maps one after the other. What survives both entries survives the
  call; what relates the two maps is proved of the whole call instead (\<open>connect_result_cases\<close>).
\<close>

locale connect_inv =
  fixes P :: "app \<Rightarrow> bool"
  assumes connect_log: "P s \<Longrightarrow> P (LogWinscardRules m s)"
    and connect_proxy: "keeps P (Remote_SCardConnect r atr)"
    and connect_entry: "P s \<Longrightarrow> P (s\<lparr>m_nextRemoteCardID := i\<rparr>)" "P s \<Longrightarrow> P (s\<lparr>remoteReadersMap := rs\<rparr>)"
      "P s \<Longrightarrow> P (s\<lparr>remoteCardsATRMap := atrs\<rparr>)" "P s \<Longrightarrow> P (s\<lparr>cardReaderMap := cs\<rparr>)"
begin

lemma keeps_connect: "keeps P (SCardConnectA orig hc reader mode prots h0 p0)"
proof -
  have call: "keeps P (call_original orig' args)" for orig' :: "('x \<Rightarrow> 'y) option" and args
    by (cases orig') (auto simp: call_original_def intro: keeps_pure)
  show ?thesis
    unfolding SCardConnectA_def by (intro keeps_rules call connect_log connect_proxy connect_entry; assumption?)
qed

lemma connected: "P s \<Longrightarrow> SCardConnectA orig hc reader mode prots h0 p0 s = (Inr x, t) \<Longrightarrow> P t"
  by (metis keeps_connect keepsD snd_conv)

end

subsection \<open>The configuration\<close>

text \<open>
  What no call changes: the rules and whether they are active, the instruction names, and the
  configuration up to the list of virtual readers, which the proxy may redefine.
\<close>

definition fixed_config :: "app \<Rightarrow> WINSCARD_CONFIG" where
  "fixed_config s = (m_winscardConfig s)\<lparr>listVIRTUAL_READERS := []\<rparr>"

definition configured :: "app \<Rightarrow> app \<Rightarrow> bool" where
  "configured ref s \<longleftrightarrow> hist_wf s \<and> rulesList s = rulesList ref \<and> m_bRulesActive s = m_bRulesActive ref \<and>
     instructionDict s = instructionDict ref \<and> fixed_config s = fixed_config ref"

text \<open>Every remote card has a reader name, so that no transmission is sent to the reader with the empty name.\<close>

definition named :: "app \<Rightarrow> bool" where
  "named s \<longleftrightarrow> (\<forall>h. IsRemoteCard h s \<longrightarrow> cardReaderMap s h \<noteq> None)"

definition lib_ok :: "app \<Rightarrow> app \<Rightarrow> bool" where
  "lib_ok ref s \<longleftrightarrow> configured ref s \<and> named s"

lemmas lib_ok_defs = lib_ok_def configured_def named_def fixed_config_def hist_wf_def IsRemoteCard_def

lemma configured_cong:
  assumes "apduInList t = apduInList s" and "apduOutList t = apduOutList s" and "rulesList t = rulesList s"
    and "m_bRulesActive t = m_bRulesActive s" and "instructionDict t = instructionDict s"
    and "m_winscardConfig t = m_winscardConfig s"
  shows "configured ref t = configured ref s"
  unfolding configured_def hist_wf_def fixed_config_def assms ..

lemma named_cong:
  assumes "cardReaderMap t = cardReaderMap s" and "remoteReadersMap t = remoteReadersMap s"
  shows "named t = named s"
  unfolding named_def IsRemoteCard_def assms ..

lemma visible_laws:
  assumes "visible t = visible s"
  shows "configured ref t = configured ref s" "named t = named s" "lib_ok ref t = lib_ok ref s" "sock_inv t = sock_inv s"
proof -
  note v = visible_same[OF assms]
  show c: "configured ref t = configured ref s" by (rule configured_cong) (rule v)+
  show n: "named t = named s" by (rule named_cong) (rule v)+
  show "lib_ok ref t = lib_ok ref s" by (simp only: lib_ok_def c n)
  show "sock_inv t = sock_inv s" by (simp only: sock_inv_def v)
qed

lemma keeps_quiet:
  assumes "\<And>s t. visible t = visible s \<Longrightarrow> P t = P s" and "\<And>s. visible (snd (m s)) = visible s"
  shows "keeps P m"
  by (rule keepsI) (simp only: assms(1)[OF assms(2)])

lemma core_laws:
  assumes "core t = core s"
  shows "configured ref t = configured ref s" "lib_ok ref t = lib_ok ref s"
proof -
  note v = core_eqD[OF assms]
  show c: "configured ref t = configured ref s" by (rule configured_cong) (rule v)+
  have n: "named t = named s" by (rule named_cong) (rule v)+
  show "lib_ok ref t = lib_ok ref s" by (simp only: lib_ok_def c n)
qed

lemma keeps_core_lib_ok:
  assumes "keeps_core m"
  shows "keeps (configured ref) m" "keeps (lib_ok ref) m"
  by (auto intro!: keepsI simp: core_laws[OF keeps_coreD[OF assms]])

lemma keeps_core_line: "keeps_core (SendLine p l)"
  unfolding SendLine_def by (intro keeps_core_rules keeps_core_modA) simp_all

text \<open>The exchange log is written with the three functions that append to a file.\<close>

lemma keeps_exchange_log:
  assumes "\<And>s t. visible t = visible s \<Longrightarrow> P t = P s"
  shows "keeps P (log_command h sbuf n)" "keeps P (log_response rbuf n)" "keeps P (log_response_time e st)"
proof -
  have log: "P s \<Longrightarrow> P (LogWinscardRules m s)" "P s \<Longrightarrow> P (exchange_log m s)" "P s \<Longrightarrow> P (DumpMemory l s)" for s m l
    by (simp_all only: assms[OF visible_log(3)] assms[OF visible_log(4)] assms[OF visible_log(5)])
  show "keeps P (log_command h sbuf n)" "keeps P (log_response rbuf n)" "keeps P (log_response_time e st)"
    unfolding log_command_def log_response_def log_response_time_def WriteDescription_def
    by (intro keeps_rules keeps_charp log; assumption?)+
qed

interpretation configured: connect_inv "configured ref" for ref
proof unfold_locales
  fix s :: app and m :: string
  show "configured ref s \<Longrightarrow> configured ref (LogWinscardRules m s)"
    by (simp only: visible_laws(1)[OF visible_log(3)])
qed (rule keeps_core_lib_ok(1)[OF keeps_core_connect] | simp add: configured_def hist_wf_def fixed_config_def)+

lemma connect_named:
  assumes "named s" and "SCardConnectA orig hc reader mode prots h0 p0 s = (Inr x, t)"
  shows "named t"
proof -
  obtain st h p where x: "x = (st, h, p)" by (metis surj_pair)
  show ?thesis
    using connect_result_cases[OF assms(2)[unfolded x]] assms(1) by (auto simp: named_def IsRemoteCard_def)
qed

interpretation lib_ok: library_inv "lib_ok ref" for ref
proof unfold_locales
  fix s t :: app and m :: string and b :: bool and orig x hc reader mode prots h0 p0
  show "lib_ok ref s \<Longrightarrow> lib_ok ref (LogWinscardRules m s)" "lib_ok ref s \<Longrightarrow> lib_ok ref (LogDebugString m b s)"
    by (simp_all only: visible_laws(3)[OF visible_log(3)] visible_laws(3)[OF visible_log(2)])
  show "keeps (lib_ok ref) (rule_delay ms)" for ms
    by (rule keeps_quiet[OF visible_laws(3)]) simp_all
  show "lib_ok ref t" if "lib_ok ref s" "SCardConnectA orig hc reader mode prots h0 p0 s = (Inr x, t)"
    using that(1) configured.connected[OF _ that(2)] connect_named[OF _ that(2)] by (simp add: lib_ok_def)
qed (rule keeps_exchange_log[OF visible_laws(3)] keeps_core_lib_ok(2)[OF keeps_core_transmit]
    keeps_core_lib_ok(2)[OF keeps_core_request] keeps_core_lib_ok(2)[OF keeps_core_line]
    keeps_core_lib_ok(2)[OF keeps_core_prims(8)] | assumption
  | simp add: lib_ok_defs upd_remote_def set_virtual_def Remote_SCardReleaseContext_def)+

subsection \<open>The socket\<close>

lemma keeps_sock_inv:
  "keeps sock_inv (Remote_SCardTransmit r apdu buf n)" "keeps sock_inv (Remote_SendRequest r c d resp)"
  "keeps sock_inv (Remote_SCardConnect r atr)"
  "keeps sock_inv (SendLine p l)" "keeps sock_inv (ReceiveResponse p e m)"
proof -
  show "keeps sock_inv (Remote_SCardTransmit r apdu buf n)" "keeps sock_inv (Remote_SendRequest r c d resp)"
    "keeps sock_inv (Remote_SCardConnect r atr)"
    by (auto intro!: keepsI soundD(1)[OF sound_transmit] soundD(1)[OF sound_request] soundD(1)[OF sound_connect])
  have wires: "sock_inv (s\<lparr>w_tx := ts\<rparr>) = sock_inv s" "sock_inv (s\<lparr>w_rx := es\<rparr>) = sock_inv s" for s ts es
    by (simp_all add: sock_inv_def)
  have deref: "keeps sock_inv (deref_Socket p)"
    by (simp add: keeps_def deref_Socket_def)
  show "keeps sock_inv (SendLine p l)"
    unfolding SendLine_def by (intro keeps_rules deref) (simp only: wires)
  show "keeps sock_inv (ReceiveResponse p e m)"
    by (auto simp: keeps_def ReceiveResponse_def bindA_def deref_Socket_def wires split: sum.split)
qed

interpretation socket: connect_inv sock_inv
  by unfold_locales (simp_all only: visible_laws(4)[OF visible_log(3)] keeps_sock_inv, simp_all add: sock_inv_def)

interpretation socket: library_inv sock_inv
proof unfold_locales
  fix s t :: app and m :: string and b :: bool
  show "sock_inv s \<Longrightarrow> sock_inv (LogWinscardRules m s)" "sock_inv s \<Longrightarrow> sock_inv (LogDebugString m b s)"
    by (simp_all only: visible_laws(4)[OF visible_log(3)] visible_laws(4)[OF visible_log(2)])
  show "keeps sock_inv (rule_delay ms)" for ms
    by (rule keeps_quiet[OF visible_laws(4)]) simp_all
  show "sock_inv t" if "sock_inv s" "SCardConnectA orig hc reader mode prots h0 p0 s = (Inr x, t)"
    for orig hc reader mode prots h0 p0 x
    by (rule socket.connected[OF that])
qed (rule keeps_exchange_log[OF visible_laws(4)] keeps_sock_inv | assumption
  | simp add: sock_inv_def upd_remote_def set_virtual_def Remote_SCardReleaseContext_def)+

subsection \<open>Silence\<close>

text \<open>The files written are \<open>w\<close>, and both kinds of logging are off.\<close>

definition silent :: "(string \<times> string) list \<Rightarrow> app \<Rightarrow> bool" where
  "silent w s \<longleftrightarrow> bDisableLogging (m_remoteConfig s) \<and> \<not> bLOG_EXCHANGED_APDU (m_winscardConfig s) \<and> w_out s = w"

lemma silent_log [simp]:
  "silent w s \<Longrightarrow> silent w (LogWinscardRules m s)" "silent w s \<Longrightarrow> silent w (LogDebugString m b s)"
  "silent w s \<Longrightarrow> silent w (upd_remote (\<lambda>c. c\<lparr>nextCommandID := f c\<rparr>) s)"
  by (simp_all add: silent_def LogWinscardRules_def LogDebugString_def upd_remote_def)

lemma keeps_silent_prims:
  "keeps (silent w) (deref_Socket p)" "keeps (silent w) (delete_Socket p)" "keeps (silent w) (new_SocketClient h pt)"
  "keeps (silent w) (logA m)" "keeps (silent w) (debugA m b)"
  "keeps (silent w) (Remote_ParseResponse raw uid resp)" "keeps (silent w) (ReceiveResponse p e n)"
  by (auto simp: keeps_def deref_Socket_def delete_Socket_def new_SocketClient_def ReceiveResponse_def
      bindA_def Remote_ParseResponse_def Let_def
      split: conn_event.split list.split sum.split) (simp_all add: silent_def)

lemma keeps_option_act: "keeps P a \<Longrightarrow> (\<And>y. keeps P (g y)) \<Longrightarrow> keeps P (case x of None \<Rightarrow> a | Some y \<Rightarrow> g y)"
  by (cases x) simp_all

lemmas keeps_silent_rules = keeps_silent_prims keeps_rules keeps_tryA keeps_option_act

lemma keeps_silent_line: "keeps (silent w) (SendLine p l)"
  unfolding SendLine_def by (intro keeps_silent_rules) (simp add: silent_def)

lemma keeps_silent_request: "keeps (silent w) (Remote_SendRequest r c d resp)"
  unfolding Remote_SendRequest_def request_socket_def open_socket_def exchange_def Socket_Close_def
  by (intro keeps_silent_rules keeps_silent_line) (simp_all add: silent_def upd_remote_def LogDebugString_def)

lemma keeps_silent_remote:
  "keeps (silent w) (Remote_SCardConnect r atr)" "keeps (silent w) (Remote_SCardTransmit r apdu buf n)"
  unfolding Remote_SCardConnect_def Remote_SCardTransmit_def catch_unknown_def Let_def
  by (intro keeps_silent_rules keeps_silent_request silent_log; assumption?)+

lemma keeps_silent_exchange_log:
  "keeps (silent w) (log_command h sbuf n)" "keeps (silent w) (log_response rbuf n)" "keeps (silent w) (log_response_time e st)"
  by (auto intro!: keepsI simp: log_command_def log_response_def log_response_time_def bindA_def silent_def)

interpretation silent: connect_inv "silent w" for w
  by unfold_locales (simp_all only: silent_log keeps_silent_remote, simp_all add: silent_def)

interpretation silent: library_inv "silent w" for w
proof unfold_locales
  fix s t :: app
  show "keeps (silent w) (rule_delay ms)" for ms
    by (rule keepsI) (simp add: rule_delay_def bindA_def guardE_def silent_def)
  show "silent w t" if "silent w s" "SCardConnectA orig hc reader mode prots h0 p0 s = (Inr x, t)"
    for orig hc reader mode prots h0 p0 x
    by (rule silent.connected[OF that])
qed (rule keeps_silent_exchange_log keeps_silent_remote keeps_silent_request keeps_silent_line
    keeps_silent_prims(7) silent_log | assumption
  | simp add: silent_def upd_remote_def set_virtual_def Remote_SCardReleaseContext_def)+

subsection \<open>Properties\<close>

text \<open>
  C4: No call of the library changes its configuration. Starting with histories of 300-byte entries and
  with a reader name for every remote card, after any sequence of calls of the exported functions that return, with
  any arguments and any behaviour of the original library, the proxy, the cards and the network, the
  histories are still of that form (no rule can read outside an entry), every remote card still has a reader
  name, and the rules, their activation, the instruction descriptions and, up to the virtual
  readers the proxy announced, the configuration are those of the start.
\<close>

theorem library_keeps_state:
  assumes "lib_reach s0 s" and "hist_wf s0" and "named s0"
  shows "hist_wf s \<and> named s \<and> rulesList s = rulesList s0 \<and> m_bRulesActive s = m_bRulesActive s0 \<and>
    instructionDict s = instructionDict s0 \<and> fixed_config s = fixed_config s0"
proof -
  have "lib_ok s0 s0" using assms(2,3) by (simp add: lib_ok_def configured_def)
  from lib_ok.reach_keeps[OF assms(1) this] show ?thesis by (simp add: lib_ok_def configured_def)
qed

theorem library_keeps_state_witness:
  "\<exists>t. lib_reach virtual_reader_app t \<and> IsRemoteCard 2 t \<and> hist_wf t \<and> named t"
proof -
  obtain t where t: "SCardConnectA None 0 ''Simona'' 2 3 0 9 virtual_reader_app = (Inr (SCARD_F_COMM_ERROR, 2, 9), t)"
    using virtual_connect by blast
  have reach: "lib_reach virtual_reader_app t" by (rule lib_reach.step[OF lib_reach.start lib_step.connect[OF t]])
  have "hist_wf virtual_reader_app"
    by (simp add: hist_wf_def virtual_reader_app_def quiet_app_def app_init_def)
  moreover have "named virtual_reader_app" by (simp add: named_def IsRemoteCard_def)
  ultimately have "hist_wf t \<and> named t" using library_keeps_state[OF reach] by blast
  moreover have "IsRemoteCard 2 t" using connect_result_cases[OF t] by (auto simp: IsRemoteCard_def)
  ultimately show ?thesis using reach by blast
qed

text \<open>
  C11: The socket pointer is never misused in the default mode. Starting with \<open>pSocket\<close> null or
  live and one socket for all commands, it is null or live after any sequence of calls of the exported functions that return,
  whatever the proxy and the network do, and none of the three operations of the proxy protocol called
  next faults on a null, deleted or twice deleted socket.
\<close>

theorem library_socket_safe:
  assumes "lib_reach s0 s" and "sock_inv s0"
  shows "sock_inv s \<and> \<not> pointer_fault (fst (Remote_SCardConnect r atr s)) \<and>
    \<not> pointer_fault (fst (Remote_ListReaders rs s)) \<and> \<not> pointer_fault (fst (Remote_SCardTransmit r apdu buf len s))"
  using soundD(2)[OF sound_connect] soundD(2)[OF sound_list] soundD(2)[OF sound_transmit]
    socket.reach_keeps[OF assms] by blast

theorem library_socket_safe_witness:
  "\<exists>t. lib_reach (connected_app [RecvClosed]) t \<and> \<not> IsRemoteCard 5 t \<and> sock_inv t \<and>
     \<not> pointer_fault (fst (Remote_SCardTransmit ''Simona'' [0] [0] 1 t))"
proof -
  obtain t where t: "SCardReleaseContext (Some (\<lambda>_. 0)) 5 (connected_app [RecvClosed]) = (Inr 0, t)" "\<not> IsRemoteCard 5 t"
    by (simp add: SCardReleaseContext_def bindA_def call_original_def Remote_SCardReleaseContext_def IsRemoteCard_def)
  have reach: "lib_reach (connected_app [RecvClosed]) t"
    by (rule lib_reach.step[OF lib_reach.start lib_step.release[OF t(1)]])
  have "sock_inv (connected_app [RecvClosed])" by (simp add: sock_inv_def connected_app_def REMOTE_CONFIG_new_def)
  from library_socket_safe[OF reach this] reach t(2) show ?thesis by blast
qed

text \<open>
  C40: Disabled logging writes nothing. With \<open>DISABLE_LOGGING\<close> set and the exchange log off, no
  sequence of calls of the exported functions that return appends a character to any file, although every file could be
  appended to.
\<close>

theorem disabled_logging_silent:
  assumes "lib_reach s0 s" and "bDisableLogging (m_remoteConfig s0)"
    and "\<not> bLOG_EXCHANGED_APDU (m_winscardConfig s0)"
  shows "w_out s = w_out s0"
proof -
  have "silent (w_out s0) s0" using assms(2,3) by (simp add: silent_def)
  from silent.reach_keeps[OF assms(1) this] show ?thesis by (simp add: silent_def)
qed

definition mute_app :: app where
  "mute_app = quiet_app\<lparr>w_env := quiet_env\<lparr>appendable := \<lambda>_. True\<rparr>,
     m_remoteConfig := REMOTE_CONFIG_new\<lparr>bDisableLogging := True\<rparr>,
     m_winscardConfig := (m_winscardConfig quiet_app)\<lparr>bLOG_EXCHANGED_APDU := False\<rparr>\<rparr>"

theorem disabled_logging_silent_witness:
  "\<exists>t. lib_reach mute_app t \<and> SCardReleaseContext (Some (\<lambda>_. 0)) 5 mute_app = (Inr 0, t) \<and> w_out t = w_out mute_app"
proof -
  obtain t where t: "SCardReleaseContext (Some (\<lambda>_. 0)) 5 mute_app = (Inr 0, t)"
    by (simp add: SCardReleaseContext_def bindA_def call_original_def)
  have reach: "lib_reach mute_app t" by (rule lib_reach.step[OF lib_reach.start lib_step.release[OF t]])
  from disabled_logging_silent[OF reach] reach t show ?thesis by (auto simp: mute_app_def)
qed

end
