(* ===== verification/Rule_Loader.thy ===== *)
theory Rule_Loader
  imports App_State Sep_Array
begin

text \<open>
  Reading the configuration (\<open>Winscard.cpp\<close>, the variants without \<open>UNICODE\<close>): \<open>LoadRule\<close>, which
  interprets one section of the rules file, and \<open>LoadRules\<close>, which finds the file, loads all its
  sections and sets up the log files. A section of the kind \<open>RULEx\<close> becomes an entry of
  \<open>rulesList\<close>, whose elementary rules are parsed from the \<open>MATCH\<close> and \<open>ACTION\<close> values.
\<close>

subsection \<open>Values of a section\<close>

text \<open>\<open>strcpy\<close> and \<open>strcat\<close> into \<open>sec_and_key[256]\<close>.\<close>

definition sec_and_key :: "string \<Rightarrow> string \<Rightarrow> string res" where
  "sec_and_key section_name key =
     bindE (guardE (length section_name + length key < 256) Out_Of_Bounds) (\<lambda>_. Inr (section_name @ key))"

text \<open>The string value, \<open>\"\"\<close> when absent; \<open>type_length\<close> of a \<open>NULL\<close> value is a fault.\<close>

definition get_value :: "dictionary option \<Rightarrow> string \<Rightarrow> string \<Rightarrow> string res" where
  "get_value dict section_name key =
     bindE (sec_and_key section_name key) (\<lambda>k.
     case iniparser_getstring dict k (Str []) of Str v \<Rightarrow> Inr v | _ \<Rightarrow> Inl Null_Deref)"

text \<open>The three ways a member is set when its key is there.\<close>

definition opt_bool :: "dictionary option \<Rightarrow> string \<Rightarrow> string \<Rightarrow> bool \<Rightarrow> bool res" where
  "opt_bool dict section_name key old =
     bindE (sec_and_key section_name key) (\<lambda>k.
     bindE (iniparser_getboolean dict k 2) (\<lambda>v. Inr (if v \<noteq> 2 then v \<noteq> 0 else old)))"

definition opt_string :: "dictionary option \<Rightarrow> string \<Rightarrow> string \<Rightarrow> string \<Rightarrow> string res" where
  "opt_string dict section_name key old =
     bindE (get_value dict section_name key) (\<lambda>v. Inr (if v \<noteq> [] then v else old))"

definition opt_int :: "dictionary option \<Rightarrow> string \<Rightarrow> string \<Rightarrow> int \<Rightarrow> int res" where
  "opt_int dict section_name key old =
     bindE (get_value dict section_name key) (\<lambda>v. Inr (if v \<noteq> [] then strtol 10 v else old))"

subsection \<open>Section \<open>WINSCARD\<close>\<close>

definition load_virtual_readers :: "dictionary option \<Rightarrow> string \<Rightarrow> WINSCARD_CONFIG \<Rightarrow> WINSCARD_CONFIG res" where
  "load_virtual_readers dict section_name c =
     bindE (get_value dict section_name '':VIRTUAL_READERS'') (\<lambda>v.
     if v \<noteq> [] then
       bindE (String_ParseSeparatedArray (v @ [CHR 0x00]) (length v) (CHR ''|'') []) (\<lambda>readers.
       Inr (c\<lparr>sVIRTUAL_READERS_STATIC := v, listVIRTUAL_READERS_STATIC := readers,
              listVIRTUAL_READERS := readers\<rparr>))
     else Inr c)"

definition load_winscard :: "dictionary option \<Rightarrow> string \<Rightarrow> WINSCARD_CONFIG \<Rightarrow> WINSCARD_CONFIG res" where
  "load_winscard dict section_name c0 =
     bindE (opt_bool dict section_name '':AUTO_REQUEST_DATA'' (bAUTO_REQUEST_DATA c0)) (\<lambda>v1.
     bindE (opt_bool dict section_name '':FORCE_CONNECT_SHARED_MODE'' (bFORCE_CONNECT_SHARED_MODE c0)) (\<lambda>v2.
     bindE (opt_bool dict section_name '':FORCE_APDU_NONZERO_INPUT_DATA'' (bFORCE_APDU_NONZERO_INPUT_DATA c0)) (\<lambda>v3.
     bindE (opt_bool dict section_name '':LOG_EXCHANGED_APDU'' (bLOG_EXCHANGED_APDU c0)) (\<lambda>v4.
     bindE (opt_string dict section_name '':LOG_BASE_PATH'' (sLOG_BASE_PATH c0)) (\<lambda>v5.
     bindE (opt_bool dict section_name '':MODIFY_APDU_BY_RULES'' (bMODIFY_APDU_BY_RULES c0)) (\<lambda>v6.
     bindE (opt_string dict section_name '':READER_ORDERED_FIRST'' (sREADER_ORDERED_FIRST c0)) (\<lambda>v7.
     load_virtual_readers dict section_name
       (c0\<lparr>bAUTO_REQUEST_DATA := v1, bFORCE_CONNECT_SHARED_MODE := v2,
           bFORCE_APDU_NONZERO_INPUT_DATA := v3, bLOG_EXCHANGED_APDU := v4, sLOG_BASE_PATH := v5,
           bMODIFY_APDU_BY_RULES := v6, sREADER_ORDERED_FIRST := v7\<rparr>))))))))"

subsection \<open>Section \<open>REMOTE\<close>\<close>

definition load_measure_apdu :: "dictionary option \<Rightarrow> string \<Rightarrow> REMOTE_CONFIG \<Rightarrow> REMOTE_CONFIG res" where
  "load_measure_apdu dict section_name c =
     bindE (get_value dict section_name '':MEASURE_APDU'') (\<lambda>v.
     if v \<noteq> [] then
       bindE (BYTE_ConvertFromHexStringToArray_BYTE v (measureApdu c) 255) (\<lambda>(_, arr, n).
       Inr (c\<lparr>measureApdu := arr, measureApduLen := n\<rparr>))
     else Inr c)"

definition load_remote :: "dictionary option \<Rightarrow> string \<Rightarrow> REMOTE_CONFIG \<Rightarrow> REMOTE_CONFIG res" where
  "load_remote dict section_name c0 =
     bindE (opt_bool dict section_name '':REDIRECT'' (bRedirect c0)) (\<lambda>v1.
     bindE (opt_bool dict section_name '':NEW_SOCKET_PER_COMMAND'' (bOpenSocketForEveryCommand c0)) (\<lambda>v2.
     bindE (opt_string dict section_name '':REMOTE_READER_PREFIX'' (remoteReaderPrefix c0)) (\<lambda>v3.
     bindE (opt_string dict section_name '':IP'' (rc_IP c0)) (\<lambda>v4.
     bindE (opt_string dict section_name '':PORT'' (rc_port c0)) (\<lambda>v5.
     bindE (load_measure_apdu dict section_name
       (c0\<lparr>bRedirect := v1, bOpenSocketForEveryCommand := v2, remoteReaderPrefix := v3, rc_IP := v4,
           rc_port := v5\<rparr>)) (\<lambda>c1.
     bindE (opt_int dict section_name '':MEASURE_BYTE_COUNTER'' (measureApduByteCounter c1)) (\<lambda>v6.
     bindE (opt_int dict section_name '':MEASURE_BYTE_DELAY'' (measureApduByteDelay c1)) (\<lambda>v7.
     bindE (opt_int dict section_name '':READ_RATIO'' (readRatio c1)) (\<lambda>v8.
     bindE (get_value dict section_name '':NUM_SAMPLES'') (\<lambda>v9.
     Inr (c1\<lparr>measureApduByteCounter := v6, measureApduByteDelay := v7, readRatio := v8,
             numSamples := (if v9 \<noteq> [] then word_of_int (strtol 10 v9) else numSamples c1)\<rparr>)))))))))))"

subsection \<open>Elementary rules\<close>

text \<open>
  The elements of a rule string are the parts up to and including a comma; a last part without
  comma is not one.
\<close>

fun comma_parts :: "string \<Rightarrow> string \<Rightarrow> string list" where
  "comma_parts acc [] = []"
| "comma_parts acc (c # cs) =
     (if c = CHR '','' then (acc @ [c]) # comma_parts [] cs else comma_parts (acc @ [c]) cs)"

definition elem_name :: "string \<Rightarrow> string" where
  "elem_name rulePart = (case str_find rulePart ''='' of None \<Rightarrow> rulePart | Some p \<Rightarrow> take p rulePart)"

definition after_eq :: "string \<Rightarrow> string" where
  "after_eq rulePart = drop (npos_succ (str_find rulePart ''='')) rulePart"

text \<open>
  \<open>t=\<close> and \<open>in=\<close> are looked up anywhere in the rule string, read up to the next comma and erased.
\<close>

definition take_field :: "string \<Rightarrow> string \<Rightarrow> (int \<times> string) option" where
  "take_field name ruleString =
     (case str_find ruleString name of
        None \<Rightarrow> None
      | Some pos \<Rightarrow> Some (strtol 10 (drop (pos + length name) ruleString), erase_through ruleString pos '',''))"

text \<open>One byte element: set element, value and \<open>valid\<close>, and append a copy.\<close>

definition push_elem ::
    "int \<Rightarrow> string \<Rightarrow> APDU_SINGLE_RULE \<times> APDU_SINGLE_RULE list \<Rightarrow> APDU_SINGLE_RULE \<times> APDU_SINGLE_RULE list" where
  "push_elem code rulePart st =
     (let s1 = (fst st)\<lparr>sr_element := code, sr_value := hex_byte (take 2 (after_eq rulePart)), sr_valid := True\<rparr>
      in (s1, snd st @ [s1]))"

text \<open>
  The bytes of a \<open>DATA\<close> element, one rule each. More than 300 bytes leave the buffer unwritten and
  the length larger than it.
\<close>

definition data_bytes :: "string \<Rightarrow> byte list res" where
  "data_bytes rulePart =
     (let bs = hex_pairs (compact_hex (filter (\<lambda>c. c \<noteq> CHR '','') (after_eq rulePart)))
      in if length bs > MAX_APDU_LENGTH then Inl Out_Of_Bounds else Inr bs)"

fun push_bytes ::
    "int \<Rightarrow> byte list \<Rightarrow> APDU_SINGLE_RULE \<times> APDU_SINGLE_RULE list \<Rightarrow> APDU_SINGLE_RULE \<times> APDU_SINGLE_RULE list" where
  "push_bytes offset [] st = st"
| "push_bytes offset (b # bs) st =
     (let s1 = (fst st)\<lparr>sr_element := (if sr_apduDirection (fst st) = INPUT_APDU then offset + OFFSET_CDATA else offset),
                        sr_value := b, sr_valid := True\<rparr>
      in push_bytes (offset + 1) bs (s1, snd st @ [s1]))"

definition same_name :: "string \<Rightarrow> string \<Rightarrow> bool" where
  "same_name a b \<longleftrightarrow> compareWithNoCase a b = 0"

text \<open>
  Where the data of a \<open>MATCH\<close> start: \<open>substr(p, 0)\<close> of the digits, which is empty, so always 0;
  without a digit \<open>substr(npos, 0)\<close> throws.
\<close>

definition match_data_offset :: "string \<Rightarrow> int res" where
  "match_data_offset elemName =
     (case find_idx is_digit elemName of
        None \<Rightarrow> Inl (Throws Exn_Out_Of_Range)
      | Some p \<Rightarrow> bindE (substr_n elemName p 0) (\<lambda>t. Inr (strtol 10 t)))"

definition match_part ::
    "string \<Rightarrow> APDU_SINGLE_RULE \<times> APDU_SINGLE_RULE list \<Rightarrow> (APDU_SINGLE_RULE \<times> APDU_SINGLE_RULE list) res" where
  "match_part rulePart st0 =
     (let elemName = elem_name rulePart;
          st1 = (if same_name elemName ''CLA'' then push_elem CLA_ELEM rulePart st0 else st0);
          st2 = (if same_name elemName ''INS'' then push_elem INS_ELEM rulePart st1 else st1);
          st3 = (if same_name elemName ''P1'' then push_elem P1_ELEM rulePart st2 else st2);
          st4 = (if same_name elemName ''P2'' then push_elem P2_ELEM rulePart st3 else st3);
          st5 = (if same_name elemName ''LC'' then push_elem LC_ELEM rulePart st4 else st4)
      in if same_name (take 4 elemName) ''DATA'' then
           bindE (match_data_offset elemName) (\<lambda>offset.
           bindE (data_bytes rulePart) (\<lambda>bs. Inr (push_bytes offset bs st5)))
         else Inr st5)"

text \<open>Where the data of an \<open>ACTION\<close> start: at the position of the first digit of the \<^emph>\<open>section\<close> name.\<close>

definition action_data_offset :: "string \<Rightarrow> string \<Rightarrow> int res" where
  "action_data_offset section_name elemName =
     (case find_idx is_digit section_name of
        None \<Rightarrow> Inl (Throws Exn_Out_Of_Range)
      | Some p \<Rightarrow> bindE (substr_from elemName p) (\<lambda>t. Inr (strtol 10 t)))"

definition action_part ::
    "string \<Rightarrow> string \<Rightarrow> APDU_SINGLE_RULE \<times> APDU_SINGLE_RULE list \<Rightarrow> (APDU_SINGLE_RULE \<times> APDU_SINGLE_RULE list) res" where
  "action_part section_name rulePart st0 =
     (let elemName = elem_name rulePart;
          st1 = (if same_name elemName ''CLA'' then push_elem CLA_ELEM rulePart st0 else st0);
          st2 = (if same_name elemName ''INS'' then push_elem INS_ELEM rulePart st1 else st1);
          st3 = (if same_name elemName ''P1'' then push_elem P1_ELEM rulePart st2 else st2);
          st4 = (if same_name elemName ''P2'' then push_elem P2_ELEM rulePart st3 else st3);
          st5 = (if same_name elemName ''LC'' then push_elem LC_ELEM rulePart st4 else st4);
          st6 = (if same_name elemName ''LE'' then push_elem LE_ELEM rulePart st5 else st5)
      in if same_name (take 4 elemName) ''DATA'' then
           bindE (action_data_offset section_name elemName) (\<lambda>offset.
           bindE (data_bytes rulePart) (\<lambda>bs. Inr (push_bytes offset bs st6)))
         else Inr st6)"

subsection \<open>The \<open>MATCH\<close> and \<open>ACTION\<close> values\<close>

text \<open>
  One \<open>MATCH\<close> value: history and direction, then the elements. They are set in the one
  \<open>singleRule\<close> object that is copied for every element and kept for the next value.
\<close>

definition load_match_value ::
    "string \<Rightarrow> APDU_SINGLE_RULE \<times> APDU_SINGLE_RULE list \<Rightarrow> (APDU_SINGLE_RULE \<times> APDU_SINGLE_RULE list) res" where
  "load_match_value v st =
     (let rs0 = v @ '' '';
          (sr1, rs1) = (case take_field ''t='' rs0 of None \<Rightarrow> (fst st, rs0) | Some (n, rs) \<Rightarrow> ((fst st)\<lparr>sr_history := n\<rparr>, rs));
          (sr2, rs2) = (case take_field ''in='' rs1 of None \<Rightarrow> (sr1, rs1) | Some (n, rs) \<Rightarrow> (sr1\<lparr>sr_apduDirection := n\<rparr>, rs))
      in foldE match_part (comma_parts [] rs2) (sr2, snd st))"

text \<open>
  The loop over the values: the first key is \<open>:MATCH1\<close>, all later ones lack the colon. The keys
  tried are distinct, so the loop ends within one step per entry of the dictionary, the fuel it
  is called with.
\<close>

fun match_loop ::
    "nat \<Rightarrow> dictionary option \<Rightarrow> string \<Rightarrow> nat \<Rightarrow> string \<Rightarrow>
     APDU_SINGLE_RULE \<times> APDU_SINGLE_RULE list \<Rightarrow> (APDU_SINGLE_RULE \<times> APDU_SINGLE_RULE list) res" where
  "match_loop 0 dict section_name counter v st = Inl Hang"
| "match_loop (Suc fuel) dict section_name counter v st =
     (if v \<noteq> [] then
        bindE (load_match_value v st) (\<lambda>st1.
        bindE (get_value dict section_name (''MATCH'' @ fmt_u (counter + 1))) (\<lambda>v1.
        match_loop fuel dict section_name (counter + 1) v1 st1))
      else Inr st)"

definition load_action_value ::
    "string \<Rightarrow> string \<Rightarrow> APDU_SINGLE_RULE \<Rightarrow> (APDU_SINGLE_RULE list) res" where
  "load_action_value section_name v sr =
     (let rs0 = v @ '' ''; sr0 = APDU_SINGLE_RULE_clear sr;
          (sr1, rs1) = (case take_field ''in='' rs0 of None \<Rightarrow> (sr0, rs0) | Some (n, rs) \<Rightarrow> (sr0\<lparr>sr_apduDirection := n\<rparr>, rs))
      in bindE (foldE (action_part section_name) (comma_parts [] rs1) (sr1, [])) (\<lambda>st. Inr (snd st)))"

text \<open>A section \<open>RULEx\<close>; \<open>junk\<close> is the uninitialised direction of \<open>singleRule\<close>.\<close>

definition load_rule_section :: "int \<Rightarrow> dictionary option \<Rightarrow> string \<Rightarrow> APDU_RULE res" where
  "load_rule_section junk dict section_name =
     bindE (opt_int dict section_name '':USAGE'' (r_usage APDU_RULE_new)) (\<lambda>u.
     bindE (opt_int dict section_name '':APDUIN'' (r_direction APDU_RULE_new)) (\<lambda>d.
     bindE (opt_int dict section_name '':DELAY'' (r_msDelay APDU_RULE_new)) (\<lambda>w.
     bindE (get_value dict section_name '':MATCH1'') (\<lambda>v.
     bindE (match_loop (case dict of None \<Rightarrow> 1 | Some t \<Rightarrow> d_size t + 2) dict section_name 1 v
              (APDU_SINGLE_RULE_new junk, [])) (\<lambda>(sr, ms).
     bindE (get_value dict section_name '':ACTION'') (\<lambda>a.
     bindE (if a \<noteq> [] then load_action_value section_name a sr else Inr []) (\<lambda>as.
     Inr \<lparr>r_ruleName = section_name, r_usage = u, r_direction = d, r_matchRules = ms,
          r_actionRules = as, r_msDelay = w\<rparr>)))))))"

subsection \<open>\<open>LoadRule\<close>\<close>

definition LoadRule :: "int \<Rightarrow> dictionary option \<Rightarrow> string \<Rightarrow> app \<Rightarrow> app res" where
  "LoadRule junk dict section_name s =
     bindE (if same_name section_name ''WINSCARD''
            then bindE (load_winscard dict section_name (m_winscardConfig s)) (\<lambda>c. Inr (s\<lparr>m_winscardConfig := c\<rparr>))
            else Inr s) (\<lambda>s1.
     bindE (if same_name section_name ''REMOTE''
            then bindE (load_remote dict section_name (m_remoteConfig s1)) (\<lambda>c. Inr (s1\<lparr>m_remoteConfig := c\<rparr>))
            else Inr s1) (\<lambda>s2.
     if same_name (take 4 section_name) ''RULE''
     then bindE (load_rule_section junk dict section_name) (\<lambda>r. Inr (s2\<lparr>rulesList := rulesList s2 @ [r]\<rparr>))
     else Inr s2))"

subsection \<open>\<open>LoadRules\<close>\<close>

definition BS :: char where "BS = CHR 0x5C"

definition RULE_FILE :: string where "RULE_FILE = ''winscard_rules.txt''"

definition Reg_GetEnvVariable :: "string \<Rightarrow> string option act" where
  "Reg_GetEnvVariable variableName =
     bindA (debugA (''Going to query '' @ c_str variableName @ '' env variable ... '') True) (\<lambda>_.
     bindA (getA (\<lambda>s. env_var (w_env s) variableName)) (\<lambda>value.
     bindA (case value of
              Some v \<Rightarrow> debugA (''found '' @ [CHR 0x27] @ c_str v @ [CHR 0x27, NL]) False
            | None \<Rightarrow> debugA (''not found'' @ [NL]) False) (\<lambda>_.
     returnA value)))"

text \<open>\<open>fopen(path, "r")\<close> with its two log lines: the content when the file can be read.\<close>

definition try_open :: "string \<Rightarrow> string option act" where
  "try_open path =
     bindA (debugA (''Going to open '' @ c_str path @ '' ... '') True) (\<lambda>_.
     bindA (getA (\<lambda>s. file_text (w_env s) path)) (\<lambda>file.
     bindA (debugA ((if file \<noteq> None then ''success'' else ''fail'') @ [NL]) False) (\<lambda>_.
     returnA file)))"

text \<open>
  The search for the rules file: the local directory, then the directory of the environment
  variable \<open>APDUPLAY\<close>. The result is the content and \<open>baseDir\<close>, which stays uninitialised
  (\<open>None\<close>) when no file is found; paths are kept in 256-byte arrays.
\<close>

definition find_rules_file :: "(string option \<times> string option) act" where
  "find_rules_file =
     bindA (try_open RULE_FILE) (\<lambda>file.
     case file of
       Some t \<Rightarrow> returnA (Some t, Some [])
     | None \<Rightarrow>
         bindA (Reg_GetEnvVariable ''APDUPLAY'') (\<lambda>configPath.
         case configPath of
           None \<Rightarrow> bindA (debugA (''not found'' @ [NL]) False) (\<lambda>_. returnA (None, None))
         | Some dir \<Rightarrow>
             bindA (debugA ('' defined ('' @ c_str dir @ '')'' @ [NL]) False) (\<lambda>_.
             bindA (try_open (c_str dir @ [BS] @ RULE_FILE)) (\<lambda>file.
             case file of
               None \<Rightarrow> returnA (None, None)
             | Some t \<Rightarrow>
                 bindA (liftA (guardE (length (c_str dir) + 1 + length RULE_FILE < 256) Out_Of_Bounds)) (\<lambda>_.
                 returnA (Some t, Some (c_str dir)))))))"

text \<open>All sections in the order of the dictionary's slots.\<close>

definition load_sections :: "int \<Rightarrow> dictionary option \<Rightarrow> app \<Rightarrow> app res" where
  "load_sections junk dict =
     foldE (\<lambda>i s. case iniparser_getsecname dict (int i) of
                     None \<Rightarrow> Inl Null_Deref
                   | Some name \<Rightarrow> LoadRule junk dict name s)
       [0..<nat (iniparser_getnsec dict)]"

definition use_rules_file :: "int \<Rightarrow> string option \<Rightarrow> unit act" where
  "use_rules_file junk file =
     (case file of
        None \<Rightarrow> logA (''Rules file NOT found'' @ [NL])
      | Some content \<Rightarrow>
          (\<lambda>s. case load_sections junk (iniparser_load (Some content)) s of
                 Inl e \<Rightarrow> (Inl e, s)
               | Inr s1 \<Rightarrow> (Inr (), s1\<lparr>m_bRulesActive := True\<rparr>)))"

text \<open>Prefixing the output files with the forced or the found directory.\<close>

definition set_log_paths :: "string option \<Rightarrow> unit act" where
  "set_log_paths baseDir =
     bindA (getA (\<lambda>s. sLOG_BASE_PATH (m_winscardConfig s))) (\<lambda>base.
     if base \<noteq> [] then
       bindA (debugA (''Logging base path is forced as '' @ [CHR 0x27] @ c_str base @ [CHR 0x27] @ '' (LOG_BASE_PATH)'' @ [NL]) True) (\<lambda>_.
       modA (\<lambda>s. s\<lparr>WINSCARD_RULES_LOG := c_str base @ [BS] @ c_str (WINSCARD_RULES_LOG s),
                   WINSCARD_LOG := c_str base @ [BS] @ c_str (WINSCARD_LOG s),
                   INSTRUCTION_FILE := c_str base @ [BS] @ c_str (INSTRUCTION_FILE s)\<rparr>))
     else
       (case baseDir of
          None \<Rightarrow> failA Uninitialised
        | Some dir \<Rightarrow>
            bindA (debugA (''Logging base path not forced, using '' @ [CHR 0x27] @ dir @ [CHR 0x27, NL]) True) (\<lambda>_.
            modA (\<lambda>s. s\<lparr>WINSCARD_RULES_LOG := dir @ c_str (WINSCARD_RULES_LOG s),
                        WINSCARD_LOG := dir @ c_str (WINSCARD_LOG s),
                        INSTRUCTION_FILE := dir @ c_str (INSTRUCTION_FILE s)\<rparr>))))"

definition load_instructions :: "unit act" where
  "load_instructions =
     bindA (getA (\<lambda>s. file_text (w_env s) (INSTRUCTION_FILE s))) (\<lambda>file.
     case file of
       None \<Rightarrow> returnA ()
     | Some content \<Rightarrow>
         bindA (modA (\<lambda>s. s\<lparr>m_winscardConfig := (m_winscardConfig s)\<lparr>bLOG_WRITE_DESCRIPTION := True\<rparr>\<rparr>)) (\<lambda>_.
         bindA (logA ''Instruction file found'') (\<lambda>_.
         modA (\<lambda>s. s\<lparr>instructionDict := iniparser_load (Some content)\<rparr>))))"

definition LoadRules :: "int \<Rightarrow> status act" where
  "LoadRules junk =
     bindA (\<lambda>s. let (t, s1) = getCurrentTimeString s in (Inr t, s1)) (\<lambda>date_and_time.
     bindA (modA (\<lambda>s. s\<lparr>WINSCARD_LOG := WINSCARD_LOG s @ ''_'' @ date_and_time @ ''.txt'',
                        WINSCARD_RULES_LOG := WINSCARD_RULES_LOG s @ ''_'' @ date_and_time @ ''.txt''\<rparr>)) (\<lambda>_.
     bindA find_rules_file (\<lambda>(file, baseDir).
     bindA (use_rules_file junk file) (\<lambda>_.
     bindA (set_log_paths baseDir) (\<lambda>_.
     bindA load_instructions (\<lambda>_.
     bindA (debugA (''Finalizing LoadRules with status '' @ fmt_d STAT_OK @ [NL]) True) (\<lambda>_.
     returnA STAT_OK)))))))"

subsection \<open>Parsing what was written\<close>

lemma comma_parts_acc:
  "CHR '','' \<notin> set e \<Longrightarrow> comma_parts acc (e @ CHR '','' # rest) = (acc @ e @ '','') # comma_parts [] rest"
  by (induction e arbitrary: acc) auto

lemma comma_parts_none: "CHR '','' \<notin> set e \<Longrightarrow> comma_parts acc e = []"
  by (induction e arbitrary: acc) auto

lemma comma_parts_elements:
  assumes "\<forall>e \<in> set es. CHR '','' \<notin> set e" and "CHR '','' \<notin> set fin"
  shows "comma_parts [] (concat (map (\<lambda>e. e @ '','') es) @ fin) = map (\<lambda>e. e @ '','') es"
  using assms by (induction es) (simp_all add: comma_parts_none comma_parts_acc)

text \<open>The five header elements and how a rule names them.\<close>

definition header_names :: "(string \<times> int) list" where
  "header_names = [(''CLA'', CLA_ELEM), (''INS'', INS_ELEM), (''P1'', P1_ELEM), (''P2'', P2_ELEM), (''LC'', LC_ELEM)]"

definition print_elem :: "(string \<times> int) \<times> byte \<Rightarrow> string" where
  "print_elem e = fst (fst e) @ ''='' @ fmt_02x (snd e)"

definition print_match :: "nat \<Rightarrow> nat \<Rightarrow> ((string \<times> int) \<times> byte) list \<Rightarrow> string" where
  "print_match t dir es = ''t='' @ fmt_u t @ '',in='' @ fmt_u dir @ '','' @ concat (map (\<lambda>e. print_elem e @ '','') es)"

text \<open>The elementary rule a printed element stands for.\<close>

definition elem_rule :: "nat \<Rightarrow> nat \<Rightarrow> (string \<times> int) \<times> byte \<Rightarrow> APDU_SINGLE_RULE" where
  "elem_rule t dir e = \<lparr>sr_valid = True, sr_history = int t, sr_apduDirection = int dir,
     sr_element = snd (fst e), sr_value = snd e\<rparr>"

lemma fmt_02x_no_comma: "CHR '','' \<notin> set (fmt_02x b)"
proof -
  have t: "\<forall>n \<in> set [0..<16]. hex_digit n \<noteq> CHR '',''" by code_simp
  have "unat b div 16 < 16" "unat b mod 16 < 16"
    using unat_byte_less[of b] by (simp_all add: less_mult_imp_div_less)
  then have "hex_digit (unat b div 16) \<noteq> CHR '',''" "hex_digit (unat b mod 16) \<noteq> CHR '',''"
    using t by simp_all
  then show ?thesis by (auto simp: fmt_02x_def)
qed

lemma elem_name_print: "CHR ''='' \<notin> set n \<Longrightarrow> elem_name (n @ ''='' @ v) = n"
  using find_sub_skip[of "CHR ''=''" n "[]" v] by (simp add: elem_name_def str_find_from_def)

lemma after_eq_print: "CHR ''='' \<notin> set n \<Longrightarrow> after_eq (n @ ''='' @ v) = v"
  using find_sub_skip[of "CHR ''=''" n "[]" v] by (simp add: after_eq_def str_find_from_def npos_succ_def)

lemma match_part_print:
  assumes "fst e \<in> set header_names"
  shows "match_part (print_elem e @ '','') (sr, acc) =
    (let r = sr\<lparr>sr_element := snd (fst e), sr_value := snd e, sr_valid := True\<rparr> in Inr (r, acc @ [r]))"
proof -
  obtain n k b where e: "e = ((n, k), b)" by (metis prod.exhaust)
  have eq: "CHR ''='' \<notin> set n" using assms by (auto simp: e header_names_def)
  have "elem_name (print_elem e @ '','') = n" "take 2 (after_eq (print_elem e @ '','')) = fmt_02x b"
    using elem_name_print[OF eq, of "fmt_02x b @ '',''"] after_eq_print[OF eq, of "fmt_02x b @ '',''"]
    by (simp_all add: print_elem_def e) (simp add: fmt_02x_def)
  then have "push_elem c (print_elem e @ '','') (sr, acc) =
      (let r = sr\<lparr>sr_element := c, sr_value := b, sr_valid := True\<rparr> in (r, acc @ [r]))" for c
    by (simp add: push_elem_def hex_byte_fmt_02x Let_def)
  moreover have "same_name x y \<longleftrightarrow> map to_upper x = map to_upper y" for x y
    by (simp add: same_name_def compareWithNoCase_0)
  moreover have "map to_upper ''CLA'' = ''CLA''" "map to_upper ''INS'' = ''INS''" "map to_upper ''P1'' = ''P1''"
    "map to_upper ''P2'' = ''P2''" "map to_upper ''LC'' = ''LC''" "map to_upper ''DATA'' = ''DATA''"
    by code_simp+
  ultimately show ?thesis
    using assms \<open>elem_name (print_elem e @ '','') = n\<close>
    by (auto simp: match_part_def header_names_def e Let_def)
qed

lemma take_field_front:
  assumes "int n < 2 ^ 31" and "CHR '','' \<notin> set f" and "f \<noteq> []"
  shows "take_field f (f @ fmt_u n @ '','' @ rest) = Some (int n, rest)"
proof -
  have nocomma: "CHR '','' \<notin> set (fmt_u n)"
  proof -
    have "\<forall>m \<in> set [0..<10]. hex_digit m \<noteq> CHR '',''" by code_simp
    then show ?thesis using fmt_u_digits[of "CHR '',''" n] by fastforce
  qed
  have find: "str_find (f @ fmt_u n @ '','' @ rest) f = Some 0"
    using find_sub_prefix[of f "fmt_u n @ '','' @ rest"] by (simp add: str_find_from_def)
  have "digit_in 10 (CHR '','') = None" by code_simp
  then have num: "strtol 10 (fmt_u n @ '','' @ rest) = int n"
    using strtol_decimal_then[of "CHR '',''" n rest] assms(1) by (simp add: clamp_long_def)
  have "str_find (f @ fmt_u n @ '','' @ rest) '','' = Some (length (f @ fmt_u n))"
    using find_sub_skip[of "CHR '',''" "f @ fmt_u n" "[]" rest] assms(2) nocomma by (simp add: str_find_from_def)
  then have "erase_through (f @ fmt_u n @ '','' @ rest) 0 '','' = rest"
    by (simp add: erase_through_def)
  then show ?thesis using find num by (simp add: take_field_def)
qed

lemma foldE_match_parts:
  assumes "\<forall>e \<in> set es. fst e \<in> set header_names"
    and "sr_history sr = int t" "sr_apduDirection sr = int dir"
  shows "\<exists>sr'. foldE match_part (map (\<lambda>e. print_elem e @ '','') es) (sr, acc) =
    Inr (sr', acc @ map (elem_rule t dir) es) \<and> sr_history sr' = int t \<and> sr_apduDirection sr' = int dir"
  using assms
proof (induction es arbitrary: sr acc)
  case (Cons e es)
  let ?r = "sr\<lparr>sr_element := snd (fst e), sr_value := snd e, sr_valid := True\<rparr>"
  have r: "?r = elem_rule t dir e" using Cons.prems(2,3) by (cases sr) (simp add: elem_rule_def)
  have "match_part (print_elem e @ '','') (sr, acc) = Inr (?r, acc @ [?r])"
    using match_part_print[of e sr acc] Cons.prems(1) by (simp add: Let_def)
  moreover have "sr_history ?r = int t" "sr_apduDirection ?r = int dir" using Cons.prems(2,3) by simp_all
  ultimately show ?case using Cons.IH[of ?r "acc @ [?r]"] Cons.prems(1) by (simp add: r)
qed simp

lemma load_match_value_print:
  assumes "\<forall>e \<in> set es. fst e \<in> set header_names" and "int t < 2 ^ 31" and "int dir < 2 ^ 31"
    and "CHR '','' \<notin> set tail"
  shows "\<exists>sr'. load_match_value (print_match t dir es @ tail) (sr, acc) = Inr (sr', acc @ map (elem_rule t dir) es)"
proof -
  let ?els = "concat (map (\<lambda>e. print_elem e @ '','') es) @ tail @ '' ''"
  have nocomma: "CHR '','' \<notin> set (print_elem e)" if "e \<in> set es" for e
  proof -
    have "fst e \<in> set header_names" using assms(1) that by blast
    then have "CHR '','' \<notin> set (fst (fst e))" by (cases e) (auto simp: header_names_def)
    then show ?thesis using fmt_02x_no_comma by (simp add: print_elem_def)
  qed
  have parts: "comma_parts [] ?els = map (\<lambda>e. print_elem e @ '','') es"
    using comma_parts_elements[of "map print_elem es" "tail @ '' ''"] nocomma assms(4) by (simp add: comp_def)
  let ?sr = "sr\<lparr>sr_history := int t, sr_apduDirection := int dir\<rparr>"
  have v: "print_match t dir es @ tail @ '' '' = ''t='' @ fmt_u t @ '','' @ ''in='' @ fmt_u dir @ '','' @ ?els"
    by (simp add: print_match_def)
  have "take_field ''t='' (print_match t dir es @ tail @ '' '') = Some (int t, ''in='' @ fmt_u dir @ '','' @ ?els)"
    unfolding v by (rule take_field_front[OF assms(2)]) simp_all
  moreover have "take_field ''in='' (''in='' @ fmt_u dir @ '','' @ ?els) = Some (int dir, ?els)"
    by (rule take_field_front[OF assms(3)]) simp_all
  moreover obtain sr' where "foldE match_part (map (\<lambda>e. print_elem e @ '','') es) (?sr, acc) =
      Inr (sr', acc @ map (elem_rule t dir) es)"
    using foldE_match_parts[OF assms(1), of ?sr t dir acc] by auto
  ultimately show ?thesis
    unfolding load_match_value_def Let_def fst_conv snd_conv
    by (simp only: append_assoc option.case prod.case fst_conv snd_conv parts) simp
qed

subsection \<open>Properties\<close>



lemma opt_frames:
  "get_value dict sec key = Inr v \<Longrightarrow> opt_int dict sec key old = Inr (if v \<noteq> [] then strtol 10 v else old)"
  by (simp add: opt_int_def)

text \<open>
  Only the first match value counts. A rule section with several values \<open>MATCH1\<close>, \<open>MATCH2\<close>, ...
  gets the elementary rules of \<open>MATCH1\<close> alone, because the loop asks for \<open>MATCH2\<close> without the colon
  between section and key; whatever \<open>section:MATCH2\<close> holds plays no role.
\<close>

theorem only_first_match_value_loaded:
  assumes "get_value (Some d) sec '':MATCH1'' = Inr v" and "v \<noteq> []"
    and "load_match_value v (APDU_SINGLE_RULE_new junk, []) = Inr (sr, ms)"
    and "get_value (Some d) sec ''MATCH2'' = Inr []"
    and "load_rule_section junk (Some d) sec = Inr r"
  shows "r_matchRules r = ms"
proof -
  have key: "fmt_u (Suc (Suc 0)) = ''2''" by code_simp
  have "match_loop (d_size d + 2) (Some d) sec 1 v (APDU_SINGLE_RULE_new junk, []) = Inr (sr, ms)"
    using assms(2-4) key by (simp add: numeral_2_eq_2)
  then show ?thesis
    using assms(1,5) by (auto simp: load_rule_section_def bindE_eq_Inr)
qed

text \<open>The dictionary of a rule section with two match values.\<close>

definition two_match_dict :: dictionary where
  "two_match_dict = dict_put ''rule1:match2'' (Str (print_match 0 1 [((''CLA'', 0), 0x80)]))
     (dict_put ''rule1:match1'' (Str (print_match 0 1 [((''CLA'', 0), 0xB0)])) (dict_put ''rule1'' NULL (dictionary_new 0)))"

lemma two_match_abs:
  "dict_abs two_match_dict = [''rule1'' \<mapsto> NULL, ''rule1:match1'' \<mapsto> Str (print_match 0 1 [((''CLA'', 0), 0xB0)]),
     ''rule1:match2'' \<mapsto> Str (print_match 0 1 [((''CLA'', 0), 0x80)])]"
  by (auto simp: two_match_dict_def dict.lookup_update dict.wf_update dict_abs_new fun_eq_iff)

lemma two_match_get:
  "get_value (Some two_match_dict) sec key =
     bindE (sec_and_key sec key) (\<lambda>k. case (case dict_abs two_match_dict (strlwc k (ASCIILINESZ + 1)) of
       None \<Rightarrow> Str [] | Some v \<Rightarrow> v) of Str v \<Rightarrow> Inr v | _ \<Rightarrow> Inl Null_Deref)"
  by (simp add: get_value_def iniparser_getstring_def dictionary_get_abs)

lemma strlwc_short: "strlwc s (ASCIILINESZ + 1) = map to_lower (take 1024 s)"
  by (simp add: strlwc_def ASCIILINESZ_def)

lemma lower_table: "map to_lower ''USAGEPDINLYCTOMHrule:12'' = ''usagepdinlyctomhrule:12''"
  by code_simp

lemmas lower_letters = lower_table[simplified]

lemma two_match_values:
  "get_value (Some two_match_dict) ''rule1'' '':USAGE'' = Inr []"
  "get_value (Some two_match_dict) ''rule1'' '':APDUIN'' = Inr []"
  "get_value (Some two_match_dict) ''rule1'' '':DELAY'' = Inr []"
  "get_value (Some two_match_dict) ''rule1'' '':ACTION'' = Inr []"
  "get_value (Some two_match_dict) ''rule1'' '':MATCH1'' = Inr (print_match 0 1 [((''CLA'', 0), 0xB0)])"
  "get_value (Some two_match_dict) ''rule1'' ''MATCH2'' = Inr []"
proof -
  show "get_value (Some two_match_dict) ''rule1'' '':USAGE'' = Inr []"
    "get_value (Some two_match_dict) ''rule1'' '':APDUIN'' = Inr []"
    "get_value (Some two_match_dict) ''rule1'' '':DELAY'' = Inr []"
    "get_value (Some two_match_dict) ''rule1'' '':ACTION'' = Inr []"
    "get_value (Some two_match_dict) ''rule1'' '':MATCH1'' = Inr (print_match 0 1 [((''CLA'', 0), 0xB0)])"
    "get_value (Some two_match_dict) ''rule1'' ''MATCH2'' = Inr []"
    unfolding two_match_get sec_and_key_def by (simp_all only: append.simps strlwc_short, simp_all add: lower_letters two_match_abs)
qed

theorem only_first_match_value_loaded_witness:
  "\<exists>r. load_rule_section 1 (Some two_match_dict) ''rule1'' = Inr r \<and>
     r_matchRules r = [\<lparr>sr_valid = True, sr_history = 0, sr_apduDirection = 1, sr_element = 0, sr_value = 0xB0\<rparr>]"
proof -
  have "\<exists>sr. load_match_value (print_match 0 1 [((''CLA'', 0), 0xB0)]) (APDU_SINGLE_RULE_new 1, []) =
      Inr (sr, [elem_rule 0 1 ((''CLA'', 0), 0xB0)])"
    using load_match_value_print[of "[((''CLA'', 0), 0xB0)]" 0 1 "[]" "APDU_SINGLE_RULE_new 1" "[]"]
    by (simp add: header_names_def elem_defs)
  then obtain sr where m: "load_match_value (print_match 0 1 [((''CLA'', 0), 0xB0)]) (APDU_SINGLE_RULE_new 1, []) =
      Inr (sr, [elem_rule 0 1 ((''CLA'', 0), 0xB0)])" by blast
  have v: "print_match 0 1 [((''CLA'', 0), 0xB0)] \<noteq> []" by (simp add: print_match_def)
  have "fmt_u (Suc (Suc 0)) = ''2''" by code_simp
  then have "\<exists>r. load_rule_section 1 (Some two_match_dict) ''rule1'' = Inr r"
    using m v by (simp add: load_rule_section_def opt_int_def two_match_values numeral_2_eq_2)
  then obtain r where r: "load_rule_section 1 (Some two_match_dict) ''rule1'' = Inr r" by blast
  show ?thesis
    using r only_first_match_value_loaded[OF two_match_values(5) v m two_match_values(6) r]
    by (simp add: elem_rule_def)
qed

text \<open>
  Where data elements start. A \<open>DATAx\<close> element of a match value always starts at offset 0,
  whatever its number; in an action value the number is read from the position the first digit has
  in the section's name, which is right for sections \<open>RULE\<close> followed by a digit and throws an
  exception when the element's name is shorter.
\<close>

theorem data_offsets:
  assumes "is_digit c" and "length sec = 4" and "\<forall>x \<in> set sec. \<not> is_digit x" and "is_digit y"
  shows "match_data_offset (''DATA'' @ c # cs) = Inr 0 \<and>
    action_data_offset (sec @ y # ys) (''DATA'' @ c # cs) = Inr (strtol 10 (c # cs)) \<and>
    action_data_offset (sec @ sec @ y # ys) (''DATA'' @ [c]) = Inl (Throws Exn_Out_Of_Range)"
proof -
  have data: "\<not> is_digit (CHR ''D'')" "\<not> is_digit (CHR ''A'')" "\<not> is_digit (CHR ''T'')"
    by code_simp+
  have none: "find_idx is_digit sec = None" using assms(3) find_idx_None[of is_digit sec] by blast
  then have "find_idx is_digit (sec @ y # ys) = Some 4" "find_idx is_digit (sec @ sec @ y # ys) = Some 8"
    using assms(2,4) by (simp_all add: find_idx_append)
  moreover have "find_idx is_digit (''DATA'' @ c # cs) = Some 4" using data assms(1) by simp
  moreover have "strtol 10 [] = 0" by (simp add: strtol_def)
  ultimately show ?thesis
    by (simp add: match_data_offset_def action_data_offset_def substr_n_def substr_from_def)
qed

theorem data_offsets_witness:
  "match_data_offset ''DATA12'' = Inr 0 \<and> action_data_offset ''rule1'' ''DATA12'' = Inr (strtol 10 ''12'') \<and>
   action_data_offset ''rulerule1'' ''DATA1'' = Inl (Throws Exn_Out_Of_Range)"
proof -
  have "is_digit (CHR ''1'')" "\<forall>x \<in> set ''rule''. \<not> is_digit x" by code_simp+
  then show ?thesis
    using data_offsets[of "CHR ''1''" "''rule''" "CHR ''1''" "''2''" "[]"] by simp
qed

lemma same_name_eq: "same_name a b \<longleftrightarrow> map to_upper a = map to_upper b"
  by (simp add: same_name_def compareWithNoCase_0)

lemma upper_table: "map to_upper ''WINSCARDREMOTEULrule1'' = ''WINSCARDREMOTEULRULE1''"
  by code_simp

lemmas upper_letters = upper_table[simplified]

text \<open>
  Every section goes to its own part of the configuration. Loading a section changes the card
  settings only for \<open>WINSCARD\<close>, the proxy settings only for \<open>REMOTE\<close>, and appends one rule only
  for a name that starts with \<open>RULE\<close> (all without regard to case); any other section changes
  nothing, and nothing else of the state ever changes.
\<close>

theorem load_rule_dispatch:
  assumes "LoadRule junk dict sec s = Inr t"
  shows "(same_name sec ''WINSCARD'' \<and> (\<exists>c. load_winscard dict sec (m_winscardConfig s) = Inr c \<and> t = s\<lparr>m_winscardConfig := c\<rparr>)) \<or>
    (same_name sec ''REMOTE'' \<and> (\<exists>c. load_remote dict sec (m_remoteConfig s) = Inr c \<and> t = s\<lparr>m_remoteConfig := c\<rparr>)) \<or>
    (same_name (take 4 sec) ''RULE'' \<and> (\<exists>r. load_rule_section junk dict sec = Inr r \<and> t = s\<lparr>rulesList := rulesList s @ [r]\<rparr>)) \<or>
    (\<not> same_name sec ''WINSCARD'' \<and> \<not> same_name sec ''REMOTE'' \<and> \<not> same_name (take 4 sec) ''RULE'' \<and> t = s)"
proof -
  have up: "map to_upper (take 4 sec) = take 4 (map to_upper sec)" by (rule take_map[symmetric])
  have w: "\<not> same_name sec ''REMOTE''" "\<not> same_name (take 4 sec) ''RULE''" if "same_name sec ''WINSCARD''"
    using that by (simp_all add: same_name_eq upper_letters up)
  have r: "\<not> same_name (take 4 sec) ''RULE''" if "same_name sec ''REMOTE''"
    using that by (simp add: same_name_eq upper_letters up)
  show ?thesis
  proof (cases "same_name sec ''WINSCARD''")
    case True
    with assms w show ?thesis by (auto simp: LoadRule_def bindE_eq_Inr)
  next
    case False
    show ?thesis
    proof (cases "same_name sec ''REMOTE''")
      case True
      with assms r False show ?thesis by (auto simp: LoadRule_def bindE_eq_Inr)
    next
      case no_remote: False
      show ?thesis
        using assms False no_remote
        by (cases "same_name (take 4 sec) ''RULE''") (auto simp: LoadRule_def bindE_eq_Inr)
    qed
  qed
qed

theorem load_rule_dispatch_witness:
  "\<exists>r. load_rule_section 1 (Some two_match_dict) ''rule1'' = Inr r \<and>
     LoadRule 1 (Some two_match_dict) ''rule1'' quiet_app = Inr (quiet_app\<lparr>rulesList := [r]\<rparr>)"
proof -
  obtain sr where m: "load_match_value (print_match 0 1 [((''CLA'', 0), 0xB0)]) (APDU_SINGLE_RULE_new 1, []) =
      Inr (sr, [elem_rule 0 1 ((''CLA'', 0), 0xB0)])"
    using load_match_value_print[of "[((''CLA'', 0), 0xB0)]" 0 1 "[]" "APDU_SINGLE_RULE_new 1" "[]"]
    by (auto simp: header_names_def elem_defs)
  have v: "print_match 0 1 [((''CLA'', 0), 0xB0)] \<noteq> []" by (simp add: print_match_def)
  have "fmt_u (Suc (Suc 0)) = ''2''" by code_simp
  then obtain r where r: "load_rule_section 1 (Some two_match_dict) ''rule1'' = Inr r"
    using m v by (simp add: load_rule_section_def opt_int_def two_match_values numeral_2_eq_2)
  have n: "same_name (take 4 ''rule1'') ''RULE''" "\<not> same_name ''rule1'' ''WINSCARD''" "\<not> same_name ''rule1'' ''REMOTE''"
    by (simp_all add: same_name_eq upper_letters)
  then have "LoadRule 1 (Some two_match_dict) ''rule1'' quiet_app =
      Inr (quiet_app\<lparr>rulesList := [r]\<rparr>)"
    using r by (simp add: LoadRule_def, simp add: quiet_app_def app_init_def)
  with load_rule_dispatch[OF this] show ?thesis using n r by auto
qed

text \<open>
  Without a rules file start-up reads an uninitialised path. When neither the local directory
  nor the one named by \<open>APDUPLAY\<close> has \<open>winscard_rules.txt\<close> and no log path is configured,
  \<open>LoadRules\<close> prints and uses \<open>baseDir\<close>, which was never written.
\<close>

theorem missing_rules_file_uninitialised:
  assumes "file_text (w_env s) RULE_FILE = None" and "env_var (w_env s) ''APDUPLAY'' = None"
    and "sLOG_BASE_PATH (m_winscardConfig s) = []"
  shows "fst (LoadRules junk s) = Inl Uninitialised"
  using assms
  by (simp add: LoadRules_def bindA_def getCurrentTimeString_def Let_def find_rules_file_def try_open_def
      Reg_GetEnvVariable_def use_rules_file_def set_log_paths_def)

theorem missing_rules_file_uninitialised_witness:
  "fst (LoadRules 0 quiet_app) = Inl Uninitialised"
  by (rule missing_rules_file_uninitialised)
    (simp_all add: quiet_app_def app_init_def quiet_env_def WINSCARD_CONFIG_new_def WINSCARD_CONFIG_clear_def)

text \<open>
  A rules file with a syntax error counts as loaded. When the local rules file does not parse,
  \<open>LoadRules\<close> succeeds, keeps the rules and both configurations as they were, and still switches
  the rules on.
\<close>

theorem broken_rules_file_activates:
  assumes "file_text (w_env s) RULE_FILE = Some content" and "iniparser_load (Some content) = None"
    and "sLOG_BASE_PATH (m_winscardConfig s) = []"
    and "file_text (w_env s) (c_str (INSTRUCTION_FILE s)) = None"
  shows "\<exists>t. LoadRules junk s = (Inr STAT_OK, t) \<and> m_bRulesActive t \<and> rulesList t = rulesList s \<and>
    m_winscardConfig t = m_winscardConfig s \<and> m_remoteConfig t = m_remoteConfig s"
  using assms
  by (simp add: LoadRules_def bindA_def getCurrentTimeString_def Let_def find_rules_file_def try_open_def
      use_rules_file_def load_sections_def iniparser_getnsec_def set_log_paths_def load_instructions_def)

theorem broken_rules_file_activates_witness:
  "\<exists>t. LoadRules 0 (quiet_app\<lparr>w_env := quiet_env\<lparr>file_text := [RULE_FILE \<mapsto> ''['' @ [NL]]\<rparr>\<rparr>) = (Inr STAT_OK, t) \<and>
    m_bRulesActive t \<and> rulesList t = [] \<and>
    m_winscardConfig t = m_winscardConfig quiet_app \<and> m_remoteConfig t = m_remoteConfig quiet_app"
proof -
  have "iniparser_load (Some (''['' @ [NL])) = None"
    by code_simp
  then show ?thesis
    using broken_rules_file_activates[of "quiet_app\<lparr>w_env := quiet_env\<lparr>file_text := [RULE_FILE \<mapsto> ''['' @ [NL]]\<rparr>\<rparr>"
        "''['' @ [NL]" 0]
    by (simp add: quiet_app_def app_init_def quiet_env_def WINSCARD_CONFIG_new_def WINSCARD_CONFIG_clear_def RULE_FILE_def)
qed

end
