(* ===== verification/Ini_Files.thy ===== *)
theory Ini_Files
  imports Ini_Parser
begin

text \<open>
  What the ini-file reader is for: the dictionary as a map under any sequence of its operations,
  and files written in the plain format of the rules file, one \<open>key = value\<close> per line under
  \<open>[section]\<close> headings, read back as the map they denote.
\<close>

subsection \<open>Sequences of dictionary operations\<close>

datatype dict_op = Set_Op string charp | Unset_Op string

definition run_op :: "dict_op \<Rightarrow> dictionary \<Rightarrow> dictionary res" where
  "run_op p d = (case p of
     Set_Op k v \<Rightarrow> bindE (dictionary_set True d k v) (\<lambda>(d', rc). Inr d')
   | Unset_Op k \<Rightarrow> Inr (dictionary_unset d k))"

definition map_op :: "dict_op \<Rightarrow> (string \<rightharpoonup> charp) \<Rightarrow> (string \<rightharpoonup> charp)" where
  "map_op p m = (case p of Set_Op k v \<Rightarrow> m(k \<mapsto> v) | Unset_Op k \<Rightarrow> m(k := None))"

lemma run_op_correct:
  assumes "dict_wf d"
  shows "\<exists>d'. run_op p d = Inr d' \<and> dict_wf d' \<and> dict_abs d' = map_op p (dict_abs d)"
proof (cases p)
  case (Set_Op k v)
  then show ?thesis using dictionary_set_correct[OF assms, of k v] by (auto simp: run_op_def map_op_def)
next
  case (Unset_Op k)
  then show ?thesis using dictionary_unset_correct[OF assms, of k] by (simp add: run_op_def map_op_def)
qed

lemma run_ops_correct:
  assumes "dict_wf d"
  shows "\<exists>d'. foldE run_op ps d = Inr d' \<and> dict_wf d' \<and> dict_abs d' = fold map_op ps (dict_abs d)"
  using assms
proof (induction ps arbitrary: d)
  case Nil
  then show ?case by simp
next
  case (Cons p ps)
  obtain d1 where d1: "run_op p d = Inr d1" "dict_wf d1" "dict_abs d1 = map_op p (dict_abs d)"
    using run_op_correct[OF Cons.prems] by blast
  then show ?case using Cons.IH[OF d1(2)] by simp
qed

text \<open>
  C20: The hash table refines a map. While memory lasts, any sequence of insertions, overwritings
  and removals on a new dictionary returns - the probe for a free slot always finds one - and
  afterwards a lookup of any key gives what the same sequence makes of an empty map, or the
  default.
\<close>

theorem dictionary_refines_map:
  "\<exists>d. foldE run_op ps (dictionary_new n) = Inr d \<and> dict_wf d \<and>
     (\<forall>key def. dictionary_get d key def =
        (case fold map_op ps Map.empty key of None \<Rightarrow> def | Some v \<Rightarrow> v))"
proof -
  have "dict_abs (dictionary_new n) = Map.empty" using dict_abs_new by (rule ext)
  then show ?thesis
    using run_ops_correct[OF dict_wf_new, of ps n] by (auto simp: dictionary_get_abs)
qed

subsection \<open>Plain files\<close>

text \<open>
  The characters of section names and keys, neither blank nor meaningful to the reader; and the
  values that need no quotes.
\<close>

definition name_char :: "char \<Rightarrow> bool" where
  "name_char c \<longleftrightarrow> \<not> is_space c \<and> c \<notin> {CHR ''='', CHR ''['', CHR '']'', CHR '';'', CHR ''#''}"

definition name_ok :: "string \<Rightarrow> bool" where
  "name_ok s \<longleftrightarrow> s \<noteq> [] \<and> list_all name_char s"

definition value_ok :: "string \<Rightarrow> bool" where
  "value_ok v \<longleftrightarrow> v \<noteq> [] \<and> CHR '';'' \<notin> set v \<and> CHR ''#'' \<notin> set v \<and> NL \<notin> set v \<and>
     \<not> is_space (hd v) \<and> hd v \<noteq> CHR 0x22 \<and> hd v \<noteq> CHR 0x27 \<and> \<not> is_space (last v) \<and> last v \<noteq> CHR 0x5C"

type_synonym ini_section = "string \<times> (string \<times> string) list"

definition section_ok :: "ini_section \<Rightarrow> bool" where
  "section_ok sec \<longleftrightarrow> name_ok (fst sec) \<and> length (fst sec) \<le> 1000 \<and>
     list_all (\<lambda>(k, v). name_ok k \<and> value_ok v \<and> length k + length v \<le> 1000) (snd sec)"

definition section_lines :: "ini_section \<Rightarrow> string list" where
  "section_lines sec = (''['' @ fst sec @ '']'') # map (\<lambda>(k, v). k @ '' = '' @ v) (snd sec)"

definition print_ini :: "ini_section list \<Rightarrow> string" where
  "print_ini secs = concat (map (\<lambda>l. l @ [NL]) (concat (map section_lines secs)))"

text \<open>
  What a file denotes: every section name without a value, every key under its section, both in
  lower case.
\<close>

definition lowered :: "string \<Rightarrow> string" where
  "lowered s = map to_lower s"

lemma lowered_append: "lowered (s @ t) = lowered s @ lowered t"
  by (simp add: lowered_def)

definition section_entries :: "ini_section \<Rightarrow> (string \<times> charp) list" where
  "section_entries sec =
     (lowered (fst sec), NULL) # map (\<lambda>(k, v). (lowered (fst sec) @ '':'' @ lowered k, Str v)) (snd sec)"

lemma rstrip_id: "s = [] \<or> \<not> is_space (last s) \<Longrightarrow> rstrip s = s"
  by (cases s rule: rev_cases) (auto simp: rstrip_def)

lemma strstrip_id: "s = [] \<or> \<not> is_space (hd s) \<and> \<not> is_space (last s) \<Longrightarrow> strstrip s = s"
  by (cases s) (auto simp: strstrip_def rstrip_id)

lemma takeWhile_upto: "list_all P xs \<Longrightarrow> \<not> P y \<Longrightarrow> takeWhile P (xs @ y # ys) = xs"
  by (induction xs) auto

lemma dropWhile_upto: "list_all P xs \<Longrightarrow> \<not> P y \<Longrightarrow> dropWhile P (xs @ y # ys) = y # ys"
  by (induction xs) auto

lemma name_okD:
  assumes "name_ok s"
  shows "s \<noteq> []" "\<not> is_space (hd s)" "\<not> is_space (last s)"
    "list_all (\<lambda>c. c \<noteq> CHR ''='') s" "list_all (\<lambda>c. c \<noteq> CHR '']'') s"
    "hd s \<noteq> CHR ''[''" "hd s \<noteq> CHR ''#''" "hd s \<noteq> CHR '';''" "NL \<notin> set s"
proof -
  have s: "s \<noteq> []" "list_all name_char s" using assms by (simp_all add: name_ok_def)
  then have h: "name_char (hd s)" "name_char (last s)" by (auto simp: list_all_iff)
  show "s \<noteq> []" by (rule s)
  show "\<not> is_space (hd s)" "\<not> is_space (last s)" "hd s \<noteq> CHR ''[''" "hd s \<noteq> CHR ''#''" "hd s \<noteq> CHR '';''"
    using h by (auto simp: name_char_def)
  show "list_all (\<lambda>c. c \<noteq> CHR ''='') s" "list_all (\<lambda>c. c \<noteq> CHR '']'') s"
    using s(2) by (auto simp: list_all_iff name_char_def)
  show "NL \<notin> set s" using s(2) by (auto simp: list_all_iff name_char_def is_space_def)
qed

lemma section_line:
  assumes "name_ok s"
  shows "iniparser_line (''['' @ s @ '']'') sec key val = (LINE_SECTION, lowered s, key, val)"
proof -
  note s = name_okD[OF assms]
  have "takeWhile (\<lambda>c. c \<noteq> CHR '']'') (s @ [CHR '']'']) = s" using takeWhile_upto[OF s(5), of "CHR '']''" "[]"] by simp
  then have "scan_set (\<lambda>c. c \<noteq> CHR '']'') (s @ [CHR '']'']) = Some s"
    using s(1) by (simp add: scan_set_def split: list.split)
  moreover have "strstrip (''['' @ s @ '']'') = ''['' @ s @ '']''"
    by (rule strstrip_id) (simp add: is_space_def)
  moreover have "strstrip s = s" using s by (intro strstrip_id) simp
  ultimately show ?thesis
    by (simp add: iniparser_line_def Let_def strlwc_def lowered_def)
qed

text \<open>The blanks a printed key may be padded with are stripped again.\<close>

lemma strstrip_padded:
  assumes "name_ok k"
  shows "strstrip (k @ replicate m (CHR '' '')) = k"
proof -
  note s = name_okD[OF assms]
  obtain c k1 where k: "k = c # k1" "\<not> is_space c" using s(1,2) by (cases k) auto
  have b: "is_space (CHR '' '')" by (simp add: is_space_def)
  have "dropWhile is_space (replicate m (CHR '' '') @ rev k) = dropWhile is_space (rev k)"
    using b by (induction m) simp_all
  then have "rstrip (k @ replicate m (CHR '' '')) = rstrip k" by (simp add: rstrip_def)
  then show ?thesis using s(3) k rstrip_id[of k] by (simp add: strstrip_def)
qed

lemma value_line_padded:
  assumes k: "name_ok k" and v: "value_ok v"
  shows "iniparser_line (k @ replicate m (CHR '' '') @ '' = '' @ v) sec key val = (LINE_VALUE, sec, lowered k, v)"
proof -
  note s = name_okD[OF k]
  have v': "v \<noteq> []" "\<not> is_space (hd v)" "\<not> is_space (last v)" "hd v \<noteq> CHR 0x22" "hd v \<noteq> CHR 0x27"
    "list_all (\<lambda>x. x \<noteq> CHR '';'' \<and> x \<noteq> CHR ''#'') v"
    using v by (auto simp: value_ok_def list_all_iff)
  define l r q where "l = k @ replicate m (CHR '' '') @ '' = '' @ v" and r: "r = CHR ''='' # CHR '' '' # v"
    and q: "q = k @ replicate (Suc m) (CHR '' '')"
  have l: "l = q @ r" by (simp add: l_def r q replicate_append_same)
  have line: "strstrip l = l" using s v' unfolding l_def by (intro strstrip_id) simp
  have "list_all (\<lambda>c. c \<noteq> CHR ''='') q" using s(4) unfolding q list_all_iff by fastforce
  then have scan: "scan_key l = (q, r)"
    using takeWhile_upto[of _ q "CHR ''=''" "CHR '' '' # v"] dropWhile_upto[of _ q "CHR ''=''" "CHR '' '' # v"]
    by (simp add: scan_key_def l r)
  have eq: "scan_eq r = Some v"
    using v'(1,2) by (cases v) (simp_all add: r scan_eq_def skip_ws_def is_space_def)
  obtain a v1 where av: "v = a # v1" "a \<noteq> CHR 0x22" "a \<noteq> CHR 0x27" using v'(1,4,5) by (cases v) auto
  have quoted: "scan_quoted (CHR 0x22) r = None" "scan_quoted (CHR 0x27) r = None"
    using av(2,3) unfolding scan_quoted_def eq by (simp_all add: av(1))
  have all: "takeWhile (\<lambda>x. x \<noteq> CHR '';'' \<and> x \<noteq> CHR ''#'') v = v"
    using v'(6) by (simp add: takeWhile_eq_all_conv list_all_iff)
  have plain: "scan_plain r = Some v"
    unfolding scan_plain_def eq option.case scan_set_def all by (simp add: av(1))
  have strip: "strstrip q = k" "strstrip v = v"
    using strstrip_padded[OF k, of "Suc m"] v' by (auto simp: q simp del: replicate_Suc intro: strstrip_id)
  have nq: "v \<noteq> [CHR 0x22, CHR 0x22]" "v \<noteq> [CHR 0x27, CHR 0x27]" using v'(4,5) by auto
  have "hd l = hd k" "l \<noteq> []" "q \<noteq> []" "strlwc k (length l) = lowered k"
    using s(1) by (simp_all add: l_def q strlwc_def lowered_def)
  moreover from this have "\<not> length l < 1" "\<not> (hd l = CHR ''#'' \<or> hd l = CHR '';'')" "\<not> (hd l = CHR ''['' \<and> last l = CHR '']'')"
    using s(6-8) by (simp_all add: Suc_le_eq)
  ultimately have "iniparser_line l sec key val = (LINE_VALUE, sec, lowered k, v)"
    using line scan quoted plain nq strip unfolding iniparser_line_def Let_def by simp
  then show ?thesis by (simp add: l_def)
qed

lemma value_line:
  assumes "name_ok k" and "value_ok v"
  shows "iniparser_line (k @ '' = '' @ v) sec key val = (LINE_VALUE, sec, lowered k, v)"
  using value_line_padded[OF assms, of 0] by simp

text \<open>A key without value, as it is left when the blanks at the end of the line are gone.\<close>

lemma empty_value_line:
  assumes k: "name_ok k"
  shows "iniparser_line (k @ replicate m (CHR '' '') @ '' ='') sec key val = (LINE_VALUE, sec, lowered k, [])"
proof -
  note s = name_okD[OF k]
  define l q where "l = k @ replicate m (CHR '' '') @ '' =''" and q: "q = k @ replicate (Suc m) (CHR '' '')"
  have l: "l = q @ ''=''" by (simp add: l_def q replicate_append_same)
  have line: "strstrip l = l" using s unfolding l_def by (intro strstrip_id) (simp add: is_space_def)
  have "list_all (\<lambda>c. c \<noteq> CHR ''='') q" using s(4) unfolding q list_all_iff by fastforce
  then have scan: "scan_key l = (q, ''='')"
    using takeWhile_upto[of _ q "CHR ''=''" "[]"] dropWhile_upto[of _ q "CHR ''=''" "[]"]
    by (simp add: scan_key_def l)
  have none: "scan_quoted (CHR 0x22) ''='' = None" "scan_quoted (CHR 0x27) ''='' = None" "scan_plain ''='' = None"
    "scan_novalue ''=''"
    by code_simp+
  have strip: "strstrip q = k" using strstrip_padded[OF k, of "Suc m"] by (simp add: q)
  have "hd l = hd k" "l \<noteq> []" "q \<noteq> []" "strlwc k (length l) = lowered k"
    using s(1) by (simp_all add: l_def q strlwc_def lowered_def)
  moreover from this have "\<not> length l < 1" "\<not> (hd l = CHR ''#'' \<or> hd l = CHR '';'')" "\<not> (hd l = CHR ''['' \<and> last l = CHR '']'')"
    using s(6-8) by (simp_all add: Suc_le_eq)
  ultimately have "iniparser_line l sec key val = (LINE_VALUE, sec, lowered k, [])"
    using line scan none strip unfolding iniparser_line_def Let_def by simp
  then show ?thesis by (simp add: l_def)
qed

subsection \<open>Reading them\<close>

text \<open>The lines of such a file as \<open>load_loop\<close> sees them.\<close>

definition line_ok :: "string \<Rightarrow> bool" where
  "line_ok l \<longleftrightarrow> l \<noteq> [] \<and> \<not> is_space (last l) \<and> last l \<noteq> CHR 0x5C \<and> NL \<notin> set l \<and> length l \<le> 1020"

lemma fgets_line:
  assumes "NL \<notin> set l" and "length l + 1 < n"
  shows "fgets n (l @ NL # rest) = (l @ [NL], rest)"
proof -
  have "find_idx (\<lambda>c. c = NL) (l @ NL # r) = Some (length l)" for r
    using assms(1) by (induction l) auto
  moreover obtain r where "take (n - 1) (l @ NL # rest) = l @ NL # r"
    using assms(2) by (cases "n - 1 - length l") (auto simp: take_Cons')
  ultimately show ?thesis by (simp add: fgets_def)
qed

lemma load_loop_rstrip:
  assumes "l \<noteq> []" and "NL \<notin> set l" and "length l \<le> 1020" and "rstrip l \<noteq> [] \<Longrightarrow> last (rstrip l) \<noteq> CHR 0x5C"
    and "ls_line s = []"
  shows "load_loop (l @ NL # rest) s = load_loop rest (load_line (rstrip l) s)"
proof -
  have l: "rstrip (l @ [NL]) = rstrip l" and f: "fgets 1024 (l @ NL # rest) = (l @ [NL], rest)"
    using assms(2,3) by (auto simp: rstrip_def is_space_def intro: fgets_line)
  have "\<not> length (l @ [NL]) \<le> 1" using assms(1) by simp
  then show ?thesis
    using l f assms(4,5) by (subst load_loop.simps) (auto simp: ASCIILINESZ_def Let_def)
qed

lemma load_loop_line:
  assumes "line_ok l" and "ls_line s = []"
  shows "load_loop (l @ NL # rest) s = load_loop rest (load_line l s)"
  using load_loop_rstrip[of l s rest] assms by (auto simp: line_ok_def rstrip_id)

text \<open>Empty lines are skipped.\<close>

lemma load_loop_blank:
  assumes "ls_line s = []"
  shows "load_loop (NL # rest) s = load_loop rest s"
proof -
  have "fgets 1024 (NL # rest) = ([NL], rest)" using fgets_line[of "[]" 1024 rest] by simp
  then show ?thesis using assms by (subst load_loop.simps) (simp add: ASCIILINESZ_def Let_def)
qed

lemma ls_line_load_line [simp]: "ls_line (load_line l s) = []"
  by (simp add: load_line_def Let_def split: prod.split line_status.split)

lemma load_loop_lines:
  assumes "list_all line_ok ls" and "ls_line s = []"
  shows "load_loop (concat (map (\<lambda>l. l @ [NL]) ls)) s = Some (fold load_line ls s)"
  using assms
proof (induction ls arbitrary: s)
  case Nil
  then show ?case by (simp add: load_loop.simps)
next
  case (Cons l ls)
  then show ?case using load_loop_line[of l s "concat (map (\<lambda>l. l @ [NL]) ls)"] by simp
qed

lemma section_lines_ok:
  assumes "section_ok sec"
  shows "list_all line_ok (section_lines sec)"
proof -
  have "line_ok (''['' @ fst sec @ '']'')"
    using assms name_okD(9)[of "fst sec"] by (auto simp: section_ok_def line_ok_def is_space_def)
  moreover have "line_ok (k @ '' = '' @ v)" if "(k, v) \<in> set (snd sec)" for k v
  proof -
    have "name_ok k" "value_ok v" "length k + length v \<le> 1000"
      using assms that by (auto simp: section_ok_def list_all_iff)
    then show ?thesis using name_okD(9)[of k] by (auto simp: line_ok_def value_ok_def)
  qed
  ultimately show ?thesis by (auto simp: section_lines_def list_all_iff)
qed

lemma load_values:
  assumes "list_all (\<lambda>(k, v). name_ok k \<and> value_ok v) kvs" and "ls_section s = sec"
  shows "ls_dict (fold load_line (map (\<lambda>(k, v). k @ '' = '' @ v) kvs) s) =
      dict.store_all (map (\<lambda>(k, v). (sec @ '':'' @ lowered k, Str v)) kvs) (ls_dict s) \<and>
    ls_errs (fold load_line (map (\<lambda>(k, v). k @ '' = '' @ v) kvs) s) = ls_errs s"
  using assms
proof (induction kvs arbitrary: s)
  case Nil
  then show ?case by (simp add: dict.store_all_def)
next
  case (Cons kv kvs)
  obtain k v where kv: "kv = (k, v)" by (cases kv)
  let ?s = "load_line (k @ '' = '' @ v) s"
  have "iniparser_line (k @ '' = '' @ v) sec' key val = (LINE_VALUE, sec', lowered k, v)" for sec' key val
    using Cons.prems(1) by (intro value_line) (simp_all add: kv)
  then have "ls_section ?s = sec" "ls_dict ?s = dict_put (sec @ '':'' @ lowered k) (Str v) (ls_dict s)" "ls_errs ?s = ls_errs s"
    using Cons.prems(2) unfolding load_line_def by (simp_all only: Let_def prod.case line_status.case, simp_all)
  then show ?case using Cons.IH[of ?s] Cons.prems(1) by (simp add: kv dict.store_all_def)
qed

lemma load_section:
  assumes "section_ok sec"
  shows "ls_dict (fold load_line (section_lines sec) s) = dict.store_all (section_entries sec) (ls_dict s) \<and>
    ls_errs (fold load_line (section_lines sec) s) = ls_errs s"
proof -
  let ?s = "load_line (''['' @ fst sec @ '']'') s"
  have "iniparser_line (''['' @ fst sec @ '']'') sec' key val = (LINE_SECTION, lowered (fst sec), key, val)" for sec' key val
    using assms by (intro section_line) (simp add: section_ok_def)
  then have "ls_section ?s = lowered (fst sec)" "ls_dict ?s = dict_put (lowered (fst sec)) NULL (ls_dict s)" "ls_errs ?s = ls_errs s"
    unfolding load_line_def by (simp_all only: Let_def prod.case line_status.case, simp_all)
  moreover have "list_all (\<lambda>(k, v). name_ok k \<and> value_ok v) (snd sec)"
    using assms by (auto simp: section_ok_def list_all_iff)
  ultimately show ?thesis using load_values[of "snd sec" ?s "lowered (fst sec)"]
    by (simp add: section_lines_def section_entries_def dict.store_all_def)
qed

lemma load_sections_fold:
  assumes "list_all section_ok secs"
  shows "ls_dict (fold load_line (concat (map section_lines secs)) s) =
      dict.store_all (concat (map section_entries secs)) (ls_dict s) \<and>
    ls_errs (fold load_line (concat (map section_lines secs)) s) = ls_errs s"
  using assms
proof (induction secs arbitrary: s)
  case Nil
  then show ?case by (simp add: dict.store_all_def)
next
  case (Cons sec secs)
  then show ?case using load_section[of sec s] Cons.IH[of "fold load_line (section_lines sec) s"]
    by (simp add: dict.store_all_def)
qed

lemma print_ini_loads:
  assumes "list_all section_ok secs"
  shows "iniparser_load (Some (print_ini secs)) = Some (dict.store_all (concat (map section_entries secs)) (dictionary_new 0))"
proof -
  have "list_all line_ok (concat (map section_lines secs))"
    using assms section_lines_ok by (auto simp: list_all_iff)
  then have run: "load_loop (print_ini secs) load_init = Some (fold load_line (concat (map section_lines secs)) load_init)"
    unfolding print_ini_def by (rule load_loop_lines) (simp add: load_init_def)
  show ?thesis
    using load_sections_fold[OF assms, of load_init] unfolding iniparser_load_def option.case run
    by (simp add: load_init_def)
qed

lemma store_all_new: "dict_abs (dict.store_all es (dictionary_new n)) = map_of (rev es)"
proof -
  have "dict_abs (dictionary_new n) = Map.empty" using dict_abs_new by (rule ext)
  then show ?thesis using dict.lookup_store_all[OF dict_wf_new, of es n] by simp
qed

text \<open>
  C17: Printed files are read back. A file of headings and \<open>key = value\<close> lines with
  values without comment characters, leading quotes or blanks at their ends, and lines of at most
  about a thousand characters loads without error, into a well-formed dictionary in which every
  heading is a key without value, every \<open>section:key\<close> has the last value given for it, and nothing
  else is found. Names are stored in lower case; those looked up may be given in any case.
\<close>

theorem printed_file_loads:
  assumes "list_all section_ok secs"
  shows "\<exists>d. iniparser_load (Some (print_ini secs)) = Some d \<and> dict_wf d \<and>
    (\<forall>key def. iniparser_getstring (Some d) key def =
      (case map_of (rev (concat (map section_entries secs))) (strlwc key (ASCIILINESZ + 1)) of
         None \<Rightarrow> def | Some v \<Rightarrow> v))"
  using print_ini_loads[OF assms] store_all_new dict.wf_store_all[OF dict_wf_new]
  by (simp add: iniparser_getstring_def dictionary_get_abs)

theorem printed_file_loads_witness:
  "\<exists>d. iniparser_load (Some (print_ini [(''WINSCARD'', [(''LOG_EXCHANGED_APDU'', ''1'')]), (''RULE1'', [(''MATCH1'', ''in=1,t=0,CLA=b0,'')])])) = Some d \<and>
     iniparser_getstring (Some d) ''Rule1:MATCH1'' INI_INVALID_KEY = Str ''in=1,t=0,CLA=b0,'' \<and>
     iniparser_getstring (Some d) ''RULE1:MATCH2'' INI_INVALID_KEY = INI_INVALID_KEY"
proof -
  let ?secs = "[(''WINSCARD'', [(''LOG_EXCHANGED_APDU'', ''1'')]), (''RULE1'', [(''MATCH1'', ''in=1,t=0,CLA=b0,'')])]"
  have "list_all section_ok ?secs" by code_simp
  from printed_file_loads[OF this] obtain d where d: "iniparser_load (Some (print_ini ?secs)) = Some d"
    "\<forall>key def. iniparser_getstring (Some d) key def =
      (case map_of (rev (concat (map section_entries ?secs))) (strlwc key (ASCIILINESZ + 1)) of None \<Rightarrow> def | Some v \<Rightarrow> v)"
    by blast
  have "map_of (rev (concat (map section_entries ?secs))) (strlwc ''Rule1:MATCH1'' (ASCIILINESZ + 1)) = Some (Str ''in=1,t=0,CLA=b0,'')"
    "map_of (rev (concat (map section_entries ?secs))) (strlwc ''RULE1:MATCH2'' (ASCIILINESZ + 1)) = None"
    by code_simp+
  then show ?thesis using d by (metis option.simps(4,5))
qed

end
