(* ===== verification/Rules_File.thy ===== *)
theory Rules_File
  imports Rule_Loader Ini_Files
begin

text \<open>
  From the text of a rules file to the rules in memory: the composition of the ini-file reader
  (\<open>Ini_Parser\<close>) with the interpretation of its sections (\<open>Rule_Loader\<close>). The sections are visited in
  the order of the dictionary's slots; as nothing is ever removed while a file is read, this is the
  order of the file.
\<close>

subsection \<open>The order of the slots\<close>

definition filled :: "string list \<Rightarrow> dictionary \<Rightarrow> bool" where
  "filled ks d \<longleftrightarrow> dict_wf d \<and> (\<exists>m. d_key d = map Some ks @ replicate m None)"

lemma filledD:
  assumes "filled ks d"
  shows "dict_wf d" "d_n d = length ks" "length ks \<le> d_size d"
    "d_key d = map Some ks @ replicate (d_size d - length ks) None"
proof -
  obtain m where m: "d_key d = map Some ks @ replicate m None" and wf: "dict_wf d"
    using assms by (auto simp: filled_def)
  show "dict_wf d" by (rule wf)
  show "d_n d = length ks" using dict_wfD(5)[OF wf] by (simp add: m used_slots_def comp_def)
  have "length ks + m = d_size d" using dict_wfD(2)[OF wf] by (simp add: m)
  then show "length ks \<le> d_size d" "d_key d = map Some ks @ replicate (d_size d - length ks) None"
    using m by auto
qed

lemma filled_new: "filled [] (dictionary_new n)"
  using dict_wf_new[of n] by (auto simp: filled_def dictionary_new_def Let_def)

lemma filled_put:
  assumes "filled ks d" and "k \<notin> set ks"
  shows "filled (ks @ [k]) (dict_put k v d)"
proof -
  note f = filledD[OF assms(1)]
  let ?d = "if d_n d = d_size d then fst (dictionary_grow True d) else d"
  have g: "d_key ?d = map Some ks @ replicate (d_size ?d - length ks) None" "length ks < d_size ?d" "d_n ?d = length ks"
    using f(2-4) dict_wfD(4)[OF f(1)] by (auto simp: dictionary_grow_def replicate_add[symmetric])
  have none: "find_slot d k = None"
    using assms(2) f(3,4) by (auto simp: find_slot_None[OF f(1)] nth_append)
  have len: "length (d_key ?d) = d_size ?d" using g(1,2) by simp
  have "d_key ?d ! length ks = None" using g(1,2) by (simp add: nth_append)
  then have free: "next_free (d_size ?d) (d_key ?d) (d_n d) = Some (length ks)"
    using g(2,3) len f(2) by (cases "d_size ?d") auto
  have put: "dict_put k v d = put_slot ?d (length ks) k v"
    unfolding dict_put_def dictionary_set_def none if_cancel option.case
    using free by (cases "d_n d = d_size d") (simp_all add: dictionary_grow_def)
  obtain m where m: "d_size ?d - length ks = Suc m" using g(2) by (cases "d_size ?d - length ks") auto
  have "d_key (put_slot ?d (length ks) k v) = map Some (ks @ [k]) @ replicate m None"
    unfolding put_slot_def by (simp add: g(1) m list_update_append)
  then show ?thesis
    using dict_put_correct(1)[OF f(1), of k v] unfolding filled_def put by blast
qed

lemma filled_store_all:
  assumes "filled ks d" and "distinct (ks @ map fst es)"
  shows "filled (ks @ map fst es) (dict.store_all es d)"
  using assms
proof (induction es arbitrary: ks d)
  case Nil
  then show ?case by (simp add: dict.store_all_def)
next
  case (Cons e es)
  have "filled (ks @ [fst e]) (dict_put (fst e) (snd e) d)"
    using Cons.prems by (intro filled_put) auto
  then show ?case using Cons.IH[of "ks @ [fst e]" "dict_put (fst e) (snd e) d"] Cons.prems(2)
    by (simp add: dict.store_all_def split_beta)
qed

text \<open>The sections of a dictionary filled with \<open>ks\<close> are the keys without a colon, in their order.\<close>

definition section_names :: "string list \<Rightarrow> string list" where
  "section_names ks = filter (\<lambda>k. CHR '':'' \<notin> set k) ks"

lemma filled_nsec: "filled ks d \<Longrightarrow> iniparser_getnsec (Some d) = int (length (section_names ks))"
proof -
  assume f: "filled ks d"
  have none: "filter is_section_key (replicate m None) = []" for m
    by (simp add: is_section_key_def filter_empty_conv)
  have "length (filter is_section_key (map Some ks)) = length (section_names ks)"
    by (simp add: section_names_def filter_map comp_def is_section_key_def)
  then show ?thesis using none by (simp add: iniparser_getnsec_def filledD(4)[OF f])
qed

lemma nth_section_keys:
  "i < length (section_names ks) \<Longrightarrow> nth_section (map Some ks @ rest) i = Some (section_names ks ! i)"
proof (induction ks arbitrary: i)
  case Nil
  then show ?case by (simp add: section_names_def)
next
  case (Cons k ks)
  show ?case
  proof (cases "CHR '':'' \<in> set k")
    case True
    then show ?thesis using Cons by (simp add: section_names_def is_section_key_def)
  next
    case False
    then show ?thesis using Cons by (cases i) (simp_all add: section_names_def is_section_key_def)
  qed
qed

lemma filled_secname:
  "filled ks d \<Longrightarrow> i < length (section_names ks) \<Longrightarrow> iniparser_getsecname (Some d) (int i) = Some (section_names ks ! i)"
  using nth_section_keys by (simp add: iniparser_getsecname_def filledD(4))

lemma foldE_cong:
  "(\<And>x s. x \<in> set xs \<Longrightarrow> f x s = g x s) \<Longrightarrow> foldE f xs s = foldE g xs s"
proof (induction xs arbitrary: s)
  case (Cons x xs)
  then show ?case by (cases "g x s") simp_all
qed simp

lemma foldE_map: "foldE f (map h xs) s = foldE (\<lambda>x. f (h x)) xs s"
proof (induction xs arbitrary: s)
  case (Cons x xs)
  then show ?case by (cases "f (h x) s") simp_all
qed simp

lemma load_sections_filled:
  assumes "filled ks d"
  shows "load_sections junk (Some d) s = foldE (LoadRule junk (Some d)) (section_names ks) s"
proof -
  let ?ns = "section_names ks"
  have "load_sections junk (Some d) s = foldE (\<lambda>i. LoadRule junk (Some d) (?ns ! i)) [0..<length ?ns] s"
    unfolding load_sections_def filled_nsec[OF assms] nat_int
    by (rule foldE_cong) (simp add: filled_secname[OF assms])
  also have "\<dots> = foldE (LoadRule junk (Some d)) (map ((!) ?ns) [0..<length ?ns]) s"
    by (simp add: foldE_map)
  finally show ?thesis by (simp add: map_nth)
qed

subsection \<open>Printed actions\<close>

text \<open>Actions may also set the expected length.\<close>

definition action_names :: "(string \<times> int) list" where
  "action_names = header_names @ [(''LE'', LE_ELEM)]"

definition print_action :: "nat \<Rightarrow> ((string \<times> int) \<times> byte) list \<Rightarrow> string" where
  "print_action dir es = ''in='' @ fmt_u dir @ '','' @ concat (map (\<lambda>e. print_elem e @ '','') es)"

lemma action_part_print:
  assumes "fst e \<in> set action_names"
  shows "action_part sec (print_elem e @ '','') (sr, acc) =
    (let r = sr\<lparr>sr_element := snd (fst e), sr_value := snd e, sr_valid := True\<rparr> in Inr (r, acc @ [r]))"
proof -
  obtain n k b where e: "e = ((n, k), b)" by (metis prod.exhaust)
  have eq: "CHR ''='' \<notin> set n" using assms by (auto simp: e header_names_def action_names_def)
  have name: "elem_name (print_elem e @ '','') = n" and "take 2 (after_eq (print_elem e @ '','')) = fmt_02x b"
    using elem_name_print[OF eq, of "fmt_02x b @ '',''"] after_eq_print[OF eq, of "fmt_02x b @ '',''"]
    by (simp_all add: print_elem_def e) (simp add: fmt_02x_def)
  then have push: "push_elem c (print_elem e @ '','') (sr, acc) =
      (sr\<lparr>sr_element := c, sr_value := b, sr_valid := True\<rparr>,
       acc @ [sr\<lparr>sr_element := c, sr_value := b, sr_valid := True\<rparr>])" for c
    by (simp add: push_elem_def hex_byte_fmt_02x Let_def)
  have names: "list_all (\<lambda>n. list_all (\<lambda>m. same_name n m = (n = m)) (map fst action_names) \<and> \<not> same_name (take 4 n) ''DATA'')
      (map fst action_names)"
    unfolding same_name_eq by code_simp
  have n: "(n, k) \<in> set action_names" using assms by (simp add: e)
  then have "n \<in> set (map fst action_names)" by force
  then have all: "list_all (\<lambda>m. same_name n m = (n = m)) (map fst action_names)" and data: "\<not> same_name (take 4 n) ''DATA''"
    using names unfolding list_all_iff by blast+
  have same: "same_name n m \<longleftrightarrow> n = m" if "m \<in> set (map fst action_names)" for m
    using all that unfolding list_all_iff by blast
  have same6: "same_name n ''CLA'' \<longleftrightarrow> n = ''CLA''" "same_name n ''INS'' \<longleftrightarrow> n = ''INS''" "same_name n ''P1'' \<longleftrightarrow> n = ''P1''"
    "same_name n ''P2'' \<longleftrightarrow> n = ''P2''" "same_name n ''LC'' \<longleftrightarrow> n = ''LC''" "same_name n ''LE'' \<longleftrightarrow> n = ''LE''"
    by (rule same, simp add: action_names_def header_names_def)+
  have k: "k = (if n = ''CLA'' then CLA_ELEM else if n = ''INS'' then INS_ELEM else if n = ''P1'' then P1_ELEM
      else if n = ''P2'' then P2_ELEM else if n = ''LC'' then LC_ELEM else LE_ELEM)"
    and one: "n = ''CLA'' \<or> n = ''INS'' \<or> n = ''P1'' \<or> n = ''P2'' \<or> n = ''LC'' \<or> n = ''LE''"
    using n by (auto simp: action_names_def header_names_def)
  let ?r = "sr\<lparr>sr_element := k, sr_value := b, sr_valid := True\<rparr>"
  have "action_part sec (print_elem e @ '','') (sr, acc) = Inr (?r, acc @ [?r])"
    unfolding action_part_def Let_def name same6 k if_not_P[OF data]
    using one by (elim disjE; simp only: push if_True if_False list.inject char.inject simp_thms refl list.distinct)
  then show ?thesis by (simp add: e Let_def)
qed

lemma print_elem_no_comma:
  assumes "fst e \<in> set action_names"
  shows "CHR '','' \<notin> set (print_elem e)"
proof -
  have "CHR '','' \<notin> set (fst (fst e))" using assms by (cases e) (auto simp: header_names_def action_names_def)
  then show ?thesis using fmt_02x_no_comma by (simp add: print_elem_def)
qed

lemma foldE_action_parts:
  assumes "\<forall>e \<in> set es. fst e \<in> set action_names"
    and "sr_history sr = 0" "sr_apduDirection sr = int dir"
  shows "\<exists>sr'. foldE (action_part sec) (map (\<lambda>e. print_elem e @ '','') es) (sr, acc) = Inr (sr', acc @ map (elem_rule 0 dir) es)"
  using assms
proof (induction es arbitrary: sr acc)
  case (Cons e es)
  let ?r = "sr\<lparr>sr_element := snd (fst e), sr_value := snd e, sr_valid := True\<rparr>"
  have r: "?r = elem_rule 0 dir e" using Cons.prems(2,3) by (cases sr) (simp add: elem_rule_def)
  have "action_part sec (print_elem e @ '','') (sr, acc) = Inr (?r, acc @ [?r])"
    using action_part_print[of e sec sr acc] Cons.prems(1) by (simp add: Let_def)
  moreover have "sr_history ?r = 0" "sr_apduDirection ?r = int dir" using Cons.prems(2,3) by simp_all
  ultimately show ?case using Cons.IH[of ?r "acc @ [?r]"] Cons.prems(1) by (simp add: r)
qed simp

lemma load_action_value_print:
  assumes "\<forall>e \<in> set es. fst e \<in> set action_names" and "int dir < 2 ^ 31"
  shows "load_action_value sec (print_action dir es) sr = Inr (map (elem_rule 0 dir) es)"
proof -
  let ?els = "concat (map (\<lambda>e. print_elem e @ '','') es) @ '' ''"
  have "\<forall>e \<in> set (map print_elem es). CHR '','' \<notin> set e" using assms(1) print_elem_no_comma by auto
  then have parts: "comma_parts [] ?els = map (\<lambda>e. print_elem e @ '','') es"
    using comma_parts_elements[of "map print_elem es" "'' ''"] by (simp add: comp_def)
  let ?sr = "(APDU_SINGLE_RULE_clear sr)\<lparr>sr_apduDirection := int dir\<rparr>"
  have field: "take_field ''in='' (print_action dir es @ '' '') = Some (int dir, ?els)"
    using take_field_front[OF assms(2), of "''in=''" ?els] by (simp add: print_action_def)
  obtain sr' where elems: "foldE (action_part sec) (map (\<lambda>e. print_elem e @ '','') es) (?sr, []) =
      Inr (sr', map (elem_rule 0 dir) es)"
    using foldE_action_parts[OF assms(1), of ?sr dir sec "[]"] by (auto simp: APDU_SINGLE_RULE_clear_def)
  show ?thesis
    unfolding load_action_value_def Let_def field option.case prod.case parts elems by (simp add: bindE_def)
qed

subsection \<open>Keys of a file\<close>

text \<open>Section names and keys without colons, distinct sections, distinct keys in each.\<close>

definition keys_ok :: "ini_section list \<Rightarrow> bool" where
  "keys_ok secs \<longleftrightarrow> distinct (map (lowered \<circ> fst) secs) \<and>
     list_all (\<lambda>sec. CHR '':'' \<notin> set (lowered (fst sec)) \<and> distinct (map (lowered \<circ> fst) (snd sec))) secs"

lemma section_key_prefix:
  assumes "key \<in> fst ` set (section_entries sec)" and "CHR '':'' \<notin> set (lowered (fst sec))"
  shows "takeWhile (\<lambda>c. c \<noteq> CHR '':'') key = lowered (fst sec)"
proof -
  have all: "list_all (\<lambda>c. c \<noteq> CHR '':'') (lowered (fst sec))" using assms(2) by (auto simp: list_all_iff)
  have "takeWhile (\<lambda>c. c \<noteq> CHR '':'') (lowered (fst sec)) = lowered (fst sec)"
    using all by (simp add: takeWhile_eq_all_conv list_all_iff)
  moreover have "takeWhile (\<lambda>c. c \<noteq> CHR '':'') (lowered (fst sec) @ CHR '':'' # k) = lowered (fst sec)" for k
    by (rule takeWhile_upto[OF all]) simp
  moreover have "key = lowered (fst sec) \<or> (\<exists>k. key = lowered (fst sec) @ CHR '':'' # k)"
    using assms(1) by (auto simp: section_entries_def)
  ultimately show ?thesis by metis
qed

lemma distinct_entries:
  assumes "keys_ok secs"
  shows "distinct (map fst (concat (map section_entries secs)))"
  using assms
proof (induction secs)
  case (Cons sec secs)
  have sec: "CHR '':'' \<notin> set (lowered (fst sec))" "distinct (map (lowered \<circ> fst) (snd sec))" and ok: "keys_ok secs"
    and new: "lowered (fst sec) \<notin> (lowered \<circ> fst) ` set secs"
    using Cons.prems by (auto simp: keys_ok_def)
  have "distinct (map (\<lambda>k. lowered (fst sec) @ '':'' @ k) (map (lowered \<circ> fst) (snd sec)))"
    using sec(2) by (subst distinct_map) (auto intro: inj_onI)
  then have one: "distinct (map fst (section_entries sec))"
    by (auto simp: section_entries_def comp_def split_beta)
  have "fst ` set (section_entries sec) \<inter> fst ` set (concat (map section_entries secs)) = {}"
  proof (rule ccontr)
    assume "\<not> ?thesis"
    then obtain key sec' where k: "key \<in> fst ` set (section_entries sec)" "sec' \<in> set secs"
      "key \<in> fst ` set (section_entries sec')" by auto
    have "CHR '':'' \<notin> set (lowered (fst sec'))" using ok k(2) by (auto simp: keys_ok_def list_all_iff)
    then have "lowered (fst sec) = lowered (fst sec')"
      using section_key_prefix[OF k(1) sec(1)] section_key_prefix[OF k(3)] by simp
    then show False using new k(2) by auto
  qed
  then show ?case using one Cons.IH[OF ok] by simp
qed simp

lemma section_names_entries:
  assumes "keys_ok secs"
  shows "section_names (map fst (concat (map section_entries secs))) = map (lowered \<circ> fst) secs"
  using assms
proof (induction secs)
  case (Cons sec secs)
  have "filter (\<lambda>k. CHR '':'' \<notin> set k) (map (\<lambda>(k, v). lowered (fst sec) @ '':'' @ lowered k) (snd sec)) = []"
    by (auto simp: filter_empty_conv)
  then show ?case using Cons
    by (simp add: keys_ok_def section_names_def section_entries_def comp_def split_beta)
qed (simp add: section_names_def)

subsection \<open>Written rules\<close>

text \<open>A rule as a user writes it, the section it is written as, and the rule in memory it means.\<close>

record written_rule =
  wr_number :: nat
  wr_usage :: nat
  wr_apduin :: nat
  wr_delay :: nat
  wr_history :: nat
  wr_in :: nat
  wr_match :: "((string \<times> int) \<times> byte) list"
  wr_out :: nat
  wr_action :: "((string \<times> int) \<times> byte) list"

definition written_keys :: "written_rule \<Rightarrow> (string \<times> string) list" where
  "written_keys w =
     [(''USAGE'', fmt_u (wr_usage w)), (''APDUIN'', fmt_u (wr_apduin w)), (''DELAY'', fmt_u (wr_delay w)),
      (''MATCH1'', print_match (wr_history w) (wr_in w) (wr_match w)),
      (''ACTION'', print_action (wr_out w) (wr_action w))]"

definition written_section :: "written_rule \<Rightarrow> ini_section" where
  "written_section w = (''RULE'' @ fmt_u (wr_number w), written_keys w)"

definition rule_name :: "written_rule \<Rightarrow> string" where
  "rule_name w = ''rule'' @ fmt_u (wr_number w)"

definition rule_meaning :: "written_rule \<Rightarrow> APDU_RULE" where
  "rule_meaning w = \<lparr>r_ruleName = rule_name w, r_usage = int (wr_usage w), r_direction = int (wr_apduin w),
     r_matchRules = map (elem_rule (wr_history w) (wr_in w)) (wr_match w),
     r_actionRules = map (elem_rule 0 (wr_out w)) (wr_action w), r_msDelay = int (wr_delay w)\<rparr>"

definition written_ok :: "written_rule \<Rightarrow> bool" where
  "written_ok w \<longleftrightarrow>
     list_all (\<lambda>n. n < 2 ^ 31) [wr_number w, wr_usage w, wr_apduin w, wr_delay w, wr_history w, wr_in w, wr_out w] \<and>
     list_all (\<lambda>e. fst e \<in> set header_names) (wr_match w) \<and>
     list_all (\<lambda>e. fst e \<in> set action_names) (wr_action w) \<and>
     length (wr_match w) \<le> 100 \<and> length (wr_action w) \<le> 100"

subsubsection \<open>Their characters\<close>

definition digit_char :: "char \<Rightarrow> bool" where
  "digit_char c \<longleftrightarrow> c \<in> set ''0123456789''"

lemma digit_chars: "list_all digit_char (fmt_u n)"
proof -
  have t: "list_all (\<lambda>m. digit_char (hex_digit m)) [0..<10]" by code_simp
  have "digit_char c" if "c \<in> set (fmt_u n)" for c
    using fmt_u_digits[OF that] t by (auto simp: list_all_iff)
  then show ?thesis by (simp add: list_all_iff)
qed

lemma length_fmt_u_31: "n < 2 ^ 31 \<Longrightarrow> length (fmt_u n) \<le> 10"
  by (rule length_fmt_u) simp_all

text \<open>The characters a written rule consists of: none has a meaning for the ini-file reader.\<close>

definition rule_char :: "char \<Rightarrow> bool" where
  "rule_char c \<longleftrightarrow> c \<in> set ''0123456789abcdefCLAINSPE12t=in,''"

lemma rule_char_table:
  "list_all (\<lambda>c. c \<noteq> CHR '';'' \<and> c \<noteq> CHR ''#'' \<and> c \<noteq> NL \<and> \<not> is_space c \<and> c \<noteq> CHR 0x22 \<and> c \<noteq> CHR 0x27 \<and> c \<noteq> CHR 0x5C)
     ''0123456789abcdefCLAINSPE12t=in,''"
  by code_simp

lemma rule_charD:
  assumes "rule_char c"
  shows "c \<noteq> CHR '';''" "c \<noteq> CHR ''#''" "c \<noteq> NL" "\<not> is_space c" "c \<noteq> CHR 0x22" "c \<noteq> CHR 0x27" "c \<noteq> CHR 0x5C"
  using assms rule_char_table unfolding rule_char_def list_all_iff by blast+

lemma rule_chars_value:
  assumes "v \<noteq> []" and "list_all rule_char v"
  shows "value_ok v"
proof -
  have all: "rule_char c" if "c \<in> set v" for c using assms(2) that unfolding list_all_iff by blast
  have ends: "rule_char (hd v)" "rule_char (last v)" using assms(1) by (auto intro: all)
  have "CHR '';'' \<notin> set v" "CHR ''#'' \<notin> set v" "NL \<notin> set v"
    using all rule_charD(1-3) by blast+
  then show ?thesis
    unfolding value_ok_def by (intro conjI assms(1) rule_charD(4-7) ends)
qed

lemma rule_chars_number: "list_all rule_char (fmt_u n)"
proof -
  have "list_all rule_char ''0123456789''" by code_simp
  then show ?thesis using digit_chars[of n] unfolding list_all_iff digit_char_def by blast
qed

lemma rule_chars_hex: "list_all rule_char (fmt_02x b)"
proof -
  have t: "list_all (\<lambda>m. rule_char (hex_digit m)) [0..<16]" by code_simp
  have "unat b div 16 < 16" "unat b mod 16 < 16"
    using unat_byte_less[of b] by (simp_all add: less_mult_imp_div_less)
  then show ?thesis using t by (simp add: fmt_02x_def list_all_iff)
qed

lemma rule_chars_elems:
  assumes "list_all (\<lambda>e. fst e \<in> set action_names) es"
  shows "list_all rule_char (concat (map (\<lambda>e. print_elem e @ '','') es)) \<and>
    length (concat (map (\<lambda>e. print_elem e @ '','') es)) \<le> 7 * length es"
  using assms
proof (induction es)
  case (Cons e es)
  have t: "list_all (\<lambda>n. list_all rule_char (fst n) \<and> length (fst n) \<le> 3) action_names" by code_simp
  have "list_all rule_char (fst (fst e)) \<and> length (fst (fst e)) \<le> 3"
    using t Cons.prems unfolding list_all_iff by auto
  moreover have "rule_char (CHR ''='')" "rule_char (CHR '','')" by code_simp+
  moreover have "length (fmt_02x (snd e)) = 2" by (simp add: fmt_02x_def)
  ultimately show ?case using Cons rule_chars_hex[of "snd e"] by (simp add: print_elem_def)
qed simp

subsubsection \<open>Their sections\<close>

lemma lowered_digits: "lowered (fmt_u n) = fmt_u n"
proof -
  have t: "list_all (\<lambda>c. to_lower c = c) ''0123456789''" by code_simp
  have "to_lower c = c" if "c \<in> set (fmt_u n)" for c
    using digit_chars[of n] t that unfolding list_all_iff digit_char_def by blast
  then show ?thesis unfolding lowered_def by (rule map_idI)
qed

lemma fmt_u_inject: "fmt_u m = fmt_u n \<longleftrightarrow> m = n"
  using digits_val_radix_10 unfolding fmt_u_def by metis

lemma lowered_rule: "lowered ''RULE'' = ''rule''" "lowered ''rule'' = ''rule''"
  by code_simp+

lemma lowered_section: "lowered (fst (written_section w)) = rule_name w"
  by (simp only: written_section_def rule_name_def fst_conv lowered_append lowered_rule lowered_digits)

lemma lowered_name: "lowered (rule_name w) = rule_name w"
  by (simp only: rule_name_def lowered_append lowered_rule lowered_digits)

lemma lowered_keys: "map (lowered \<circ> fst) (written_keys w) = [''usage'', ''apduin'', ''delay'', ''match1'', ''action'']"
proof -
  have "map lowered [''USAGE'', ''APDUIN'', ''DELAY'', ''MATCH1'', ''ACTION''] = [''usage'', ''apduin'', ''delay'', ''match1'', ''action'']"
    by code_simp
  then show ?thesis by (simp add: written_keys_def)
qed

lemma digit_not: "digit_char c \<Longrightarrow> c \<noteq> CHR '':'' \<and> c \<noteq> CHR ''m'' \<and> name_char c"
proof -
  have "list_all (\<lambda>c. c \<noteq> CHR '':'' \<and> c \<noteq> CHR ''m'' \<and> name_char c) ''0123456789''" by code_simp
  then show "digit_char c \<Longrightarrow> ?thesis" unfolding list_all_iff digit_char_def by blast
qed

lemma digits_not: "c \<in> set (fmt_u n) \<Longrightarrow> c \<noteq> CHR '':'' \<and> c \<noteq> CHR ''m'' \<and> name_char c"
  using digit_chars[of n] digit_not unfolding list_all_iff by blast

lemma rule_name_no_colon: "CHR '':'' \<notin> set (rule_name w)"
  using digits_not by (auto simp: rule_name_def)

lemma written_section_ok:
  assumes "written_ok w"
  shows "section_ok (written_section w)"
proof -
  have n: "length (fmt_u n) \<le> 10" if "n \<in> {wr_number w, wr_usage w, wr_apduin w, wr_delay w, wr_history w, wr_in w, wr_out w}" for n
    using assms that by (intro length_fmt_u_31) (auto simp: written_ok_def)
  have "list_all name_char ''RULE''" by code_simp
  then have "name_ok (''RULE'' @ fmt_u (wr_number w))"
    using digits_not unfolding name_ok_def list_all_append by (auto simp: list_all_iff)
  moreover have "length (''RULE'' @ fmt_u (wr_number w)) \<le> 1000" using n[of "wr_number w"] by simp
  moreover have keys: "name_ok ''USAGE''" "name_ok ''APDUIN''" "name_ok ''DELAY''" "name_ok ''MATCH1''" "name_ok ''ACTION''"
    by code_simp+
  have num: "value_ok (fmt_u m)" for m
    using rule_chars_value[OF _ rule_chars_number] by simp
  have lits: "list_all rule_char ''t=''" "list_all rule_char '',in=''" "list_all rule_char ''in=''" "list_all rule_char '',''"
    by code_simp+
  have hdr: "list_all (\<lambda>e. fst e \<in> set action_names) (wr_match w)" "list_all (\<lambda>e. fst e \<in> set action_names) (wr_action w)"
    using assms unfolding written_ok_def action_names_def by (auto simp: list_all_iff)
  note el = rule_chars_elems[OF hdr(1)] rule_chars_elems[OF hdr(2)]
  have "value_ok (print_match (wr_history w) (wr_in w) (wr_match w))"
    using el(1) lits rule_chars_number by (intro rule_chars_value) (simp_all only: print_match_def list_all_append, simp_all)
  moreover have "value_ok (print_action (wr_out w) (wr_action w))"
    using el(2) lits rule_chars_number by (intro rule_chars_value) (simp_all only: print_action_def list_all_append, simp_all)
  moreover have "length (print_match (wr_history w) (wr_in w) (wr_match w)) \<le> 800" "length (print_action (wr_out w) (wr_action w)) \<le> 800"
    using el n[of "wr_history w"] n[of "wr_in w"] n[of "wr_out w"] assms
    by (simp_all add: print_match_def print_action_def written_ok_def)
  ultimately show ?thesis
    using keys num n[of "wr_usage w"] n[of "wr_apduin w"] n[of "wr_delay w"]
    by (simp add: section_ok_def written_section_def written_keys_def)
qed

lemma written_keys_ok:
  assumes "distinct (map wr_number ws)"
  shows "keys_ok (map written_section ws)"
proof -
  have "distinct (map rule_name ws)"
    using assms by (simp add: distinct_map inj_on_def rule_name_def fmt_u_inject)
  moreover have "distinct (map (lowered \<circ> fst) (snd (written_section w)))" for w
    unfolding written_section_def snd_conv lowered_keys by simp
  ultimately show ?thesis
    unfolding keys_ok_def using rule_name_no_colon
    by (simp add: comp_def lowered_section list_all_iff)
qed

subsection \<open>Loading them\<close>

text \<open>The dictionary of a printed file, and what its lookups give.\<close>

definition printed_dict :: "ini_section list \<Rightarrow> dictionary" where
  "printed_dict secs = dict.store_all (concat (map section_entries secs)) (dictionary_new 0)"

lemma printed_getstring:
  "iniparser_getstring (Some (printed_dict secs)) key def =
     (case map_of (rev (concat (map section_entries secs))) (lowered (take 1024 key)) of None \<Rightarrow> def | Some v \<Rightarrow> v)"
  by (simp add: iniparser_getstring_def dictionary_get_abs printed_dict_def store_all_new strlwc_def lowered_def ASCIILINESZ_def)

text \<open>The value a section gives to a key, in any case.\<close>

definition find_key :: "(string \<times> string) list \<Rightarrow> string \<Rightarrow> string option" where
  "find_key kvs k = map_of (map (\<lambda>(k, v). (lowered k, v)) kvs) (lowered k)"

lemma lookup_printed:
  assumes "keys_ok secs" and "sec \<in> set secs"
  shows "map_of (rev (concat (map section_entries secs))) (lowered (fst sec) @ '':'' @ lowered k) =
    map_option Str (find_key (snd sec) k)"
proof -
  let ?es = "concat (map section_entries secs)" and ?key = "lowered (fst sec) @ '':'' @ lowered k"
  have d: "distinct (map fst (rev ?es))" using distinct_entries[OF assms(1)] by (simp add: rev_map[symmetric])
  have colon: "CHR '':'' \<notin> set (lowered (fst sec'))" if "sec' \<in> set secs" for sec'
    using assms(1) that by (auto simp: keys_ok_def list_all_iff)
  show ?thesis
  proof (cases "find_key (snd sec) k")
    case (Some v)
    then have "(lowered k, v) \<in> set (map (\<lambda>(k, v). (lowered k, v)) (snd sec))"
      unfolding find_key_def by (rule map_of_SomeD)
    then have "(?key, Str v) \<in> set (section_entries sec)" by (force simp: section_entries_def)
    then have "(?key, Str v) \<in> set (rev ?es)" using assms(2) by auto
    then show ?thesis using map_of_is_SomeI[OF d] Some by simp
  next
    case None
    have "?key \<noteq> fst e" if e: "e \<in> set ?es" for e
    proof
      assume k: "?key = fst e"
      obtain sec' where s: "sec' \<in> set secs" "e \<in> set (section_entries sec')" using e by auto
      have "takeWhile (\<lambda>c. c \<noteq> CHR '':'') (lowered (fst sec) @ CHR '':'' # lowered k) = lowered (fst sec)"
        using colon[OF assms(2)] by (intro takeWhile_upto) (auto simp: list_all_iff)
      moreover have "takeWhile (\<lambda>c. c \<noteq> CHR '':'') (fst e) = lowered (fst sec')"
        using section_key_prefix[of "fst e" sec'] s colon[OF s(1)] by force
      ultimately have "lowered (fst sec) = lowered (fst sec')" using k by simp
      then have "sec = sec'" using assms(1,2) s(1) by (auto simp: keys_ok_def distinct_map inj_on_def)
      moreover have "fst e \<noteq> lowered (fst sec')" unfolding k[symmetric] using colon[OF s(1)] by (metis in_set_conv_decomp append_Cons)
      ultimately have "lowered k \<in> fst ` set (map (\<lambda>(k, v). (lowered k, v)) (snd sec))"
        using s(2) k by (force simp: section_entries_def)
      then show False using None unfolding find_key_def map_of_eq_None_iff by blast
    qed
    then have "?key \<notin> fst ` set (rev ?es)" by auto
    then have "map_of (rev ?es) ?key = None" by (simp only: map_of_eq_None_iff not_False_eq_True)
    then show ?thesis using None by simp
  qed
qed

lemma getstring_printed:
  assumes "keys_ok secs" and "sec \<in> set secs" and "length (fst sec) + length k < 1000"
  shows "iniparser_getstring (Some (printed_dict secs)) (lowered (fst sec) @ '':'' @ k) def =
    (case find_key (snd sec) k of None \<Rightarrow> def | Some v \<Rightarrow> Str v)"
proof -
  have "to_lower (CHR '':'') = CHR '':''" by code_simp
  then have "\<And>r. lowered (CHR '':'' # r) = CHR '':'' # lowered r" by (simp add: lowered_def)
  moreover have "lowered (lowered (fst sec)) = lowered (fst sec)"
  proof -
    have "list_all (\<lambda>c. to_lower (to_lower c) = to_lower c) (Enum.enum :: char list)" by code_simp
    then show ?thesis by (simp add: lowered_def list_all_iff enum_UNIV)
  qed
  moreover have "length (lowered (fst sec)) = length (fst sec)" by (simp add: lowered_def)
  ultimately have low: "lowered (take 1024 (lowered (fst sec) @ '':'' @ k)) = lowered (fst sec) @ '':'' @ lowered k"
    using assms(3) by (simp add: lowered_append)
  show ?thesis unfolding printed_getstring low lookup_printed[OF assms(1,2)] by (simp split: option.split)
qed

lemma get_printed:
  assumes "keys_ok secs" and "sec \<in> set secs" and "length (fst sec) + length k < 250"
  shows "get_value (Some (printed_dict secs)) (lowered (fst sec)) (CHR '':'' # k) =
    Inr (case find_key (snd sec) k of None \<Rightarrow> [] | Some v \<Rightarrow> v)"
proof -
  have "length (lowered (fst sec)) = length (fst sec)" by (simp add: lowered_def)
  then show ?thesis
    using getstring_printed[OF assms(1,2), of k "Str []"] assms(3)
    by (simp add: get_value_def sec_and_key_def guardE_def split: option.split)
qed

lemma rule_name_short: "written_ok w \<Longrightarrow> length (rule_name w) \<le> 14"
  using length_fmt_u_31[of "wr_number w"] by (simp add: rule_name_def written_ok_def)

lemma get_written_value:
  assumes "keys_ok secs" and "written_section w \<in> set secs" and "written_ok w" and "(k, v) \<in> set (written_keys w)"
  shows "get_value (Some (printed_dict secs)) (rule_name w) ('':'' @ k) = Inr v"
proof -
  have "distinct (map fst (map (\<lambda>(k, v). (lowered k, v)) (written_keys w)))"
    using lowered_keys[of w] by (simp add: comp_def split_beta)
  moreover have "(lowered k, v) \<in> set (map (\<lambda>(k, v). (lowered k, v)) (written_keys w))" using assms(4) by force
  ultimately have "find_key (written_keys w) k = Some v" unfolding find_key_def by (rule map_of_is_SomeI)
  moreover have "k \<in> set (map fst (written_keys w))" using assms(4) by force
  then have "length (fst (written_section w)) + length k < 250"
    using rule_name_short[OF assms(3)] by (auto simp: written_keys_def written_section_def rule_name_def)
  ultimately show ?thesis
    using get_printed[OF assms(1,2), of k] by (simp add: lowered_section) (simp add: written_section_def)
qed

lemma no_second_match:
  assumes "\<And>sec. sec \<in> set secs \<Longrightarrow> lowered (fst sec) \<noteq> rule_name w @ ''match2''" and "written_ok w"
  shows "get_value (Some (printed_dict secs)) (rule_name w) ''MATCH2'' = Inr []"
proof -
  let ?es = "concat (map section_entries secs)"
  let ?k = "rule_name w @ ''match2''"
  have "?k \<noteq> fst e" if e: "e \<in> set ?es" for e
  proof
    assume k: "?k = fst e"
    obtain sec where sec: "sec \<in> set secs" "e \<in> set (section_entries sec)" using e by auto
    have "CHR '':'' \<notin> set (fst e)" unfolding k[symmetric] using rule_name_no_colon by simp
    then have "fst e = lowered (fst sec)" using sec(2) unfolding section_entries_def by auto
    then show False using assms(1)[OF sec(1)] k by simp
  qed
  then have "?k \<notin> fst ` set (rev ?es)" by auto
  then have m: "map_of (rev ?es) ?k = None" by (simp only: map_of_eq_None_iff not_False_eq_True)
  have "lowered ''MATCH2'' = ''match2''" by code_simp
  then have "lowered (take 1024 (rule_name w @ ''MATCH2'')) = ?k"
    using rule_name_short[OF assms(2)] by (simp add: lowered_append lowered_name take_all)
  then have "iniparser_getstring (Some (printed_dict secs)) (rule_name w @ ''MATCH2'') (Str []) = Str []"
    unfolding printed_getstring by (simp only: m option.case)
  then show ?thesis
    using rule_name_short[OF assms(2)] by (simp add: get_value_def sec_and_key_def guardE_def)
qed

lemma rule_name_match: "rule_name w' \<noteq> rule_name w @ ''match2''"
proof
  assume "rule_name w' = rule_name w @ ''match2''"
  then have "fmt_u (wr_number w) @ ''match2'' = fmt_u (wr_number w')" by (simp add: rule_name_def)
  moreover have "CHR ''m'' \<in> set (fmt_u (wr_number w) @ ''match2'')" by simp
  ultimately show False using digits_not[of "CHR ''m''" "wr_number w'"] by simp
qed

lemma load_written_section:
  assumes "keys_ok secs" and "written_section w \<in> set secs" and "written_ok w"
    and "\<And>sec. sec \<in> set secs \<Longrightarrow> lowered (fst sec) \<noteq> rule_name w @ ''match2''"
  shows "load_rule_section junk (Some (printed_dict secs)) (rule_name w) = Inr (rule_meaning w)"
proof -
  let ?d = "printed_dict secs"
  note get = get_written_value[OF assms(1-3)]
  have v: "get_value (Some ?d) (rule_name w) '':USAGE'' = Inr (fmt_u (wr_usage w))"
    "get_value (Some ?d) (rule_name w) '':APDUIN'' = Inr (fmt_u (wr_apduin w))"
    "get_value (Some ?d) (rule_name w) '':DELAY'' = Inr (fmt_u (wr_delay w))"
    "get_value (Some ?d) (rule_name w) '':MATCH1'' = Inr (print_match (wr_history w) (wr_in w) (wr_match w))"
    "get_value (Some ?d) (rule_name w) '':ACTION'' = Inr (print_action (wr_out w) (wr_action w))"
    using get[of "''USAGE''"] get[of "''APDUIN''"] get[of "''DELAY''"] get[of "''MATCH1''"] get[of "''ACTION''"]
    by (simp_all add: written_keys_def)
  have bounds: "int n < 2 ^ 31" if "n \<in> {wr_usage w, wr_apduin w, wr_delay w, wr_history w, wr_in w, wr_out w}" for n
  proof -
    have "n < 2 ^ 31" using assms(3) that by (auto simp: written_ok_def)
    then have "int n < int (2 ^ 31)" by (simp only: of_nat_less_iff)
    then show ?thesis by simp
  qed
  have num: "strtol 10 (fmt_u n) = int n" if "n \<in> {wr_usage w, wr_apduin w, wr_delay w}" for n
    using strtol_decimal(1)[of n] bounds[of n] that by (auto simp: clamp_long_def)
  have ints: "opt_int (Some ?d) (rule_name w) '':USAGE'' x = Inr (int (wr_usage w))"
    "opt_int (Some ?d) (rule_name w) '':APDUIN'' x = Inr (int (wr_apduin w))"
    "opt_int (Some ?d) (rule_name w) '':DELAY'' x = Inr (int (wr_delay w))" for x
    using num by (simp_all add: opt_frames[OF v(1)] opt_frames[OF v(2)] opt_frames[OF v(3)])
  have hdr: "\<forall>e \<in> set (wr_match w). fst e \<in> set header_names" "\<forall>e \<in> set (wr_action w). fst e \<in> set action_names"
    using assms(3) by (auto simp: written_ok_def list_all_iff)
  obtain sr where sr: "load_match_value (print_match (wr_history w) (wr_in w) (wr_match w)) (APDU_SINGLE_RULE_new junk, []) =
      Inr (sr, map (elem_rule (wr_history w) (wr_in w)) (wr_match w))"
    using load_match_value_print[OF hdr(1) bounds[of "wr_history w"] bounds[of "wr_in w"], of "[]" "APDU_SINGLE_RULE_new junk" "[]"]
    by auto
  have two: "fmt_u (1 + 1) = ''2''" by code_simp
  have ne: "print_match t i es \<noteq> []" "print_action i es \<noteq> []" for t i es
    by (simp_all add: print_match_def print_action_def)
  have "match_loop (Suc (Suc n)) (Some ?d) (rule_name w) 1 (print_match (wr_history w) (wr_in w) (wr_match w))
      (APDU_SINGLE_RULE_new junk, []) = Inr (sr, map (elem_rule (wr_history w) (wr_in w)) (wr_match w))" for n
    using no_second_match[OF assms(4,3)] two by (simp only: match_loop.simps ne sr bindE_simps, simp)
  then show ?thesis
    using load_action_value_print[OF hdr(2) bounds[of "wr_out w"], of "rule_name w" sr] ne
    by (simp add: load_rule_section_def ints v rule_meaning_def)
qed

lemma load_written_rule:
  assumes "keys_ok secs" and "written_section w \<in> set secs" and "written_ok w"
    and "\<And>sec. sec \<in> set secs \<Longrightarrow> lowered (fst sec) \<noteq> rule_name w @ ''match2''"
  shows "LoadRule junk (Some (printed_dict secs)) (rule_name w) s = Inr (s\<lparr>rulesList := rulesList s @ [rule_meaning w]\<rparr>)"
proof -
  have "map to_upper (CHR ''r'' # CHR ''u'' # xs) = CHR ''R'' # CHR ''U'' # map to_upper xs" for xs
    using upper_letters by simp
  then have "\<not> same_name (rule_name w) ''WINSCARD''" "\<not> same_name (rule_name w) ''REMOTE''"
    by (simp_all add: same_name_eq rule_name_def upper_letters)
  moreover have "map to_upper (take 4 (rule_name w)) = map to_upper ''RULE''"
    unfolding rule_name_def by (simp add: upper_letters)
  then have "same_name (take 4 (rule_name w)) ''RULE''" by (simp only: same_name_eq)
  ultimately show ?thesis by (simp add: LoadRule_def load_written_section[OF assms])
qed

lemma load_sections_printed:
  assumes "list_all section_ok secs" and "keys_ok secs"
  shows "load_sections junk (iniparser_load (Some (print_ini secs))) s =
    foldE (LoadRule junk (Some (printed_dict secs))) (map (lowered \<circ> fst) secs) s"
proof -
  have loads: "iniparser_load (Some (print_ini secs)) = Some (printed_dict secs)"
    using print_ini_loads[OF assms(1)] unfolding printed_dict_def .
  have "filled (map fst (concat (map section_entries secs))) (printed_dict secs)"
    using filled_store_all[OF filled_new, of _ 0] distinct_entries[OF assms(2)] unfolding printed_dict_def by simp
  from load_sections_filled[OF this, of junk s] section_names_entries[OF assms(2)] show ?thesis unfolding loads by simp
qed

lemma load_written_file:
  assumes "distinct (map wr_number ws)" and "list_all written_ok ws"
  shows "load_sections junk (iniparser_load (Some (print_ini (map written_section ws)))) s =
    Inr (s\<lparr>rulesList := rulesList s @ map rule_meaning ws\<rparr>)"
proof -
  let ?secs = "map written_section ws"
  note ok = written_keys_ok[OF assms(1)]
  have "foldE (LoadRule junk (Some (printed_dict ?secs))) (map rule_name us) s =
      Inr (s\<lparr>rulesList := rulesList s @ map rule_meaning us\<rparr>)" if "set us \<subseteq> set ws" for us
    using that
  proof (induction us arbitrary: s)
    case (Cons u us)
    have "LoadRule junk (Some (printed_dict ?secs)) (rule_name u) s = Inr (s\<lparr>rulesList := rulesList s @ [rule_meaning u]\<rparr>)"
      using Cons.prems assms(2) rule_name_match
      by (intro load_written_rule[OF ok]) (auto simp: list_all_iff lowered_section)
    then show ?case using Cons.IH[of "s\<lparr>rulesList := rulesList s @ [rule_meaning u]\<rparr>"] Cons.prems by simp
  qed simp
  moreover have "list_all section_ok ?secs" using assms(2) written_section_ok by (auto simp: list_all_iff)
  ultimately show ?thesis using load_sections_printed[OF _ ok, of junk s] by (simp add: comp_def lowered_section)
qed

text \<open>The three parts of the state a file can change.\<close>

type_synonym file_conf = "WINSCARD_CONFIG \<times> REMOTE_CONFIG \<times> APDU_RULE list"

definition file_conf :: "app \<Rightarrow> file_conf" where
  "file_conf s = (m_winscardConfig s, m_remoteConfig s, rulesList s)"

definition with_conf :: "file_conf \<Rightarrow> app \<Rightarrow> app" where
  "with_conf x s = s\<lparr>m_winscardConfig := fst x, m_remoteConfig := fst (snd x), rulesList := snd (snd x)\<rparr>"

text \<open>The environment and the network.\<close>

definition outside ::
    "app \<Rightarrow> environment \<times> conn_event list \<times> recv_event list \<times> string list \<times> (string \<times> 16 word) list \<times> sockid list \<times> sockid" where
  "outside s = (w_env s, w_conns s, w_rx s, w_tx s, w_dialed s, w_live s, w_nextsock s)"

text \<open>
  Loading a file whose sections turn these parts into \<open>x\<close>: around that, \<open>LoadRules\<close> only renames the log
  files, switches the rules on and notes whether there are instructions.
\<close>

lemma LoadRules_content:
  assumes "file_text (w_env s) RULE_FILE = Some content"
    and load: "\<And>u. file_conf u = file_conf s \<Longrightarrow> load_sections junk (iniparser_load (Some content)) u = Inr (with_conf x u)"
  shows "\<exists>t b. LoadRules junk s = (Inr STAT_OK, t) \<and> m_bRulesActive t \<and>
    file_conf t = ((fst x)\<lparr>bLOG_WRITE_DESCRIPTION := b\<rparr>, snd x) \<and> apduInList t = apduInList s \<and>
    apduOutList t = apduOutList s \<and> remoteReadersMap t = remoteReadersMap s \<and> outside t = outside s"
proof -
  let ?kept = "\<lambda>u. apduInList u = apduInList s \<and> apduOutList u = apduOutList s \<and> remoteReadersMap u = remoteReadersMap s \<and>
    outside u = outside s"
  let ?loaded = "\<lambda>u b. m_bRulesActive u \<and> file_conf u = ((fst x)\<lparr>bLOG_WRITE_DESCRIPTION := b\<rparr>, snd x) \<and> ?kept u"
  let ?s1 = "(snd (getCurrentTimeString s))\<lparr>WINSCARD_LOG := WINSCARD_LOG s @ ''_'' @ fst (getCurrentTimeString s) @ ''.txt'',
      WINSCARD_RULES_LOG := WINSCARD_RULES_LOG s @ ''_'' @ fst (getCurrentTimeString s) @ ''.txt''\<rparr>"
  obtain u where u: "find_rules_file ?s1 = (Inr (Some content, Some []), u)" "file_conf u = file_conf s" "?kept u"
    using assms(1) by (simp add: file_conf_def outside_def find_rules_file_def try_open_def bindA_unfold getCurrentTimeString_def Let_def)
  let ?v = "(with_conf x u)\<lparr>m_bRulesActive := True\<rparr>"
  have v: "use_rules_file junk (Some content) u = (Inr (), ?v)"
    by (simp add: use_rules_file_def load[OF u(2)])
  have "?loaded ?v (bLOG_WRITE_DESCRIPTION (fst x))" using u(3) by (simp add: file_conf_def with_conf_def outside_def)
  then have "\<exists>w. set_log_paths (Some []) ?v = (Inr (), w) \<and> ?loaded w (bLOG_WRITE_DESCRIPTION (fst x))"
    by (simp add: set_log_paths_def bindA_unfold file_conf_def outside_def)
  then obtain w where w: "set_log_paths (Some []) ?v = (Inr (), w)" "?loaded w (bLOG_WRITE_DESCRIPTION (fst x))" by blast
  have "\<exists>y b. load_instructions w = (Inr (), y) \<and> ?loaded y b"
  proof (cases "file_text (w_env w) (INSTRUCTION_FILE w)")
    case None
    then show ?thesis using w(2) by (intro exI[of _ w] exI[of _ "bLOG_WRITE_DESCRIPTION (fst x)"]) (simp add: load_instructions_def bindA_unfold)
  next
    case (Some i)
    then show ?thesis using w(2) by (intro exI[of _ "snd (load_instructions w)"] exI[of _ True]) (cases x, auto simp: load_instructions_def bindA_unfold file_conf_def outside_def)
  qed
  then obtain y b where y: "load_instructions w = (Inr (), y)" "?loaded y b" by blast
  have "LoadRules junk s = (Inr STAT_OK, LogDebugString (''Finalizing LoadRules with status '' @ fmt_d STAT_OK @ [NL]) True y)"
    using u(1) v w(1) y(1)
    by (simp add: LoadRules_def bindA_unfold bindA_def[of "\<lambda>s. let (t, s1) = getCurrentTimeString s in (Inr t, s1)"] split_beta Let_def getCurrentTimeString_def)
  then show ?thesis using y(2) by (intro exI[of _ "LogDebugString _ True y"] exI[of _ b]) (simp add: file_conf_def outside_def)
qed

text \<open>What loading a file of rules leaves alone and transmission depends on.\<close>

definition transmit_part :: "app \<Rightarrow> bool \<times> bool \<times> bool \<times> bool \<times> byte list list \<times> byte list list \<times> (handle \<rightharpoonup> string)" where
  "transmit_part s = (bMODIFY_APDU_BY_RULES (m_winscardConfig s), bAUTO_REQUEST_DATA (m_winscardConfig s),
     bFORCE_APDU_NONZERO_INPUT_DATA (m_winscardConfig s), bLOG_EXCHANGED_APDU (m_winscardConfig s),
     apduInList s, apduOutList s, remoteReadersMap s)"

lemma load_written_rules_file:
  assumes "file_text (w_env s) RULE_FILE = Some (print_ini (map written_section ws))"
    and "distinct (map wr_number ws)" and "list_all written_ok ws"
  shows "\<exists>t. LoadRules junk s = (Inr STAT_OK, t) \<and> rulesList t = rulesList s @ map rule_meaning ws \<and>
    m_bRulesActive t \<and> m_remoteConfig t = m_remoteConfig s \<and> transmit_part t = transmit_part s"
proof -
  let ?x = "(m_winscardConfig s, m_remoteConfig s, rulesList s @ map rule_meaning ws)"
  have "load_sections junk (iniparser_load (Some (print_ini (map written_section ws)))) u = Inr (with_conf ?x u)"
    if "file_conf u = file_conf s" for u
    using that by (simp add: load_written_file[OF assms(2,3)] with_conf_def file_conf_def)
  from LoadRules_content[OF assms(1) this] show ?thesis
    by (auto simp: file_conf_def transmit_part_def)
qed

subsection \<open>Properties\<close>

text \<open>
  The rules in memory are the rules of the file, in its order. When the rules file in the local
  directory consists of written rules - numbered sections with usage, direction, delay, one match
  value and an action over the header elements - \<open>LoadRules\<close> succeeds, switches the rules on and
  appends exactly the rules these sections mean, in the order of the file; the settings for the
  proxy stay as they were.
\<close>

theorem written_rules_loaded:
  assumes "file_text (w_env s) RULE_FILE = Some (print_ini (map written_section ws))"
    and "distinct (map wr_number ws)" and "list_all written_ok ws"
  shows "\<exists>t. LoadRules junk s = (Inr STAT_OK, t) \<and> rulesList t = rulesList s @ map rule_meaning ws \<and>
    m_bRulesActive t \<and> m_remoteConfig t = m_remoteConfig s"
  using load_written_rules_file[OF assms] by blast

text \<open>Two rules: the class of a \<open>SELECT\<close> becomes 80, and the answer of the next \<open>VERIFY\<close> begins with 90 00.\<close>

definition example_rules :: "written_rule list" where
  "example_rules =
     [\<lparr>wr_number = 1, wr_usage = 1, wr_apduin = 1, wr_delay = 0, wr_history = 0, wr_in = 1,
       wr_match = [((''CLA'', 0), 0x00), ((''INS'', 1), 0xA4)], wr_out = 1, wr_action = [((''CLA'', 0), 0x80)]\<rparr>,
      \<lparr>wr_number = 12, wr_usage = 1, wr_apduin = 0, wr_delay = 100, wr_history = 0, wr_in = 1,
       wr_match = [((''INS'', 1), 0x20)], wr_out = 0, wr_action = [((''CLA'', 0), 0x90), ((''INS'', 1), 0x00)]\<rparr>]"

theorem written_rules_loaded_witness:
  "\<exists>t. LoadRules 7 (quiet_app\<lparr>w_env := quiet_env\<lparr>file_text := [RULE_FILE \<mapsto> print_ini (map written_section example_rules)]\<rparr>\<rparr>) =
      (Inr STAT_OK, t) \<and> rulesList t = map rule_meaning example_rules \<and> m_bRulesActive t"
proof -
  let ?s = "quiet_app\<lparr>w_env := quiet_env\<lparr>file_text := [RULE_FILE \<mapsto> print_ini (map written_section example_rules)]\<rparr>\<rparr>"
  have s: "file_text (w_env ?s) RULE_FILE = Some (print_ini (map written_section example_rules))" "rulesList ?s = []"
    by (simp_all add: quiet_app_def app_init_def)
  have ok: "distinct (map wr_number example_rules)" "list_all written_ok example_rules"
    by (simp_all add: example_rules_def written_ok_def header_names_def action_names_def elem_defs)
  obtain t where "LoadRules 7 ?s = (Inr STAT_OK, t)" "rulesList t = rulesList ?s @ map rule_meaning example_rules" "m_bRulesActive t"
    using written_rules_loaded[OF s(1) ok, of 7] by blast
  then show ?thesis unfolding s(2) append_Nil by blast
qed

end
