(* ===== verification/Config_File.thy ===== *)
theory Config_File
  imports Rules_File
begin

text \<open>
  A complete configuration file: settings of the library (section \<open>WINSCARD\<close>), settings of the proxy
  (section \<open>REMOTE\<close>) and rules. A file is described by what its author wants (\<open>file_part\<close>), printed as
  text, and its meaning is the effect of the single settings on the configuration; \<open>LoadRules\<close>, reading
  the text back, has exactly this effect.
\<close>

subsection \<open>Settings and their meaning\<close>

datatype winscard_setting =
    Auto_Request_Data bool
  | Force_Connect_Shared_Mode bool
  | Force_Nonzero_Input_Data bool
  | Log_Exchanged_Apdu bool
  | Log_Base_Path string
  | Modify_Apdu_By_Rules bool
  | Reader_Ordered_First string
  | Virtual_Readers "string list"

datatype remote_setting =
    Redirect bool
  | New_Socket_Per_Command bool
  | Reader_Prefix string
  | Proxy_IP string
  | Proxy_Port string
  | Measure_Apdu "byte list"
  | Measure_Byte_Counter nat
  | Measure_Byte_Delay nat
  | Read_Ratio nat
  | Num_Samples nat

definition flag :: "bool \<Rightarrow> string" where
  "flag b = (if b then ''1'' else ''0'')"

text \<open>The names of virtual readers, with \<open>|\<close> between them.\<close>

fun join_bar :: "string list \<Rightarrow> string" where
  "join_bar [] = []"
| "join_bar [r] = r"
| "join_bar (r # rs) = r @ CHR ''|'' # join_bar rs"

fun winscard_line :: "winscard_setting \<Rightarrow> string \<times> string" where
  "winscard_line (Auto_Request_Data b) = (''AUTO_REQUEST_DATA'', flag b)"
| "winscard_line (Force_Connect_Shared_Mode b) = (''FORCE_CONNECT_SHARED_MODE'', flag b)"
| "winscard_line (Force_Nonzero_Input_Data b) = (''FORCE_APDU_NONZERO_INPUT_DATA'', flag b)"
| "winscard_line (Log_Exchanged_Apdu b) = (''LOG_EXCHANGED_APDU'', flag b)"
| "winscard_line (Log_Base_Path p) = (''LOG_BASE_PATH'', p)"
| "winscard_line (Modify_Apdu_By_Rules b) = (''MODIFY_APDU_BY_RULES'', flag b)"
| "winscard_line (Reader_Ordered_First r) = (''READER_ORDERED_FIRST'', r)"
| "winscard_line (Virtual_Readers rs) = (''VIRTUAL_READERS'', join_bar rs)"

fun winscard_meaning :: "winscard_setting \<Rightarrow> WINSCARD_CONFIG \<Rightarrow> WINSCARD_CONFIG" where
  "winscard_meaning (Auto_Request_Data b) c = c\<lparr>bAUTO_REQUEST_DATA := b\<rparr>"
| "winscard_meaning (Force_Connect_Shared_Mode b) c = c\<lparr>bFORCE_CONNECT_SHARED_MODE := b\<rparr>"
| "winscard_meaning (Force_Nonzero_Input_Data b) c = c\<lparr>bFORCE_APDU_NONZERO_INPUT_DATA := b\<rparr>"
| "winscard_meaning (Log_Exchanged_Apdu b) c = c\<lparr>bLOG_EXCHANGED_APDU := b\<rparr>"
| "winscard_meaning (Log_Base_Path p) c = c\<lparr>sLOG_BASE_PATH := p\<rparr>"
| "winscard_meaning (Modify_Apdu_By_Rules b) c = c\<lparr>bMODIFY_APDU_BY_RULES := b\<rparr>"
| "winscard_meaning (Reader_Ordered_First r) c = c\<lparr>sREADER_ORDERED_FIRST := r\<rparr>"
| "winscard_meaning (Virtual_Readers rs) c =
     c\<lparr>sVIRTUAL_READERS_STATIC := join_bar rs, listVIRTUAL_READERS_STATIC := rs, listVIRTUAL_READERS := rs\<rparr>"

fun remote_line :: "remote_setting \<Rightarrow> string \<times> string" where
  "remote_line (Redirect b) = (''REDIRECT'', flag b)"
| "remote_line (New_Socket_Per_Command b) = (''NEW_SOCKET_PER_COMMAND'', flag b)"
| "remote_line (Reader_Prefix p) = (''REMOTE_READER_PREFIX'', p)"
| "remote_line (Proxy_IP a) = (''IP'', a)"
| "remote_line (Proxy_Port p) = (''PORT'', p)"
| "remote_line (Measure_Apdu bs) = (''MEASURE_APDU'', BYTE_ConvertFromArrayToHexString bs True)"
| "remote_line (Measure_Byte_Counter n) = (''MEASURE_BYTE_COUNTER'', fmt_u n)"
| "remote_line (Measure_Byte_Delay n) = (''MEASURE_BYTE_DELAY'', fmt_u n)"
| "remote_line (Read_Ratio n) = (''READ_RATIO'', fmt_u n)"
| "remote_line (Num_Samples n) = (''NUM_SAMPLES'', fmt_u n)"

fun remote_meaning :: "remote_setting \<Rightarrow> REMOTE_CONFIG \<Rightarrow> REMOTE_CONFIG" where
  "remote_meaning (Redirect b) c = c\<lparr>bRedirect := b\<rparr>"
| "remote_meaning (New_Socket_Per_Command b) c = c\<lparr>bOpenSocketForEveryCommand := b\<rparr>"
| "remote_meaning (Reader_Prefix p) c = c\<lparr>remoteReaderPrefix := p\<rparr>"
| "remote_meaning (Proxy_IP a) c = c\<lparr>rc_IP := a\<rparr>"
| "remote_meaning (Proxy_Port p) c = c\<lparr>rc_port := p\<rparr>"
| "remote_meaning (Measure_Apdu bs) c = c\<lparr>measureApdu := blit (measureApdu c) 0 bs, measureApduLen := of_nat (length bs)\<rparr>"
| "remote_meaning (Measure_Byte_Counter n) c = c\<lparr>measureApduByteCounter := int n\<rparr>"
| "remote_meaning (Measure_Byte_Delay n) c = c\<lparr>measureApduByteDelay := int n\<rparr>"
| "remote_meaning (Read_Ratio n) c = c\<lparr>readRatio := int n\<rparr>"
| "remote_meaning (Num_Samples n) c = c\<lparr>numSamples := of_nat n\<rparr>"

fun winscard_setting_ok :: "winscard_setting \<Rightarrow> bool" where
  "winscard_setting_ok (Virtual_Readers rs) \<longleftrightarrow> rs \<noteq> [] \<and> list_all (\<lambda>r. r \<noteq> [] \<and> CHR ''|'' \<notin> set r) rs"
| "winscard_setting_ok x \<longleftrightarrow> snd (winscard_line x) \<noteq> []"

fun remote_setting_ok :: "remote_setting \<Rightarrow> bool" where
  "remote_setting_ok (Measure_Apdu bs) \<longleftrightarrow> bs \<noteq> [] \<and> length bs \<le> 255"
| "remote_setting_ok (Measure_Byte_Counter n) \<longleftrightarrow> n < 2 ^ 31"
| "remote_setting_ok (Measure_Byte_Delay n) \<longleftrightarrow> n < 2 ^ 31"
| "remote_setting_ok (Read_Ratio n) \<longleftrightarrow> n < 2 ^ 31"
| "remote_setting_ok (Num_Samples n) \<longleftrightarrow> n < 2 ^ 31"
| "remote_setting_ok x \<longleftrightarrow> snd (remote_line x) \<noteq> []"

subsection \<open>What the loader makes of a section\<close>

text \<open>The three ways of reading a member, from the keys of the section.\<close>

definition bool_at :: "(string \<times> string) list \<Rightarrow> string \<Rightarrow> bool \<Rightarrow> bool" where
  "bool_at kvs k old = (case find_key kvs k of
     Some (c # _) \<Rightarrow> if c \<in> set ''yY1tT'' then True else if c \<in> set ''nN0fF'' then False else old
   | _ \<Rightarrow> old)"

definition string_at :: "(string \<times> string) list \<Rightarrow> string \<Rightarrow> string \<Rightarrow> string" where
  "string_at kvs k old = (case find_key kvs k of None \<Rightarrow> old | Some v \<Rightarrow> if v \<noteq> [] then v else old)"

definition int_at :: "(string \<times> string) list \<Rightarrow> string \<Rightarrow> int \<Rightarrow> int" where
  "int_at kvs k old = (case find_key kvs k of None \<Rightarrow> old | Some v \<Rightarrow> if v \<noteq> [] then strtol 10 v else old)"

lemma opt_bool_printed:
  assumes "keys_ok secs" and "sec \<in> set secs" and "length (fst sec) + length k < 250"
  shows "opt_bool (Some (printed_dict secs)) (lowered (fst sec)) (CHR '':'' # k) old = Inr (bool_at (snd sec) k old)"
proof -
  have "length (lowered (fst sec)) = length (fst sec)" by (simp add: lowered_def)
  then have "opt_bool (Some (printed_dict secs)) (lowered (fst sec)) (CHR '':'' # k) old =
      bindE (case find_key (snd sec) k of None \<Rightarrow> Inr (2::int) | Some v \<Rightarrow> (case v of [] \<Rightarrow> Inr 2 | c # _ \<Rightarrow>
          Inr (if c = CHR ''y'' \<or> c = CHR ''Y'' \<or> c = CHR ''1'' \<or> c = CHR ''t'' \<or> c = CHR ''T'' then 1
               else if c = CHR ''n'' \<or> c = CHR ''N'' \<or> c = CHR ''0'' \<or> c = CHR ''f'' \<or> c = CHR ''F'' then 0 else 2)))
        (\<lambda>v. Inr (if v \<noteq> 2 then v \<noteq> 0 else old))"
    using getstring_printed[OF assms(1,2), of k INI_INVALID_KEY] assms(3)
    by (simp add: opt_bool_def sec_and_key_def guardE_def iniparser_getboolean_def split: option.split list.split)
  then show ?thesis by (auto simp: bool_at_def split: option.split list.split)
qed

lemma opt_string_printed:
  assumes "keys_ok secs" and "sec \<in> set secs" and "length (fst sec) + length k < 250"
  shows "opt_string (Some (printed_dict secs)) (lowered (fst sec)) (CHR '':'' # k) old = Inr (string_at (snd sec) k old)"
  using get_printed[OF assms] by (simp add: opt_string_def string_at_def split: option.split)

lemma opt_int_printed:
  assumes "keys_ok secs" and "sec \<in> set secs" and "length (fst sec) + length k < 250"
  shows "opt_int (Some (printed_dict secs)) (lowered (fst sec)) (CHR '':'' # k) old = Inr (int_at (snd sec) k old)"
  using get_printed[OF assms] by (simp add: opt_int_def int_at_def split: option.split)

text \<open>A reader list ends inside the array its terminator closes.\<close>

lemma parse_loop_ends:
  assumes "length mem = Suc rem" and "last mem \<noteq> sep"
  shows "\<exists>r. parse_loop sep rem mem item out = Inr r"
  using assms
proof (induction sep rem mem item out rule: parse_loop.induct)
  case (2 sep rem c mem item out)
  have "mem = [] \<Longrightarrow> c \<noteq> sep" using 2 by auto
  moreover have "mem \<noteq> [] \<Longrightarrow> last mem \<noteq> sep" using 2 by auto
  ultimately show ?case using 2 by (cases mem) auto
qed simp

definition readers_in :: "string \<Rightarrow> string list" where
  "readers_in v = (case String_ParseSeparatedArray (v @ [CHR 0x00]) (length v) (CHR ''|'') [] of Inr rs \<Rightarrow> rs | Inl e \<Rightarrow> [])"

lemma readers_parse:
  "String_ParseSeparatedArray (v @ [CHR 0x00]) (length v) (CHR ''|'') [] = Inr (readers_in v)"
proof -
  obtain i rs where "parse_loop (CHR ''|'') (length v) (v @ [CHR 0x00]) [] [] = Inr (i, rs)"
    using parse_loop_ends[of "v @ [CHR 0x00]" "length v" "CHR ''|''" "[]" "[]"] by auto
  then have "\<exists>rs. String_ParseSeparatedArray (v @ [CHR 0x00]) (length v) (CHR ''|'') [] = Inr rs"
    by (simp add: String_ParseSeparatedArray_def)
  then show ?thesis by (auto simp: readers_in_def)
qed

lemma parse_loop_join:
  assumes "list_all (\<lambda>r. r \<noteq> [] \<and> CHR ''|'' \<notin> set r) (r # rs)" and "rem = length (join_bar (r # rs))"
  shows "\<exists>item. item \<noteq> [] \<and> parse_loop (CHR ''|'') rem (join_bar (r # rs) @ [CHR 0x00]) [] out = Inr (item, out @ butlast (r # rs)) \<and>
    item = last (r # rs)"
  using assms
proof (induction rs arbitrary: r rem out)
  case Nil
  then show ?case using parse_loop_item[of "CHR ''|''" r rem "[CHR 0x00]" "[]" out] by simp
next
  case (Cons r' rs)
  let ?rest = "join_bar (r' # rs)"
  obtain d ds where d: "?rest = d # ds" "d \<noteq> CHR ''|''" using Cons.prems(1) by (cases rs; cases r') auto
  have "parse_loop (CHR ''|'') rem (r @ CHR ''|'' # ?rest @ [CHR 0x00]) [] out =
      parse_loop (CHR ''|'') (rem - length r) (CHR ''|'' # ?rest @ [CHR 0x00]) r out"
    using parse_loop_item[of "CHR ''|''" r rem "CHR ''|'' # ?rest @ [CHR 0x00]" "[]" out] Cons.prems by simp
  also have "\<dots> = parse_loop (CHR ''|'') (length ?rest) (?rest @ [CHR 0x00]) [] (out @ [r])"
    using parse_loop_sep[of "rem - length r" d "CHR ''|''" "ds @ [CHR 0x00]" r out] d Cons.prems by simp
  finally show ?case using Cons.IH[of r' "length ?rest" "out @ [r]"] Cons.prems(1) by simp
qed

lemma readers_in_join:
  assumes "rs \<noteq> []" and "list_all (\<lambda>r. r \<noteq> [] \<and> CHR ''|'' \<notin> set r) rs"
  shows "readers_in (join_bar rs) = rs"
proof -
  obtain r rs' where rs: "rs = r # rs'" using assms(1) by (cases rs) auto
  have "length (join_bar rs) > 0" using assms(2) by (cases rs'; cases r) (auto simp: rs)
  then show ?thesis
    using parse_loop_join[of r rs' "length (join_bar rs)" "[]"] assms(2)
    by (auto simp: readers_in_def String_ParseSeparatedArray_def rs simp del: last.simps butlast.simps)
qed

text \<open>What the two sections make of the configuration.\<close>

definition winscard_at :: "(string \<times> string) list \<Rightarrow> WINSCARD_CONFIG \<Rightarrow> WINSCARD_CONFIG" where
  "winscard_at kvs c =
     (let v = string_at kvs ''VIRTUAL_READERS'' []
      in c\<lparr>bAUTO_REQUEST_DATA := bool_at kvs ''AUTO_REQUEST_DATA'' (bAUTO_REQUEST_DATA c),
           bFORCE_CONNECT_SHARED_MODE := bool_at kvs ''FORCE_CONNECT_SHARED_MODE'' (bFORCE_CONNECT_SHARED_MODE c),
           bFORCE_APDU_NONZERO_INPUT_DATA := bool_at kvs ''FORCE_APDU_NONZERO_INPUT_DATA'' (bFORCE_APDU_NONZERO_INPUT_DATA c),
           bLOG_EXCHANGED_APDU := bool_at kvs ''LOG_EXCHANGED_APDU'' (bLOG_EXCHANGED_APDU c),
           bMODIFY_APDU_BY_RULES := bool_at kvs ''MODIFY_APDU_BY_RULES'' (bMODIFY_APDU_BY_RULES c),
           sREADER_ORDERED_FIRST := string_at kvs ''READER_ORDERED_FIRST'' (sREADER_ORDERED_FIRST c),
           sVIRTUAL_READERS_STATIC := (if v = [] then sVIRTUAL_READERS_STATIC c else v),
           listVIRTUAL_READERS_STATIC := (if v = [] then listVIRTUAL_READERS_STATIC c else readers_in v),
           listVIRTUAL_READERS := (if v = [] then listVIRTUAL_READERS c else readers_in v),
           sLOG_BASE_PATH := string_at kvs ''LOG_BASE_PATH'' (sLOG_BASE_PATH c)\<rparr>)"

definition measured_at :: "(string \<times> string) list \<Rightarrow> REMOTE_CONFIG \<Rightarrow> REMOTE_CONFIG" where
  "measured_at kvs c =
     (let v = string_at kvs ''MEASURE_APDU'' []; bs = hex_pairs (compact_hex v)
      in if v = [] then c else c\<lparr>measureApdu := blit (measureApdu c) 0 bs, measureApduLen := of_nat (length bs)\<rparr>)"

definition remote_at :: "(string \<times> string) list \<Rightarrow> REMOTE_CONFIG \<Rightarrow> REMOTE_CONFIG" where
  "remote_at kvs c0 =
     (let c = measured_at kvs c0; n = string_at kvs ''NUM_SAMPLES'' []
      in c\<lparr>bRedirect := bool_at kvs ''REDIRECT'' (bRedirect c),
           bOpenSocketForEveryCommand := bool_at kvs ''NEW_SOCKET_PER_COMMAND'' (bOpenSocketForEveryCommand c),
           rc_IP := string_at kvs ''IP'' (rc_IP c), rc_port := string_at kvs ''PORT'' (rc_port c),
           remoteReaderPrefix := string_at kvs ''REMOTE_READER_PREFIX'' (remoteReaderPrefix c),
           measureApduByteCounter := int_at kvs ''MEASURE_BYTE_COUNTER'' (measureApduByteCounter c),
           measureApduByteDelay := int_at kvs ''MEASURE_BYTE_DELAY'' (measureApduByteDelay c),
           readRatio := int_at kvs ''READ_RATIO'' (readRatio c),
           numSamples := (if n = [] then numSamples c else word_of_int (strtol 10 n))\<rparr>)"

lemma get_string_at:
  assumes "keys_ok secs" and "sec \<in> set secs" and "length (fst sec) + length k < 250"
  shows "get_value (Some (printed_dict secs)) (lowered (fst sec)) (CHR '':'' # k) = Inr (string_at (snd sec) k [])"
  using get_printed[OF assms] by (simp add: string_at_def split: option.split)

lemma load_winscard_printed:
  assumes "keys_ok secs" and "sec \<in> set secs" and "length (fst sec) < 200"
  shows "load_winscard (Some (printed_dict secs)) (lowered (fst sec)) c = Inr (winscard_at (snd sec) c)"
  using assms(3)
  by (simp add: load_winscard_def opt_bool_printed[OF assms(1,2)] opt_string_printed[OF assms(1,2)]
      load_virtual_readers_def get_string_at[OF assms(1,2)] readers_parse winscard_at_def Let_def)

lemma measure_apdu_text:
  assumes "length bs \<le> 255" and "length (measureApdu c) = 255"
  shows "BYTE_ConvertFromHexStringToArray_BYTE (BYTE_ConvertFromArrayToHexString bs True) (measureApdu c) 255 =
    Inr (STAT_OK, blit (measureApdu c) 0 bs, of_nat (length bs))"
  using assms by (simp add: BYTE_ConvertFromHexStringToArray_BYTE_def BYTE_ConvertFromHexStringToArray_def Let_def guardE_def)

lemma load_remote_printed:
  assumes "keys_ok secs" and "sec \<in> set secs" and "length (fst sec) < 200" and "length (measureApdu c) = 255"
    and "string_at (snd sec) ''MEASURE_APDU'' [] \<noteq> [] \<Longrightarrow>
      \<exists>bs. string_at (snd sec) ''MEASURE_APDU'' [] = BYTE_ConvertFromArrayToHexString bs True \<and> length bs \<le> 255"
  shows "load_remote (Some (printed_dict secs)) (lowered (fst sec)) c = Inr (remote_at (snd sec) c)"
proof -
  have m: "load_measure_apdu (Some (printed_dict secs)) (lowered (fst sec)) c' = Inr (measured_at (snd sec) c')"
    if "length (measureApdu c') = 255" for c'
  proof (cases "string_at (snd sec) ''MEASURE_APDU'' [] = []")
    case True
    then show ?thesis using assms(3) by (simp add: load_measure_apdu_def get_string_at[OF assms(1,2)] measured_at_def)
  next
    case False
    then obtain bs where bs: "string_at (snd sec) ''MEASURE_APDU'' [] = BYTE_ConvertFromArrayToHexString bs True" "length bs \<le> 255"
      using assms(5) by blast
    from False show ?thesis using assms(3) measure_apdu_text[OF bs(2) that] bs(1)
      by (simp add: load_measure_apdu_def get_string_at[OF assms(1,2)] measured_at_def Let_def)
  qed
  show ?thesis
    using assms(3,4)
    by (simp add: load_remote_def opt_bool_printed[OF assms(1,2)] opt_string_printed[OF assms(1,2)] opt_int_printed[OF assms(1,2)]
        m get_string_at[OF assms(1,2)] remote_at_def measured_at_def Let_def)
qed

subsection \<open>The loader against the meaning\<close>

lemma find_key_Cons:
  "find_key (kv # kvs) k = (if lowered (fst kv) = lowered k then Some (snd kv) else find_key kvs k)"
  by (cases kv) (simp add: find_key_def)

lemma find_key_fresh: "lowered k \<notin> set (map (lowered \<circ> fst) kvs) \<Longrightarrow> find_key kvs k = None"
  by (force simp: find_key_def map_of_eq_None_iff)

lemma winscard_names:
  "map lowered [''AUTO_REQUEST_DATA'', ''FORCE_CONNECT_SHARED_MODE'', ''FORCE_APDU_NONZERO_INPUT_DATA'', ''LOG_EXCHANGED_APDU'',
     ''LOG_BASE_PATH'', ''MODIFY_APDU_BY_RULES'', ''READER_ORDERED_FIRST'', ''VIRTUAL_READERS''] =
   [''auto_request_data'', ''force_connect_shared_mode'', ''force_apdu_nonzero_input_data'', ''log_exchanged_apdu'',
     ''log_base_path'', ''modify_apdu_by_rules'', ''reader_ordered_first'', ''virtual_readers'']"
  by code_simp

lemma remote_names:
  "map lowered [''REDIRECT'', ''NEW_SOCKET_PER_COMMAND'', ''REMOTE_READER_PREFIX'', ''IP'', ''PORT'', ''MEASURE_APDU'',
     ''MEASURE_BYTE_COUNTER'', ''MEASURE_BYTE_DELAY'', ''READ_RATIO'', ''NUM_SAMPLES''] =
   [''redirect'', ''new_socket_per_command'', ''remote_reader_prefix'', ''ip'', ''port'', ''measure_apdu'',
     ''measure_byte_counter'', ''measure_byte_delay'', ''read_ratio'', ''num_samples'']"
  by code_simp

lemmas lowered_names = winscard_names[simplified] remote_names[simplified]

definition bool_of :: "string \<Rightarrow> bool \<Rightarrow> bool" where
  "bool_of v old = bool_at [([], v)] [] old"

lemma at_Cons:
  "bool_at ((k', v) # kvs) k old = (if lowered k' = lowered k then bool_of v old else bool_at kvs k old)"
  "string_at ((k', v) # kvs) k sold = (if lowered k' = lowered k then (if v \<noteq> [] then v else sold) else string_at kvs k sold)"
  "int_at ((k', v) # kvs) k iold = (if lowered k' = lowered k then (if v \<noteq> [] then strtol 10 v else iold) else int_at kvs k iold)"
  by (simp_all add: bool_of_def bool_at_def string_at_def int_at_def find_key_Cons)

lemma bool_of_flag: "bool_of (flag b) old = b"
  by (simp add: bool_of_def bool_at_def find_key_Cons flag_def)

lemma at_fresh:
  assumes "lowered k \<notin> set (map (lowered \<circ> fst) kvs)"
  shows "bool_at kvs k old = old" "string_at kvs k sold = sold" "int_at kvs k iold = iold"
  using find_key_fresh[OF assms] by (simp_all add: bool_at_def string_at_def int_at_def)

lemma winscard_at_Cons:
  assumes "winscard_setting_ok x" and "lowered (fst (winscard_line x)) \<notin> set (map (lowered \<circ> fst) kvs)"
  shows "winscard_at (winscard_line x # kvs) c = winscard_at kvs (winscard_meaning x c)"
proof -
  note f = at_fresh[OF assms(2)]
  show ?thesis
  proof (cases x)
    case (Virtual_Readers rs)
    have "join_bar rs \<noteq> []" using assms(1) Virtual_Readers by (cases rs rule: join_bar.cases) auto
    then show ?thesis
      using assms(1) f[unfolded Virtual_Readers] Virtual_Readers readers_in_join[of rs]
      by (simp add: winscard_at_def at_Cons lowered_names Let_def)
  qed (use f assms(1) in \<open>simp_all add: winscard_at_def at_Cons bool_of_flag lowered_names Let_def\<close>)
qed

lemma winscard_at_meaning:
  assumes "list_all winscard_setting_ok xs" and "distinct (map (lowered \<circ> fst) (map winscard_line xs))"
  shows "winscard_at (map winscard_line xs) c = fold winscard_meaning xs c"
  using assms
proof (induction xs arbitrary: c)
  case Nil
  then show ?case by (simp add: winscard_at_def bool_at_def string_at_def find_key_def Let_def)
next
  case (Cons x xs)
  then show ?case using winscard_at_Cons[of x "map winscard_line xs" c] by simp
qed

lemma hex_text_ne: "bs \<noteq> [] \<Longrightarrow> BYTE_ConvertFromArrayToHexString bs sp \<noteq> []"
  using hex_pairs_compact_encode[of bs sp] by (auto simp: compact_hex_eq)

lemma fmt_u_at: "n < 2 ^ 31 \<Longrightarrow> fmt_u n \<noteq> [] \<and> strtol 10 (fmt_u n) = int n"
proof -
  assume "n < 2 ^ 31"
  then have "int n < int (2 ^ 31)" by (simp only: of_nat_less_iff)
  then show ?thesis by (simp add: strtol_decimal clamp_long_def)
qed

lemma remote_at_Cons:
  assumes "remote_setting_ok x" and "lowered (fst (remote_line x)) \<notin> set (map (lowered \<circ> fst) kvs)"
  shows "remote_at (remote_line x # kvs) c = remote_at kvs (remote_meaning x c)"
proof -
  note f = at_fresh[OF assms(2)]
  show ?thesis
    by (cases x) (use f assms(1) in \<open>simp_all add: remote_at_def measured_at_def at_Cons bool_of_flag lowered_names Let_def
      hex_text_ne fmt_u_at\<close>)
qed

lemma remote_at_meaning:
  assumes "list_all remote_setting_ok xs" and "distinct (map (lowered \<circ> fst) (map remote_line xs))"
  shows "remote_at (map remote_line xs) c = fold remote_meaning xs c"
  using assms
proof (induction xs arbitrary: c)
  case Nil
  then show ?case by (simp add: remote_at_def measured_at_def bool_at_def string_at_def int_at_def find_key_def Let_def)
next
  case (Cons x xs)
  then show ?case using remote_at_Cons[of x "map remote_line xs" c] by simp
qed

subsection \<open>Whole files\<close>

datatype file_part =
    Winscard_Part "winscard_setting list"
  | Remote_Part "remote_setting list"
  | Rule_Part written_rule

fun part_section :: "file_part \<Rightarrow> ini_section" where
  "part_section (Winscard_Part xs) = (''WINSCARD'', map winscard_line xs)"
| "part_section (Remote_Part xs) = (''REMOTE'', map remote_line xs)"
| "part_section (Rule_Part w) = written_section w"

fun part_meaning :: "file_part \<Rightarrow> file_conf \<Rightarrow> file_conf" where
  "part_meaning (Winscard_Part xs) (c, r, rs) = (fold winscard_meaning xs c, r, rs)"
| "part_meaning (Remote_Part xs) (c, r, rs) = (c, fold remote_meaning xs r, rs)"
| "part_meaning (Rule_Part w) (c, r, rs) = (c, r, rs @ [rule_meaning w])"

fun part_ok :: "file_part \<Rightarrow> bool" where
  "part_ok (Winscard_Part xs) \<longleftrightarrow> section_ok (part_section (Winscard_Part xs)) \<and> list_all winscard_setting_ok xs \<and>
     distinct (map (lowered \<circ> fst) (map winscard_line xs))"
| "part_ok (Remote_Part xs) \<longleftrightarrow> section_ok (part_section (Remote_Part xs)) \<and> list_all remote_setting_ok xs \<and>
     distinct (map (lowered \<circ> fst) (map remote_line xs))"
| "part_ok (Rule_Part w) \<longleftrightarrow> written_ok w"

definition file_ok :: "file_part list \<Rightarrow> bool" where
  "file_ok parts \<longleftrightarrow> list_all part_ok parts \<and> distinct (map (lowered \<circ> fst \<circ> part_section) parts)"

lemma lowered_parts: "lowered ''WINSCARD'' = ''winscard''" "lowered ''REMOTE'' = ''remote''"
  by code_simp+

lemma file_keys_ok:
  assumes "file_ok parts"
  shows "keys_ok (map part_section parts)" and "list_all section_ok (map part_section parts)"
proof -
  have "CHR '':'' \<notin> set (lowered (fst (part_section p))) \<and> distinct (map (lowered \<circ> fst) (snd (part_section p))) \<and>
      section_ok (part_section p)" if "part_ok p" for p
  proof (cases p)
    case (Rule_Part w)
    have "distinct (map (lowered \<circ> fst) (snd (written_section w)))"
      unfolding written_section_def snd_conv lowered_keys by simp
    then show ?thesis
      using that Rule_Part written_section_ok[of w] rule_name_no_colon[of w] by (simp add: lowered_section)
  qed (use that in \<open>simp_all add: lowered_parts\<close>)
  then show "keys_ok (map part_section parts)" "list_all section_ok (map part_section parts)"
    using assms by (auto simp: file_ok_def keys_ok_def list_all_iff comp_def)
qed

lemma remote_measure_text:
  assumes "list_all remote_setting_ok xs" and "string_at (map remote_line xs) ''MEASURE_APDU'' [] \<noteq> []"
  shows "\<exists>bs. string_at (map remote_line xs) ''MEASURE_APDU'' [] = BYTE_ConvertFromArrayToHexString bs True \<and> length bs \<le> 255"
  using assms
proof (induction xs)
  case Nil
  then show ?case by (simp add: string_at_def find_key_def)
next
  case (Cons x xs)
  then show ?case by (cases x) (auto simp: at_Cons lowered_names split: if_splits)
qed

lemma remote_meaning_length:
  assumes "list_all remote_setting_ok xs" and "length (measureApdu c) = 255"
  shows "length (measureApdu (fold remote_meaning xs c)) = 255"
  using assms
proof (induction xs arbitrary: c)
  case (Cons x xs)
  have "length (measureApdu (remote_meaning x c)) = 255" using Cons.prems by (cases x) auto
  with Cons show ?case by simp
qed simp

lemma LoadRule_part:
  assumes "file_ok parts" and "p \<in> set parts" and "length (measureApdu (m_remoteConfig s)) = 255"
  shows "LoadRule junk (Some (printed_dict (map part_section parts))) (lowered (fst (part_section p))) s =
    Inr (with_conf (part_meaning p (file_conf s)) s)"
proof -
  let ?secs = "map part_section parts"
  note ok = file_keys_ok(1)[OF assms(1)]
  have sec: "part_section p \<in> set ?secs" using assms(2) by simp
  have p: "part_ok p" using assms(1,2) by (auto simp: file_ok_def list_all_iff)
  have names: "same_name ''winscard'' ''WINSCARD''" "\<not> same_name ''winscard'' ''REMOTE''" "\<not> same_name (take 4 ''winscard'') ''RULE''"
    "\<not> same_name ''remote'' ''WINSCARD''" "same_name ''remote'' ''REMOTE''" "\<not> same_name (take 4 ''remote'') ''RULE''"
    unfolding same_name_eq by code_simp+
  show ?thesis
  proof (cases p)
    case (Winscard_Part xs)
    then show ?thesis
      using load_winscard_printed[OF ok sec, of "m_winscardConfig s"] winscard_at_meaning[of xs "m_winscardConfig s"] p names(1-3)
      by (simp add: LoadRule_def lowered_parts with_conf_def file_conf_def)
  next
    case (Remote_Part xs)
    then show ?thesis
      using load_remote_printed[OF ok sec, of "m_remoteConfig s"] remote_at_meaning[of xs "m_remoteConfig s"]
        remote_measure_text[of xs] p names(4-6) assms(3)
      by (simp add: LoadRule_def lowered_parts with_conf_def file_conf_def)
  next
    case (Rule_Part w)
    have "lowered (fst q) \<noteq> rule_name w @ ''match2''" if q: "q \<in> set ?secs" for q
    proof -
      obtain p' where "q = part_section p'" using q by auto
      then show ?thesis using rule_name_match[of _ w]
        by (cases p') (simp_all add: lowered_parts lowered_section)
    qed
    then show ?thesis
      using load_written_rule[OF ok, of w junk s] sec p Rule_Part
      by (simp add: lowered_section with_conf_def file_conf_def)
  qed
qed

lemma part_meaning_length:
  assumes "part_ok p" and "length (measureApdu (fst (snd x))) = 255"
  shows "length (measureApdu (fst (snd (part_meaning p x)))) = 255"
  using assms remote_meaning_length by (cases p; cases x) auto

lemma load_file_parts:
  assumes "file_ok parts" and "length (measureApdu (m_remoteConfig s)) = 255"
  shows "load_sections junk (iniparser_load (Some (print_ini (map part_section parts)))) s =
    Inr (with_conf (fold part_meaning parts (file_conf s)) s)"
proof -
  let ?d = "Some (printed_dict (map part_section parts))"
  have conf: "file_conf (with_conf x u) = x" "with_conf y (with_conf x u) = with_conf y u" for x y u
    by (simp_all add: file_conf_def with_conf_def)
  have "foldE (LoadRule junk ?d) (map (lowered \<circ> fst) (map part_section ps)) s = Inr (with_conf (fold part_meaning ps (file_conf s)) s)"
    if "set ps \<subseteq> set parts" for ps
    using that assms(2)
  proof (induction ps arbitrary: s)
    case Nil
    then show ?case by (simp add: with_conf_def file_conf_def)
  next
    case (Cons p ps)
    let ?x = "part_meaning p (file_conf s)"
    have p: "p \<in> set parts" "part_ok p" using Cons.prems(1) assms(1) by (auto simp: file_ok_def list_all_iff)
    have "length (measureApdu (fst (snd ?x))) = 255"
      using Cons.prems(2) by (intro part_meaning_length[OF p(2)]) (simp add: file_conf_def)
    then have "length (measureApdu (m_remoteConfig (with_conf ?x s))) = 255" by (simp add: with_conf_def)
    then show ?case
      using LoadRule_part[OF assms(1) p(1) Cons.prems(2), of junk] Cons.IH[of "with_conf ?x s"] Cons.prems(1) by (simp add: conf)
  qed
  then show ?thesis using load_sections_printed[OF file_keys_ok(2,1)[OF assms(1)], of junk s] by simp
qed

lemma load_configuration:
  assumes "file_text (w_env s) RULE_FILE = Some (print_ini (map part_section parts))" and "file_ok parts"
    and "length (measureApdu (m_remoteConfig s)) = 255" and "fold part_meaning parts (file_conf s) = (c, r, rs)"
  shows "\<exists>t b. LoadRules junk s = (Inr STAT_OK, t) \<and> m_bRulesActive t \<and>
    file_conf t = (c\<lparr>bLOG_WRITE_DESCRIPTION := b\<rparr>, r, rs) \<and> outside t = outside s"
proof -
  have "load_sections junk (iniparser_load (Some (print_ini (map part_section parts)))) u = Inr (with_conf (c, r, rs) u)"
    if "file_conf u = file_conf s" for u
  proof -
    have "length (measureApdu (m_remoteConfig u)) = 255" using assms(3) that by (simp add: file_conf_def)
    then show ?thesis using load_file_parts[OF assms(2), of u junk] assms(4) that by simp
  qed
  from LoadRules_content[OF assms(1) this] show ?thesis by auto
qed

subsection \<open>Properties\<close>

text \<open>
  C7: What the configuration file says is what is configured. When the rules file in the local directory is
  a printed sequence of settings for the library, settings for the proxy and rules, in any order and with
  any selection of settings, \<open>LoadRules\<close> succeeds, switches the rules on, and changes the configurations and
  the rules exactly as the single settings mean: switches, texts, numbers, the list of virtual readers, the
  command to measure; what is not mentioned keeps its value. The only other change is the flag that notes an
  instructions file.
\<close>

theorem written_configuration_loaded:
  assumes "file_text (w_env s) RULE_FILE = Some (print_ini (map part_section parts))" and "file_ok parts"
    and "length (measureApdu (m_remoteConfig s)) = 255" and "fold part_meaning parts (file_conf s) = (c, r, rs)"
  shows "\<exists>t b. LoadRules junk s = (Inr STAT_OK, t) \<and> m_bRulesActive t \<and>
    m_winscardConfig t = c\<lparr>bLOG_WRITE_DESCRIPTION := b\<rparr> \<and> m_remoteConfig t = r \<and> rulesList t = rs"
  using load_configuration[OF assms, of junk] by (auto simp: file_conf_def)

text \<open>A file that redirects everything to a proxy offering two readers, with one rule.\<close>

definition example_parts :: "file_part list" where
  "example_parts =
     [Remote_Part [Redirect True, Proxy_IP ''127.0.0.1'', Proxy_Port ''4001'', Measure_Apdu [0x00, 0xA4], Num_Samples 50],
      Rule_Part (hd example_rules),
      Winscard_Part [Virtual_Readers [''Simona A'', ''Simona B''], Auto_Request_Data True, Log_Exchanged_Apdu False]]"

theorem written_configuration_loaded_witness:
  "\<exists>t. LoadRules 7 (quiet_app\<lparr>w_env := quiet_env\<lparr>file_text := [RULE_FILE \<mapsto> print_ini (map part_section example_parts)]\<rparr>\<rparr>) =
      (Inr STAT_OK, t) \<and> listVIRTUAL_READERS (m_winscardConfig t) = [''Simona A'', ''Simona B''] \<and>
    bRedirect (m_remoteConfig t) \<and> rc_port (m_remoteConfig t) = ''4001'' \<and> rulesList t = [rule_meaning (hd example_rules)]"
proof -
  let ?s = "quiet_app\<lparr>w_env := quiet_env\<lparr>file_text := [RULE_FILE \<mapsto> print_ini (map part_section example_parts)]\<rparr>\<rparr>"
  have s: "file_text (w_env ?s) RULE_FILE = Some (print_ini (map part_section example_parts))"
    "length (measureApdu (m_remoteConfig ?s)) = 255" "rulesList ?s = []"
    by (simp_all add: quiet_app_def app_init_def REMOTE_CONFIG_new_def)
  have w: "written_ok (hd example_rules)"
    by (simp add: example_rules_def written_ok_def header_names_def action_names_def elem_defs)
  have secs: "section_ok (part_section (hd example_parts))" "section_ok (part_section (last example_parts))"
    by (simp_all add: example_parts_def) code_simp+
  have name: "lowered (fst (written_section (hd example_rules))) = rule_name (hd example_rules)" "rule_name (hd example_rules) = ''rule1''"
    by (rule lowered_section) (simp add: rule_name_def example_rules_def, code_simp)
  have ok: "file_ok example_parts"
    using secs w name by (simp add: file_ok_def example_parts_def lowered_names lowered_parts flag_def)
  obtain c r rs where f: "fold part_meaning example_parts (file_conf ?s) = (c, r, rs)" by (cases "fold part_meaning example_parts (file_conf ?s)")
  obtain t b where t: "LoadRules 7 ?s = (Inr STAT_OK, t)" "m_winscardConfig t = c\<lparr>bLOG_WRITE_DESCRIPTION := b\<rparr>"
    "m_remoteConfig t = r" "rulesList t = rs"
    using written_configuration_loaded[OF s(1) ok s(2) f, of 7] by blast
  have "listVIRTUAL_READERS c = [''Simona A'', ''Simona B''] \<and> bRedirect r \<and> rc_port r = ''4001'' \<and> rs = [rule_meaning (hd example_rules)]"
    using f s(3) by (auto simp: example_parts_def file_conf_def)
  then show ?thesis using t by (intro exI[of _ t]) simp
qed

end
