(* ===== verification/Lib_Loader.thy ===== *)
theory Lib_Loader
  imports Transmit Rule_Loader
begin

text \<open>
  Start of the library (\<open>CWinscardApp::InitInstance\<close> and \<open>initialize\<close> in \<open>Winscard.cpp\<close>): reading the
  environment, loading the rules, connecting to the proxy, and resolving the procedures of the
  original winscard library. \<open>LoadLibrary\<close> is an argument: for a file name it gives \<open>None\<close>, or the
  loaded library as the function \<open>GetProcAddress\<close> from procedure names to addresses. The pointer
  variable \<open>Original_X\<close> is the entry \<open>X\<close> of a map, which has no entry while the pointer is null.
\<close>

subsection \<open>The procedures\<close>

type_synonym 'p originals = "string \<rightharpoonup> 'p"
type_synonym 'p dll = "string \<Rightarrow> 'p option"

text \<open>What is done when a procedure is missing: give up with a message, or only log one.\<close>

datatype missing = Stop string | Log_debug string | Log_rules string

text \<open>A pointer variable, the name looked up for it, and the reaction to its absence.\<close>

type_synonym entry = "string \<times> string \<times> missing"

definition not_found :: "string \<Rightarrow> string" where
  "not_found p = ''Could not find '' @ p @ '' procedure address'' @ [NL]"

text \<open>
  The procedures in the order of the code; some are looked up twice. The message for
  \<open>SCardSetAttrib\<close> is not formatted, and one name ends with a blank.
\<close>

definition common_procedures_1 :: "entry list" where
  "common_procedures_1 =
    [(''SCardTransmit'', ''SCardTransmit'', Stop (not_found ''SCardTransmit'')),
     (''SCardDisconnect'', ''SCardDisconnect'', Stop (not_found ''SCardDisconnect'')),
     (''SCardFreeMemory'', ''SCardFreeMemory'', Stop (not_found ''SCardFreeMemory'')),
     (''SCardEstablishContext'', ''SCardEstablishContext'', Stop (not_found ''SCardEstablishContext'')),
     (''SCardReleaseContext'', ''SCardReleaseContext'', Stop (not_found ''SCardReleaseContext'')),
     (''SCardIsValidContext'', ''SCardIsValidContext'', Stop (not_found ''SCardIsValidContext'')),
     (''SCardFreeMemory'', ''SCardFreeMemory'', Stop (not_found ''SCardFreeMemory'')),
     (''SCardCancel'', ''SCardCancel'', Stop (not_found ''SCardCancel'')),
     (''SCardReconnect'', ''SCardReconnect'', Stop (not_found ''SCardReconnect'')),
     (''SCardDisconnect'', ''SCardDisconnect'', Stop (not_found ''SCardDisconnect''))]"

definition common_procedures_2 :: "entry list" where
  "common_procedures_2 =
    [(''SCardBeginTransaction'', ''SCardBeginTransaction'', Stop (not_found ''SCardBeginTransaction'')),
     (''SCardEndTransaction'', ''SCardEndTransaction'', Stop (not_found ''SCardEndTransaction'')),
     (''SCardTransmit'', ''SCardTransmit'', Stop (not_found ''SCardTransmit'')),
     (''SCardControl'', ''SCardControl'', Stop (not_found ''SCardControl'')),
     (''SCardGetAttrib'', ''SCardGetAttrib'', Stop (not_found ''SCardGetAttrib'')),
     (''SCardSetAttrib'', ''SCardSetAttrib'', Stop (''Could not find SCardSetAttrib procedure address%s%s'' @ [NL]))]"

definition windows_procedures_1 :: "entry list" where
  "windows_procedures_1 =
    [(''SCardStatus'', ''SCardStatusA'', Stop (not_found ''SCardStatusA'')),
     (''SCardConnectW'', ''SCardConnectW'', Stop (not_found ''SCardConnectW'')),
     (''SCardListReadersW'', ''SCardListReadersW'', Stop (not_found ''SCardListReadersW'')),
     (''SCardListReaders'', ''SCardListReadersA'', Stop (not_found ''SCardListReadersA'')),
     (''SCardListReaderGroups'', ''SCardListReaderGroupsA'', Stop (not_found ''SCardListReaderGroupsA'')),
     (''SCardListReaderGroupsW'', ''SCardListReaderGroupsW'', Stop (not_found ''SCardListReaderGroupsW'')),
     (''SCardListReaders'', ''SCardListReadersA'', Stop (not_found ''SCardListReadersA'')),
     (''SCardListReadersW'', ''SCardListReadersW'', Stop (not_found ''SCardListReadersW'')),
     (''SCardListCardsA'', ''SCardListCardsA'', Stop (not_found ''SCardListCardsA'')),
     (''SCardListCardsW'', ''SCardListCardsW'', Stop (not_found ''SCardListCardsW'')),
     (''SCardListInterfacesA'', ''SCardListInterfacesA'', Stop (not_found ''SCardListInterfacesA'')),
     (''SCardListInterfacesW'', ''SCardListInterfacesW'', Stop (not_found ''SCardListInterfacesW'')),
     (''SCardGetProviderIdA'', ''SCardGetProviderIdA'', Stop (not_found ''SCardGetProviderIdA''))]"

definition windows_procedures_2 :: "entry list" where
  "windows_procedures_2 =
    [(''SCardGetProviderIdW'', ''SCardGetProviderIdW'', Stop (not_found ''SCardGetProviderIdW'')),
     (''SCardGetCardTypeProviderNameA'', ''SCardGetCardTypeProviderNameA'', Stop (not_found ''SCardGetCardTypeProviderNameA'')),
     (''SCardGetCardTypeProviderNameW'', ''SCardGetCardTypeProviderNameW'', Stop (not_found ''SCardGetCardTypeProviderNameW'')),
     (''SCardIntroduceReaderGroupA'', ''SCardIntroduceReaderGroupA'', Stop (not_found ''SCardIntroduceReaderGroupA'')),
     (''SCardIntroduceReaderGroupW'', ''SCardIntroduceReaderGroupW'', Stop (not_found ''SCardIntroduceReaderGroupW'')),
     (''SCardForgetReaderGroupA'', ''SCardForgetReaderGroupA'', Stop (not_found ''SCardForgetReaderGroupA'')),
     (''SCardForgetReaderGroupW'', ''SCardForgetReaderGroupW'', Stop (not_found ''SCardForgetReaderGroupW'')),
     (''SCardIntroduceReaderA'', ''SCardIntroduceReaderA'', Stop (not_found ''SCardIntroduceReaderA'')),
     (''SCardIntroduceReaderW'', ''SCardIntroduceReaderW'', Stop (not_found ''SCardIntroduceReaderW'')),
     (''SCardForgetReaderA'', ''SCardForgetReaderA'', Stop (not_found ''SCardForgetReaderA'')),
     (''SCardForgetReaderW'', ''SCardForgetReaderW'', Stop (not_found ''SCardForgetReaderW'')),
     (''SCardAddReaderToGroupA'', ''SCardAddReaderToGroupA'', Stop (not_found ''SCardAddReaderToGroupA'')),
     (''SCardAddReaderToGroupW'', ''SCardAddReaderToGroupW'', Stop (not_found ''SCardAddReaderToGroupW''))]"

definition windows_procedures_3 :: "entry list" where
  "windows_procedures_3 =
    [(''SCardRemoveReaderFromGroupA'', ''SCardRemoveReaderFromGroupA'', Stop (not_found ''SCardRemoveReaderFromGroupA'')),
     (''SCardRemoveReaderFromGroupW'', ''SCardRemoveReaderFromGroupW'', Stop (not_found ''SCardRemoveReaderFromGroupW'')),
     (''SCardIntroduceCardTypeA'', ''SCardIntroduceCardTypeA'', Stop (not_found ''SCardIntroduceCardTypeA'')),
     (''SCardIntroduceCardTypeW'', ''SCardIntroduceCardTypeW'', Stop (not_found ''SCardIntroduceCardTypeW'')),
     (''SCardSetCardTypeProviderNameA'', ''SCardSetCardTypeProviderNameA'', Stop (not_found ''SCardSetCardTypeProviderNameA'')),
     (''SCardSetCardTypeProviderNameW'', ''SCardSetCardTypeProviderNameW'', Stop (not_found ''SCardSetCardTypeProviderNameW'')),
     (''SCardForgetCardTypeA'', ''SCardForgetCardTypeA'', Stop (not_found ''SCardForgetCardTypeA'')),
     (''SCardForgetCardTypeW'', ''SCardForgetCardTypeW'', Stop (not_found ''SCardForgetCardTypeW'')),
     (''SCardAccessStartedEvent'', ''SCardAccessStartedEvent'', Stop (not_found ''SCardAccessStartedEvent'')),
     (''SCardReleaseStartedEvent'', ''SCardReleaseStartedEvent'', Stop (not_found ''SCardReleaseStartedEvent'')),
     (''SCardLocateCardsA'', ''SCardLocateCardsA'', Stop (not_found ''SCardLocateCardsA'')),
     (''SCardLocateCardsW'', ''SCardLocateCardsW'', Stop (not_found ''SCardLocateCardsW'')),
     (''SCardLocateCardsByATRA'', ''SCardLocateCardsByATRA'', Stop (not_found ''SCardLocateCardsByATRA''))]"

definition windows_procedures_4 :: "entry list" where
  "windows_procedures_4 =
    [(''SCardLocateCardsByATRW'', ''SCardLocateCardsByATRW'', Stop (not_found ''SCardLocateCardsByATRW'')),
     (''SCardGetStatusChangeA'', ''SCardGetStatusChangeA'', Stop (not_found ''SCardGetStatusChangeA'')),
     (''SCardGetStatusChangeW'', ''SCardGetStatusChangeW'', Stop (not_found ''SCardGetStatusChangeW'')),
     (''SCardConnect'', ''SCardConnectA'', Stop (not_found ''SCardConnectA'')),
     (''SCardConnectW'', ''SCardConnectW'', Stop (not_found ''SCardConnectW'')),
     (''SCardCancelTransaction'', ''SCardCancelTransaction'', Log_debug (not_found ''SCardCancelTransaction'')),
     (''SCardState'', ''SCardState'', Stop (not_found ''SCardState'')),
     (''SCardStatus'', ''SCardStatusA'', Stop (not_found ''SCardStatusA'')),
     (''SCardStatusW'', ''SCardStatusW'', Stop (not_found ''SCardStatusW'')),
     (''SCardUIDlgSelectCardA'', ''SCardUIDlgSelectCardA'', Log_debug (not_found ''SCardUIDlgSelectCardA'')),
     (''SCardUIDlgSelectCardW'', ''SCardUIDlgSelectCardW'', Log_rules (not_found ''SCardUIDlgSelectCardW'')),
     (''GetOpenCardNameA'', ''GetOpenCardNameA'', Log_rules (not_found ''GetOpenCardNameA'')),
     (''GetOpenCardNameW'', ''GetOpenCardNameW'', Log_rules (not_found ''GetOpenCardNameW'')),
     (''SCardDlgExtendedError'', ''SCardDlgExtendedError '', Log_rules (not_found ''SCardDlgExtendedError''))]"

definition procedures :: "entry list" where
  "procedures = common_procedures_1 @ common_procedures_2 @ windows_procedures_1 @ windows_procedures_2 @
     windows_procedures_3 @ windows_procedures_4"

subsection \<open>Resolving them\<close>

fun load_procedures :: "'p dll \<Rightarrow> entry list \<Rightarrow> 'p originals \<Rightarrow> (bool \<times> 'p originals) act" where
  "load_procedures load_func [] m = returnA (True, m)"
| "load_procedures load_func ((v, p, w) # es) m =
     (let m1 = m(v := load_func p)
      in if load_func p \<noteq> None then load_procedures load_func es m1
         else case w of
                Stop msg \<Rightarrow> bindA (debugA msg True) (\<lambda>_. returnA (False, m1))
              | Log_debug msg \<Rightarrow> bindA (debugA msg True) (\<lambda>_. load_procedures load_func es m1)
              | Log_rules msg \<Rightarrow> bindA (logA msg) (\<lambda>_. load_procedures load_func es m1))"

definition initialize :: "(string \<Rightarrow> 'p dll option) \<Rightarrow> 'p originals \<Rightarrow> (bool \<times> 'p originals) act" where
  "initialize LoadLibrary m =
     (case LoadLibrary ''original64.dll'' of
        None \<Rightarrow> bindA (debugA (''Failed to load original library'' @ [NL]) True) (\<lambda>_. returnA (False, m))
      | Some load_func \<Rightarrow> load_procedures load_func procedures m)"

subsection \<open>Start of an instance\<close>

definition LIBRARY_VERSION :: string where "LIBRARY_VERSION = ''2019.07.17''"

definition set_debug_file :: "unit act" where
  "set_debug_file =
     bindA (Reg_GetEnvVariable ''APDUPLAY_DEBUG'') (\<lambda>debugPath.
     case debugPath of
       None \<Rightarrow> returnA ()
     | Some p \<Rightarrow> modA (\<lambda>s. s\<lparr>APDUPLAY_DEBUG_FILE := c_str p\<rparr>))"

text \<open>The name after the last backslash, or after the last slash when there is no backslash.\<close>

definition binary_name :: "string \<Rightarrow> string option" where
  "binary_name path =
     map_option (\<lambda>found. drop (found + 1) path)
       (case find_last_idx (\<lambda>c. c = BS) path of
          None \<Rightarrow> find_last_idx (\<lambda>c. c = CHR ''/'') path
        | Some found \<Rightarrow> Some found)"

definition identify_application :: "unit act" where
  "identify_application =
     bindA (getA (\<lambda>s. module_file_name (w_env s))) (\<lambda>szPath.
     case szPath of
       None \<Rightarrow> returnA ()
     | Some path \<Rightarrow>
         bindA (debugA (''Target application: '' @ [CHR 0x27] @ c_str path @ [CHR 0x27, NL]) True) (\<lambda>_.
         case binary_name (c_str path) of
           None \<Rightarrow> returnA ()
         | Some name \<Rightarrow>
             bindA (modA (\<lambda>s. s\<lparr>loadingBinaryName := name\<rparr>)) (\<lambda>_.
             modA (upd_remote (\<lambda>c. c\<lparr>remoteTag := remoteTag c @ ''binary='' @ name\<rparr>)))))"

definition personalise_tag :: "unit act" where
  "personalise_tag =
     bindA (Reg_GetEnvVariable ''APDUPLAY_REMOTE_TAG'') (\<lambda>tag.
     case tag of
       None \<Rightarrow> returnA ()
     | Some t \<Rightarrow> modA (upd_remote (\<lambda>c. c\<lparr>remoteTag := remoteTag c @ c_str t\<rparr>)))"

definition SILENCE_MESSAGE :: string where
  "SILENCE_MESSAGE =
     ''!!! Detected environmental variable disabling all subsequent logging (which improves the card communication speed for scenarios with high number of APDus).'' @ [NL] @
     ''Please remove environmental variable APDUPLAY_DISABLE_LOGGING if you want to see more logs.''"

definition silence_logging :: "unit act" where
  "silence_logging =
     bindA (Reg_GetEnvVariable ''APDUPLAY_DISABLE_LOGGING'') (\<lambda>v.
     case v of
       None \<Rightarrow> returnA ()
     | Some _ \<Rightarrow>
         bindA (logA SILENCE_MESSAGE) (\<lambda>_. modA (upd_remote (\<lambda>c. c\<lparr>bDisableLogging := True\<rparr>))))"

definition connect_if_redirected :: "unit act" where
  "connect_if_redirected =
     bindA (getA (\<lambda>s. bRedirect (m_remoteConfig s))) (\<lambda>r.
     if r then
       bindA (debugA (''[REMOTE] Redirect = 1 => going to connect to specified socket (make sure socket is opened. If application terminates, try to set Redirect = 0 to disable remote redirecting)'' @ [NL]) True) (\<lambda>_.
       bindA Remote_Connect (\<lambda>_. returnA ()))
     else returnA ())"

text \<open>
  The start up to the rules: the debug file, the banner and the application. The random generator
  is seeded with the time; the values it gives are those of the environment.
\<close>

definition begin_instance :: "unit act" where
  "begin_instance =
     bindA set_debug_file (\<lambda>_.
     bindA (debugA ([NL] @ replicate 85 (CHR 0x23) @ [NL]) False) (\<lambda>_.
     bindA (debugA (''InitInstance entered'' @ [NL]) True) (\<lambda>_.
     bindA (debugA (''APDUPlay winscard.dll v'' @ LIBRARY_VERSION @ '', (64-bit version)'' @ [NL]) True) (\<lambda>_.
     identify_application))))"

definition InitInstance :: "int \<Rightarrow> (string \<Rightarrow> 'p dll option) \<Rightarrow> 'p originals \<Rightarrow> (bool \<times> 'p originals) act" where
  "InitInstance junk LoadLibrary m =
     bindA begin_instance (\<lambda>_.
     bindA (LoadRules junk) (\<lambda>_.
     bindA personalise_tag (\<lambda>_.
     bindA silence_logging (\<lambda>_.
     bindA connect_if_redirected (\<lambda>_.
     bindA (getA (\<lambda>s. bLOG_EXCHANGED_APDU (m_winscardConfig s))) (\<lambda>l.
     bindA (if l then modA (\<lambda>s. append_file (WINSCARD_LOG s) (''[begin]'' @ [NL]) s) else returnA ()) (\<lambda>_.
     bindA (initialize LoadLibrary m) (\<lambda>(bStatus, m1).
     bindA (debugA ''Finalizing InitInstance with status: '' True) (\<lambda>_.
     bindA (debugA ((if bStatus then ''true'' else ''false'') @ [NL]) False) (\<lambda>_.
     returnA (bStatus, m1)))))))))))"

subsection \<open>What a complete library is\<close>

text \<open>
  The name under which each pointer's procedure should be found, and the pointers the start does
  not insist on.
\<close>

definition procedure_name :: "string \<Rightarrow> string" where
  "procedure_name v =
     (if v \<in> {''SCardStatus'', ''SCardConnect'', ''SCardListReaders'', ''SCardListReaderGroups''} then v @ ''A''
      else if v = ''SCardDlgExtendedError'' then v @ '' ''
      else v)"

definition optional_pointers :: "string set" where
  "optional_pointers = {''SCardCancelTransaction'', ''SCardUIDlgSelectCardA'', ''SCardUIDlgSelectCardW'',
     ''GetOpenCardNameA'', ''GetOpenCardNameW'', ''SCardDlgExtendedError''}"

definition pointers :: "string set" where
  "pointers = fst ` set procedures"

definition library_complete :: "'p dll \<Rightarrow> bool" where
  "library_complete f \<longleftrightarrow> (\<forall>v \<in> pointers - optional_pointers. f (procedure_name v) \<noteq> None)"

definition stops :: "missing \<Rightarrow> bool" where
  "stops w = (case w of Stop _ \<Rightarrow> True | _ \<Rightarrow> False)"

lemma procedures_named: "list_all (\<lambda>(v, p, w). p = procedure_name v \<and> (stops w \<longleftrightarrow> v \<notin> optional_pointers)) procedures"
  unfolding procedures_def common_procedures_1_def common_procedures_2_def windows_procedures_1_def
    windows_procedures_2_def windows_procedures_3_def windows_procedures_4_def
  by (simp add: procedure_name_def optional_pointers_def stops_def)

text \<open>The pointers after looking all of them up.\<close>

fun point_all :: "'p dll \<Rightarrow> entry list \<Rightarrow> 'p originals \<Rightarrow> 'p originals" where
  "point_all f [] m = m"
| "point_all f ((v, p, w) # es) m = point_all f es (m(v := f p))"

lemma load_procedures_spec:
  "\<exists>ok m' t. load_procedures f es m s = (Inr (ok, m'), t) \<and> visible t = visible s \<and>
     (ok \<longleftrightarrow> (\<forall>(v, p, w) \<in> set es. stops w \<longrightarrow> f p \<noteq> None)) \<and>
     (ok \<longrightarrow> m' = point_all f es m)"
proof (induction es arbitrary: m s)
  case Nil
  show ?case by auto
next
  case (Cons e es)
  obtain v p w where e: "e = (v, p, w)" by (cases e)
  let ?m = "m(v := f p)"
  consider (found) "f p \<noteq> None" | (stop) msg where "f p = None" "w = Stop msg"
    | (log) g msg where "f p = None" "\<not> stops w" "g = LogDebugString msg True \<or> g = LogWinscardRules msg"
        "load_procedures f ((v, p, w) # es) m s = load_procedures f es ?m (g s)"
    by (cases w) (auto simp: bindA_unfold Let_def stops_def)
  then show ?case
  proof cases
    case found
    then obtain ok m' t where "load_procedures f es ?m s = (Inr (ok, m'), t)" "visible t = visible s"
      "ok \<longleftrightarrow> (\<forall>(v, p, w) \<in> set es. stops w \<longrightarrow> f p \<noteq> None)"
      "ok \<longrightarrow> m' = point_all f es ?m"
      using Cons.IH[of ?m s] by blast
    then show ?thesis using found by (intro exI[of _ ok] exI[of _ m'] exI[of _ t]) (simp add: e Let_def)
  next
    case stop
    then show ?thesis by (intro exI[of _ False]) (simp add: e bindA_unfold stops_def Let_def)
  next
    case log
    have same: "visible (g s) = visible s" using log(3) by auto
    obtain ok m' t where "load_procedures f es ?m (g s) = (Inr (ok, m'), t)" "visible t = visible (g s)"
      "ok \<longleftrightarrow> (\<forall>(v, p, w) \<in> set es. stops w \<longrightarrow> f p \<noteq> None)"
      "ok \<longrightarrow> m' = point_all f es ?m"
      using Cons.IH[of ?m "g s"] by blast
    then show ?thesis unfolding e log(4) same using log(2)
      by (intro exI[of _ ok] exI[of _ m'] exI[of _ t]) (simp add: log(1))
  qed
qed

lemma stops_pointers:
  assumes "list_all (\<lambda>(v, p, w). p = procedure_name v \<and> (stops w \<longleftrightarrow> v \<notin> optional_pointers)) es"
  shows "(\<forall>(v, p, w) \<in> set es. stops w \<longrightarrow> f p \<noteq> None) \<longleftrightarrow>
    (\<forall>v \<in> fst ` set es - optional_pointers. f (procedure_name v) \<noteq> None)"
  using assms by (induction es) auto

lemma fold_pointers:
  assumes "list_all (\<lambda>(v, p, w). p = g v) es"
  shows "point_all f es m =
    (\<lambda>v. if v \<in> fst ` set es then f (g v) else m v)"
  using assms
proof (induction es arbitrary: m)
  case Nil
  then show ?case by simp
next
  case (Cons e es)
  obtain v p w where e: "e = (v, p, w)" by (cases e)
  have "list_all (\<lambda>(v, p, w). p = g v) es" "p = g v"
    using Cons.prems e by auto
  with Cons.IH[OF this(1)] show ?case by (simp add: e fun_eq_iff)
qed

lemma initialize_spec:
  assumes "LoadLibrary ''original64.dll'' = Some f"
  shows "\<exists>ok m' t. initialize LoadLibrary m s = (Inr (ok, m'), t) \<and> visible t = visible s \<and>
    (ok \<longleftrightarrow> library_complete f) \<and>
    (ok \<longrightarrow> m' = (\<lambda>v. if v \<in> pointers then f (procedure_name v) else m v))"
proof -
  have named: "list_all (\<lambda>(v, p, w). p = procedure_name v) procedures"
    using procedures_named by (rule list.pred_mono_strong) auto
  have all: "(\<forall>(v, p, w) \<in> set procedures. stops w \<longrightarrow> f p \<noteq> None) \<longleftrightarrow> library_complete f"
    unfolding library_complete_def pointers_def by (rule stops_pointers[OF procedures_named])
  obtain ok m' t where l: "load_procedures f procedures m s = (Inr (ok, m'), t)" "visible t = visible s"
    "ok \<longleftrightarrow> library_complete f" "ok \<longrightarrow> m' = point_all f procedures m"
    using load_procedures_spec[of f procedures m s] unfolding all by blast
  have "initialize LoadLibrary m s = (Inr (ok, m'), t)"
    unfolding initialize_def assms option.case by (rule l(1))
  then show ?thesis using l(2-4) unfolding fold_pointers[OF named] pointers_def[symmetric] by blast
qed

subsection \<open>What identifies the instance\<close>

text \<open>\<open>moves P m Q\<close>: when \<open>m\<close> succeeds in a state with \<open>P\<close>, the state it leaves has \<open>Q\<close>.\<close>

definition moves :: "(app \<Rightarrow> bool) \<Rightarrow> 'a act \<Rightarrow> (app \<Rightarrow> bool) \<Rightarrow> bool" where
  "moves P m Q \<longleftrightarrow> (\<forall>s x t. P s \<longrightarrow> m s = (Inr x, t) \<longrightarrow> Q t)"

lemma movesD: "moves P m Q \<Longrightarrow> P s \<Longrightarrow> m s = (Inr x, t) \<Longrightarrow> Q t"
  by (auto simp: moves_def)

lemma moves_bindA: "moves P m Q \<Longrightarrow> (\<And>x. moves Q (f x) R) \<Longrightarrow> moves P (bindA m f) R"
  unfolding moves_def by (fastforce simp: bindA_eq_Inr)

lemma moves_keeps: "keeps P m \<Longrightarrow> moves P m P"
  unfolding moves_def keeps_def by (metis snd_conv)

lemma keeps_option:
  "keeps P a \<Longrightarrow> (\<And>y. keeps P (g y)) \<Longrightarrow> keeps P (case x of None \<Rightarrow> a | Some y \<Rightarrow> g y)"
  by (cases x) simp_all

text \<open>The environment, the tag for the proxy and the name of the application.\<close>

definition tagged :: "environment \<Rightarrow> string \<Rightarrow> string \<Rightarrow> app \<Rightarrow> bool" where
  "tagged env tag name s \<longleftrightarrow> w_env s = env \<and> remoteTag (m_remoteConfig s) = tag \<and> loadingBinaryName s = name"

lemma keeps_tagged_prims:
  "keeps (tagged env x n) (deref_Socket p)" "keeps (tagged env x n) (delete_Socket p)"
  "keeps (tagged env x n) (new_SocketClient h pt)" "keeps (tagged env x n) (logA m)"
  "keeps (tagged env x n) (debugA m b)" "keeps (tagged env x n) (Remote_ParseResponse raw uid resp)"
  "keeps (tagged env x n) (ReceiveResponse p e t)"
  by (auto simp: keeps_def tagged_def deref_Socket_def delete_Socket_def new_SocketClient_def ReceiveResponse_def
      bindA_def Remote_ParseResponse_def Let_def split: conn_event.split list.split sum.split)

lemma keeps_tagged_upd:
  "(\<And>c. remoteTag (f c) = remoteTag c) \<Longrightarrow> keeps (tagged env x n) (modA (upd_remote f))"
  by (simp add: keeps_def tagged_def upd_remote_def)

lemmas keeps_tagged_rules = keeps_tagged_prims keeps_bindA keeps_tryA keeps_pure keeps_if keeps_case keeps_option

lemma keeps_tagged_connect: "keeps (tagged env x n) Remote_Connect"
  unfolding Remote_Connect_def Remote_SendRequest_def request_socket_def open_socket_def exchange_def SendLine_def
    Socket_Close_def
  by (intro keeps_tagged_rules keeps_tagged_upd keeps_modA) (simp_all add: tagged_def)

lemma keeps_tagged_env: "keeps (tagged env x n) (Reg_GetEnvVariable v)"
  unfolding Reg_GetEnvVariable_def by (intro keeps_tagged_rules)

lemma load_remote_tag:
  "load_remote dict sec c = Inr c' \<Longrightarrow> remoteTag c' = remoteTag c"
  unfolding load_remote_def load_measure_apdu_def by (auto simp: bindE_eq_Inr split: if_splits)

lemma load_rule_tagged:
  assumes "LoadRule junk dict sec s = Inr t" and "tagged env x n s"
  shows "tagged env x n t"
proof -
  obtain s1 s2 where
    s1: "(if same_name sec ''WINSCARD'' then bindE (load_winscard dict sec (m_winscardConfig s)) (\<lambda>c. Inr (s\<lparr>m_winscardConfig := c\<rparr>))
          else Inr s) = Inr s1" and
    s2: "(if same_name sec ''REMOTE'' then bindE (load_remote dict sec (m_remoteConfig s1)) (\<lambda>c. Inr (s1\<lparr>m_remoteConfig := c\<rparr>))
          else Inr s1) = Inr s2" and
    t: "(if same_name (take 4 sec) ''RULE'' then bindE (load_rule_section junk dict sec) (\<lambda>r. Inr (s2\<lparr>rulesList := rulesList s2 @ [r]\<rparr>))
         else Inr s2) = Inr t"
    using assms(1) unfolding LoadRule_def bindE_eq_Inr by blast
  have "tagged env x n s1"
    using s1 assms(2) by (simp only: bindE_eq_Inr split: if_split_asm) (auto simp: tagged_def)
  then have "tagged env x n s2"
    using s2 by (simp only: bindE_eq_Inr split: if_split_asm) (auto simp: tagged_def load_remote_tag)
  then show ?thesis
    using t by (simp only: bindE_eq_Inr split: if_split_asm) (auto simp: tagged_def)
qed

lemma keeps_tagged_LoadRules: "keeps (tagged env x n) (LoadRules junk)"
proof -
  have sections: "tagged env x n t"
    if l: "load_sections junk dict s = Inr t" and s: "tagged env x n s" for dict s t
  proof (rule foldE_invariant[where P = "tagged env x n", OF _ s l[unfolded load_sections_def]])
    fix i u v
    assume "tagged env x n u"
      and "(case iniparser_getsecname dict (int i) of None \<Rightarrow> Inl Null_Deref | Some name \<Rightarrow> LoadRule junk dict name u) = Inr v"
    then show "tagged env x n v" by (auto split: option.splits intro: load_rule_tagged)
  qed
  have "keeps (tagged env x n) (use_rules_file junk content)" for content
    unfolding use_rules_file_def
    by (cases content) (auto intro!: keepsI simp: tagged_def split: sum.split dest!: sections)
  moreover have "keeps (tagged env x n) (\<lambda>s. let (t, s1) = getCurrentTimeString s in (Inr t, s1))"
    by (rule keepsI) (simp add: getCurrentTimeString_def Let_def tagged_def)
  ultimately show ?thesis
    unfolding LoadRules_def find_rules_file_def try_open_def set_log_paths_def load_instructions_def
    by (intro keeps_tagged_rules keeps_tagged_env keeps_modA) (simp_all add: tagged_def)
qed

lemma env_read: "\<exists>u. Reg_GetEnvVariable v s = (Inr (env_var (w_env s) v), u) \<and> visible u = visible s"
  unfolding Reg_GetEnvVariable_def by (cases "env_var (w_env s) v") (simp_all add: bindA_unfold)

lemma tagged_visible: "visible t = visible s \<Longrightarrow> tagged env x n t = tagged env x n s"
proof -
  assume eq: "visible t = visible s"
  have "w_env (visible t) = w_env (visible s)" "m_remoteConfig (visible t) = m_remoteConfig (visible s)"
    "loadingBinaryName (visible t) = loadingBinaryName (visible s)"
    using eq by simp_all
  then show ?thesis by (simp add: tagged_def visible_def)
qed

lemma begin_instance_moves:
  assumes "module_file_name env = Some path" and "binary_name (c_str path) = Some name"
  shows "moves (tagged env x n) begin_instance (tagged env (x @ ''binary='' @ name) name)"
proof -
  have debug: "keeps (tagged env x n) set_debug_file"
    unfolding set_debug_file_def by (intro keeps_tagged_rules keeps_tagged_env keeps_modA) (simp add: tagged_def)
  have "moves (tagged env x n) identify_application (tagged env (x @ ''binary='' @ name) name)"
    using assms unfolding moves_def identify_application_def
    by (auto simp: bindA_unfold tagged_def upd_remote_def)
  then show ?thesis
    unfolding begin_instance_def
    by (intro moves_bindA[OF moves_keeps] debug keeps_tagged_prims)
qed

lemma begin_instance_ok: "\<exists>u. begin_instance s = (Inr (), u)"
proof -
  obtain u where u: "Reg_GetEnvVariable ''APDUPLAY_DEBUG'' s = (Inr (env_var (w_env s) ''APDUPLAY_DEBUG''), u)"
    using env_read by blast
  have "\<exists>v. set_debug_file s = (Inr (), v)"
    by (cases "env_var (w_env s) ''APDUPLAY_DEBUG''") (simp_all add: set_debug_file_def u)
  then obtain v where v: "set_debug_file s = (Inr (), v)" by blast
  have "\<exists>u. identify_application w = (Inr (), u)" for w
    unfolding identify_application_def by (auto simp: bindA_unfold split: option.split)
  then show ?thesis by (simp add: begin_instance_def v bindA_unfold)
qed

lemma personalise_tag_spec:
  assumes "tagged env x n s"
  shows "\<exists>u. personalise_tag s = (Inr (), u) \<and>
    tagged env (x @ (case env_var env ''APDUPLAY_REMOTE_TAG'' of None \<Rightarrow> [] | Some v \<Rightarrow> c_str v)) n u \<and>
    bRedirect (m_remoteConfig u) = bRedirect (m_remoteConfig s)"
proof -
  have env: "w_env s = env" using assms by (simp add: tagged_def)
  obtain u where u: "Reg_GetEnvVariable ''APDUPLAY_REMOTE_TAG'' s = (Inr (env_var env ''APDUPLAY_REMOTE_TAG''), u)"
    "visible u = visible s"
    using env_read[of _ s] unfolding env by blast
  then have "tagged env x n u" "bRedirect (m_remoteConfig u) = bRedirect (m_remoteConfig s)"
    using assms tagged_visible visible_same(6) by (blast, metis)
  then show ?thesis
    by (cases "env_var env ''APDUPLAY_REMOTE_TAG''") (simp_all add: personalise_tag_def u(1) tagged_def upd_remote_def)
qed

lemma silence_logging_spec:
  assumes "tagged env x n s"
  shows "\<exists>u. silence_logging s = (Inr (), u) \<and> tagged env x n u \<and>
    bRedirect (m_remoteConfig u) = bRedirect (m_remoteConfig s)"
proof -
  obtain v u where u: "Reg_GetEnvVariable ''APDUPLAY_DISABLE_LOGGING'' s = (Inr v, u)" "visible u = visible s"
    using env_read by blast
  then have "tagged env x n u" "bRedirect (m_remoteConfig u) = bRedirect (m_remoteConfig s)"
    using assms tagged_visible visible_same(6) by (blast, metis)
  then show ?thesis
    by (cases v) (simp_all add: silence_logging_def u(1) bindA_unfold tagged_def upd_remote_def)
qed

lemma initialize_fails: "LoadLibrary ''original64.dll'' = None \<Longrightarrow>
    initialize LoadLibrary m s = (Inr (False, m), LogDebugString (''Failed to load original library'' @ [NL]) True s)"
  by (simp add: initialize_def bindA_unfold)

lemma initialize_total:
  "\<exists>ok m' t. initialize LoadLibrary m s = (Inr (ok, m'), t) \<and> visible t = visible s \<and>
     (ok \<longleftrightarrow> (\<exists>f. LoadLibrary ''original64.dll'' = Some f \<and> library_complete f))"
proof (cases "LoadLibrary ''original64.dll''")
  case None
  then show ?thesis by (auto simp: initialize_fails)
next
  case (Some f)
  then show ?thesis using initialize_spec[of LoadLibrary f m s] by auto
qed

lemma load_procedures_step:
  assumes "load_procedures f ((v, p, w) # es) m s = (Inr (ok, m'), t)"
  shows "(\<exists>u. load_procedures f es (m(v := f p)) u = (Inr (ok, m'), t)) \<or> m' = m(v := f p)"
proof (cases "f p = None")
  case True
  then show ?thesis
    using assms by (cases w) (auto simp: Let_def bindA_unfold simp del: fun_upd_apply)
next
  case False
  then show ?thesis using assms by (auto simp: Let_def simp del: fun_upd_apply)
qed

subsection \<open>Properties\<close>


text \<open>The library as documented: every procedure under its own name, none of which ends in a blank.\<close>

definition winscard_dll :: "string dll" where
  "winscard_dll p = (if p = [] \<or> last p = CHR '' '' then None else Some p)"

lemma winscard_dll_complete: "library_complete winscard_dll"
proof -
  have "list_all (\<lambda>(v, p, w). v \<noteq> [] \<and> last v \<noteq> CHR '' '') procedures"
    unfolding procedures_def common_procedures_1_def common_procedures_2_def windows_procedures_1_def
      windows_procedures_2_def windows_procedures_3_def windows_procedures_4_def
    by simp
  then have "v \<noteq> [] \<and> last v \<noteq> CHR '' ''" if "v \<in> pointers" for v
    using that unfolding pointers_def list_all_iff by auto
  then show ?thesis
    unfolding library_complete_def winscard_dll_def procedure_name_def optional_pointers_def by auto
qed


text \<open>
  \<open>SCardDlgExtendedError\<close> never works. It is looked up under a name with a trailing blank; with a
  library that has no such procedure its pointer stays null however the start ends, and calling
  the exported function dereferences it.
\<close>

theorem dialog_error_unusable:
  assumes "LoadLibrary ''original64.dll'' = Some f" and "f ''SCardDlgExtendedError '' = None"
    and "initialize LoadLibrary Map.empty s = (Inr (ok, m'), t)"
  shows "m' ''SCardDlgExtendedError'' = None \<and>
    fst (SCardDlgExtendedError (map_option call (m' ''SCardDlgExtendedError'')) u) = Inl Null_Deref"
proof -
  have never: "m' ''SCardDlgExtendedError'' = None"
    if "load_procedures f es m s = (Inr (ok, m'), t)" "list_all (\<lambda>(v, p, w). p = procedure_name v) es"
      "m ''SCardDlgExtendedError'' = None" for es m s
    using that
  proof (induction es arbitrary: m s)
    case Nil
    then show ?case by simp
  next
    case (Cons e es)
    obtain v p w where e: "e = (v, p, w)" by (cases e)
    have p: "p = procedure_name v" and es: "list_all (\<lambda>(v, p, w). p = procedure_name v) es"
      using Cons.prems(2) by (simp_all add: e)
    have null: "(m(v := f p)) ''SCardDlgExtendedError'' = None"
    proof (cases "v = ''SCardDlgExtendedError''")
      case True
      then have "p = ''SCardDlgExtendedError ''" unfolding p by (simp add: procedure_name_def)
      then show ?thesis using assms(2) True by simp
    next
      case False
      then show ?thesis using Cons.prems(3) by simp
    qed
    from load_procedures_step[OF Cons.prems(1)[unfolded e]] show ?case
    proof
      assume "\<exists>u. load_procedures f es (m(v := f p)) u = (Inr (ok, m'), t)"
      then show ?thesis using Cons.IH[of "m(v := f p)"] es null by blast
    next
      assume "m' = m(v := f p)"
      then show ?thesis using null by (simp only:)
    qed
  qed
  have named: "list_all (\<lambda>(v, p, w). p = procedure_name v) procedures"
    using procedures_named by (rule list.pred_mono_strong) auto
  have "load_procedures f procedures Map.empty s = (Inr (ok, m'), t)"
    using assms(3) unfolding initialize_def assms(1) option.case .
  from never[OF this named] have "m' ''SCardDlgExtendedError'' = None" by simp
  then show ?thesis by (simp add: SCardDlgExtendedError_def call_original_def bindA_unfold)
qed

theorem dialog_error_unusable_witness:
  "\<exists>m' t. initialize (\<lambda>_. Some winscard_dll) Map.empty quiet_app = (Inr (True, m'), t) \<and>
     fst (SCardDlgExtendedError (map_option (\<lambda>p (). p) (m' ''SCardDlgExtendedError'')) t) = Inl Null_Deref"
proof -
  obtain m' t where i: "initialize (\<lambda>_. Some winscard_dll) Map.empty quiet_app = (Inr (True, m'), t)"
    using initialize_spec[of "\<lambda>_. Some winscard_dll" winscard_dll Map.empty quiet_app] winscard_dll_complete by auto
  have "winscard_dll ''SCardDlgExtendedError '' = None" by (simp add: winscard_dll_def)
  from dialog_error_unusable[OF refl this i] i show ?thesis by blast
qed

text \<open>
  C14: The start of the library without redirection. When the rules load and do not redirect, \<open>InitInstance\<close>
  returns, with TRUE exactly when the original library loads and is complete. The name of the
  application is the last component of its path, and the tag for the proxy is the old one
  followed by \<open>binary=\<close>, this name and the value of \<open>APDUPLAY_REMOTE_TAG\<close>, whatever the rules file says.
\<close>

theorem init_instance_identifies:
  assumes "module_file_name (w_env s) = Some path" and "binary_name (c_str path) = Some name"
    and "LoadRules junk (snd (begin_instance s)) = (Inr st, u)" and "\<not> bRedirect (m_remoteConfig u)"
  shows "\<exists>ok m' t. InitInstance junk LoadLibrary m s = (Inr (ok, m'), t) \<and>
    (ok \<longleftrightarrow> (\<exists>f. LoadLibrary ''original64.dll'' = Some f \<and> library_complete f)) \<and>
    loadingBinaryName t = name \<and>
    remoteTag (m_remoteConfig t) = remoteTag (m_remoteConfig s) @ ''binary='' @ name @
      (case env_var (w_env s) ''APDUPLAY_REMOTE_TAG'' of None \<Rightarrow> [] | Some v \<Rightarrow> c_str v)"
proof -
  let ?tag = "remoteTag (m_remoteConfig s) @ ''binary='' @ name"
  let ?all = "?tag @ (case env_var (w_env s) ''APDUPLAY_REMOTE_TAG'' of None \<Rightarrow> [] | Some v \<Rightarrow> c_str v)"
  have "tagged (w_env s) (remoteTag (m_remoteConfig s)) (loadingBinaryName s) s" by (simp add: tagged_def)
  moreover obtain b where b: "begin_instance s = (Inr (), b)" using begin_instance_ok by blast
  ultimately have "tagged (w_env s) ?tag name b"
    using movesD[OF begin_instance_moves[OF assms(1,2)]] by blast
  then have "tagged (w_env s) ?tag name u"
    using movesD[OF moves_keeps[OF keeps_tagged_LoadRules], of "w_env s" ?tag name b junk st u] assms(3) b by simp
  then obtain v where v: "personalise_tag u = (Inr (), v)" "tagged (w_env s) ?all name v"
    "bRedirect (m_remoteConfig v) = bRedirect (m_remoteConfig u)"
    using personalise_tag_spec by fastforce
  then obtain w where w: "silence_logging v = (Inr (), w)" "tagged (w_env s) ?all name w"
    "bRedirect (m_remoteConfig w) = bRedirect (m_remoteConfig v)"
    using silence_logging_spec by blast
  have conn: "connect_if_redirected w = (Inr (), w)"
    using w(3) v(3) assms(4) by (simp add: connect_if_redirected_def bindA_unfold)
  let ?log = "bLOG_EXCHANGED_APDU (m_winscardConfig w)"
  obtain l where l: "(if ?log then modA (\<lambda>s. append_file (WINSCARD_LOG s) (''[begin]'' @ [NL]) s) else returnA ()) w = (Inr (), l)"
    "visible l = visible w"
    by (cases ?log) simp_all
  obtain ok m' x where i: "initialize LoadLibrary m l = (Inr (ok, m'), x)" "visible x = visible l"
    "ok \<longleftrightarrow> (\<exists>f. LoadLibrary ''original64.dll'' = Some f \<and> library_complete f)"
    using initialize_total[of LoadLibrary m l] by blast
  let ?t = "LogDebugString ((if ok then ''true'' else ''false'') @ [NL]) False
    (LogDebugString ''Finalizing InitInstance with status: '' True x)"
  have "visible ?t = visible w" using i(2) l(2) by simp
  then have "tagged (w_env s) ?all name ?t" using w(2) tagged_visible by blast
  moreover have "LoadRules junk b = (Inr st, u)" using assms(3) b by simp
  then have "InitInstance junk LoadLibrary m s = (Inr (ok, m'), ?t)"
    using b v(1) w(1) conn l(1) i(1) by (simp only: InitInstance_def bindA_simps(2) bindA_unfold prod.case act_simps)
  ultimately show ?thesis using i(3) by (auto simp: tagged_def)
qed

definition started_app :: app where
  "started_app = quiet_app\<lparr>w_env := quiet_env\<lparr>file_text := [RULE_FILE \<mapsto> ''['' @ [NL]],
     module_file_name := Some ([CHR ''c'', CHR '':'', BS] @ ''app.exe''),
     env_var := [''APDUPLAY_REMOTE_TAG'' \<mapsto> '';id=7'']\<rparr>\<rparr>"

theorem init_instance_identifies_witness:
  "\<exists>m' t. InitInstance 0 (\<lambda>_. Some winscard_dll) Map.empty started_app = (Inr (True, m'), t) \<and>
     loadingBinaryName t = ''app.exe'' \<and> remoteTag (m_remoteConfig t) = ''binary=app.exe;id=7''"
proof -
  let ?path = "[CHR ''c'', CHR '':'', BS] @ ''app.exe''"
  have path: "module_file_name (w_env started_app) = Some ?path" by (simp add: started_app_def)
  have name: "binary_name (c_str ?path) = Some ''app.exe''"
    by (simp add: binary_name_def BS_def find_last_idx_def)
  let ?u = "snd (begin_instance started_app)"
  have u: "w_env ?u = w_env started_app" "m_winscardConfig ?u = m_winscardConfig started_app"
    "\<not> bRedirect (m_remoteConfig ?u)" "INSTRUCTION_FILE ?u = ''Instructions.txt''"
    by (simp_all add: started_app_def begin_instance_def set_debug_file_def identify_application_def Reg_GetEnvVariable_def
        bindA_unfold quiet_env_def path name[simplified] upd_remote_def quiet_app_def app_init_def REMOTE_CONFIG_new_def)
  have broken: "iniparser_load (Some (''['' @ [NL])) = None" by code_simp
  obtain v where v: "LoadRules 0 ?u = (Inr STAT_OK, v)" "m_remoteConfig v = m_remoteConfig ?u"
    using broken_rules_file_activates[of ?u "''['' @ [NL]" 0] broken u(1,2,4)
    by (auto simp: started_app_def quiet_app_def app_init_def WINSCARD_CONFIG_new_def WINSCARD_CONFIG_clear_def RULE_FILE_def)
  have "\<not> bRedirect (m_remoteConfig v)" using v(2) u(3) by simp
  from init_instance_identifies[OF path name v(1) this, of "\<lambda>_. Some winscard_dll" Map.empty]
  show ?thesis using winscard_dll_complete
    by (auto simp: started_app_def quiet_app_def app_init_def REMOTE_CONFIG_new_def)
qed

end
