(* ===== verification/Remote_Session.thy ===== *)
theory Remote_Session
  imports Transmit Card_Handles
begin

text \<open>
  A whole session of an application with a remote card: connecting to a virtual reader and then
  transmitting commands one after the other. It composes the reader maps of \<open>SCardConnect\<close>, the
  request protocol of the \<open>Remote_\<close> functions with its running command identifiers, and the
  transmission of single commands.
\<close>

subsection \<open>What travels\<close>

text \<open>
  The lines a proxy sends when it answers each \<open>APDU\<close> request, and the requests it is sent; \<open>i\<close> is the last
  command identifier in use.
\<close>

fun apdu_answers :: "dword \<Rightarrow> bool \<Rightarrow> byte list list \<Rightarrow> recv_event list" where
  "apdu_answers i sp [] = []"
| "apdu_answers i sp (r # rs) =
     map RecvByte (proxy_response (i + 2) (BYTE_ConvertFromArrayToHexString r sp) @ [NL]) @ apdu_answers (i + 2) sp rs"

fun apdu_requests :: "string \<Rightarrow> dword \<Rightarrow> byte list list \<Rightarrow> string list" where
  "apdu_requests reader i [] = []"
| "apdu_requests reader i (cmd # cmds) =
     (Remote_FormatRequest reader (i + 2) ''APDU'' (BYTE_ConvertFromArrayToHexString cmd False) [] CMD_LINE_SEPARATOR @ [NL]) #
     apdu_requests reader (i + 2) cmds"

text \<open>The application's loop: it stops when a call does not return.\<close>

fun transmit_all where
  "transmit_all orig fr h spci rpci rbuf pcb [] s = Some ([], s)"
| "transmit_all orig fr h spci rpci rbuf pcb (cmd # cmds) s =
     (case SCardTransmit orig fr h spci cmd (of_nat (length cmd)) rpci rbuf pcb s of
        Some (Inr r, t) \<Rightarrow> map_option (\<lambda>(rs, u). (r # rs, u)) (transmit_all orig fr h spci rpci rbuf pcb cmds t)
      | _ \<Rightarrow> None)"

subsection \<open>A connected card\<close>

text \<open>
  The card of \<open>reader\<close> behind the handle \<open>h\<close> can be reached through socket \<open>p\<close>, and nothing in the
  configuration changes what is transmitted.
\<close>

definition card_ready :: "sockid \<Rightarrow> handle \<Rightarrow> string \<Rightarrow> app \<Rightarrow> bool" where
  "card_ready p h reader s \<longleftrightarrow> remoteReadersMap s h \<noteq> None \<and> cardReaderMap s h = Some reader \<and> rules_idle s \<and>
     \<not> bAUTO_REQUEST_DATA (m_winscardConfig s) \<and>
     \<not> (bLOG_EXCHANGED_APDU (m_winscardConfig s) \<and> bLOG_WRITE_DESCRIPTION (m_winscardConfig s)) \<and> has_socket p s"

definition exchange_ok :: "byte list \<Rightarrow> byte list \<times> byte list \<Rightarrow> bool" where
  "exchange_ok rbuf x \<longleftrightarrow> length (fst x) \<le> MAX_APDU_LENGTH \<and> 2 \<le> length (snd x) \<and> length (snd x) \<le> 260 \<and>
     length (snd x) \<le> length rbuf"

lemma transmit_ready:
  assumes "card_ready p h reader s" and "exchange_ok rbuf (cmd, r)"
    and "w_rx s = map RecvByte (proxy_response (nextCommandID (m_remoteConfig s) + 2) (BYTE_ConvertFromArrayToHexString r sp) @ [NL]) @ es"
  shows "\<exists>t. SCardTransmit orig fr h spci cmd (of_nat (length cmd)) rpci rbuf pcb s =
      Some (Inr (SCARD_S_SUCCESS, rpci, blit rbuf 0 r, of_nat (length r)), t) \<and>
    card_ready p h reader t \<and> nextCommandID (m_remoteConfig t) = nextCommandID (m_remoteConfig s) + 2 \<and> w_rx t = es \<and>
    w_tx t = w_tx s @ apdu_requests reader (nextCommandID (m_remoteConfig s)) [cmd]"
proof -
  have n: "unat (of_nat (length cmd) :: dword) = length cmd"
    using assms(2) by (simp add: exchange_ok_def MAX_APDU_LENGTH_def unat_of_nat take_bit_eq_mod)
  show ?thesis
    using remote_transmit_run[of s h reader "of_nat (length cmd)" cmd p r sp es rbuf orig fr spci rpci pcb] assms n
    by (auto simp: card_ready_def exchange_ok_def loggable_def rules_idle_def)
qed

lemma transmit_all_ready:
  assumes "card_ready p h reader s" and "list_all (exchange_ok rbuf) xs"
    and "w_rx s = apdu_answers (nextCommandID (m_remoteConfig s)) sp (map snd xs) @ es"
  shows "\<exists>t. transmit_all orig fr h spci rpci rbuf pcb (map fst xs) s =
      Some (map (\<lambda>x. (SCARD_S_SUCCESS, rpci, blit rbuf 0 (snd x), of_nat (length (snd x)))) xs, t) \<and> w_rx t = es \<and>
    w_tx t = w_tx s @ apdu_requests reader (nextCommandID (m_remoteConfig s)) (map fst xs)"
  using assms
proof (induction xs arbitrary: s)
  case (Cons x xs)
  obtain cmd r where x: "x = (cmd, r)" by (cases x)
  have ok: "exchange_ok rbuf (cmd, r)" using Cons.prems(2) by (simp add: x)
  have rx: "w_rx s = map RecvByte (proxy_response (nextCommandID (m_remoteConfig s) + 2)
      (BYTE_ConvertFromArrayToHexString r sp) @ [NL]) @ (apdu_answers (nextCommandID (m_remoteConfig s) + 2) sp (map snd xs) @ es)"
    using Cons.prems(3) by (simp add: x)
  obtain t where t: "SCardTransmit orig fr h spci cmd (of_nat (length cmd)) rpci rbuf pcb s =
      Some (Inr (SCARD_S_SUCCESS, rpci, blit rbuf 0 r, of_nat (length r)), t)" "card_ready p h reader t"
    "nextCommandID (m_remoteConfig t) = nextCommandID (m_remoteConfig s) + 2"
    "w_rx t = apdu_answers (nextCommandID (m_remoteConfig s) + 2) sp (map snd xs) @ es"
    "w_tx t = w_tx s @ apdu_requests reader (nextCommandID (m_remoteConfig s)) [cmd]"
    using transmit_ready[OF Cons.prems(1) ok rx, of orig fr spci rpci pcb] by blast
  obtain u where u: "transmit_all orig fr h spci rpci rbuf pcb (map fst xs) t =
      Some (map (\<lambda>x. (SCARD_S_SUCCESS, rpci, blit rbuf 0 (snd x), of_nat (length (snd x)))) xs, u)" "w_rx u = es"
    "w_tx u = w_tx t @ apdu_requests reader (nextCommandID (m_remoteConfig t)) (map fst xs)"
    using Cons.IH[OF t(2)] Cons.prems(2) t(3,4) by auto
  then show ?case using t(1,3,5) by (simp add: x)
qed simp


text \<open>Connecting to a virtual reader asks the proxy for the ATR and leaves a ready card.\<close>

lemma connect_ready:
  assumes "IsRemoteReader reader s" and "has_socket p s" and "rules_idle s" and "\<not> bAUTO_REQUEST_DATA (m_winscardConfig s)"
    and "\<not> (bLOG_EXCHANGED_APDU (m_winscardConfig s) \<and> bLOG_WRITE_DESCRIPTION (m_winscardConfig s))"
    and "w_rx s = map RecvByte (proxy_response (nextCommandID (m_remoteConfig s) + 1) atr @ [NL]) @ es"
    and "CHR ''@'' \<notin> set atr" and "NL \<notin> set atr"
  shows "\<exists>h t. SCardConnectA orig hContext reader mode prots h0 p0 s = (Inr (SCARD_S_SUCCESS, h, p0), t) \<and>
    card_ready p h reader t \<and> nextCommandID (m_remoteConfig t) = nextCommandID (m_remoteConfig s) + 1 \<and> w_rx t = es \<and>
    w_tx t = w_tx s @ [Remote_FormatRequest reader (nextCommandID (m_remoteConfig s) + 1) ''RESET'' [] [] CMD_LINE_SEPARATOR @ [NL]]"
proof -
  let ?s1 = "registered reader s" and ?h = "ucast (m_nextRemoteCardID s + 1) :: handle"
  have r: "m_remoteConfig ?s1 = m_remoteConfig s" "w_rx ?s1 = w_rx s" "w_tx ?s1 = w_tx s" "w_live ?s1 = w_live s"
    "m_winscardConfig ?s1 = m_winscardConfig s" "m_bRulesActive ?s1 = m_bRulesActive s"
    by (simp_all add: registered_def Let_def)
  have sock: "has_socket p ?s1" using assms(2) by (simp add: has_socket_def r)
  have rx: "w_rx ?s1 = map RecvByte (proxy_response (nextCommandID (m_remoteConfig ?s1) + 1) atr @ [NL]) @ es"
    using assms(6) by (simp add: r)
  let ?u = "exchanged reader ''RESET'' [] es ?s1"
  have "Remote_SCardConnect reader [] ?s1 = (Inr (SCARD_S_SUCCESS, atr), ?u)"
    using Remote_SendRequest_answered[OF sock rx assms(7,8), of reader "''RESET''" "[]" "[]"] assms(2)
    by (simp add: Remote_SCardConnect_def tryA_def bindA_unfold has_socket_def r)
  note c = this
  show ?thesis
    unfolding connect_remote_eq[OF assms(1) c]
    using assms(2-5) registered_core[OF c] core_eqD(4,9)[of ?u ?s1] keeps_coreD[OF keeps_core_connect, of reader "[]" ?s1]
    by (auto simp: card_ready_def c rules_idle_def has_socket_def r)
qed

lemma session_run:
  assumes "IsRemoteReader reader s" and "has_socket p s" and "rules_idle s" and "\<not> bAUTO_REQUEST_DATA (m_winscardConfig s)"
    and "\<not> (bLOG_EXCHANGED_APDU (m_winscardConfig s) \<and> bLOG_WRITE_DESCRIPTION (m_winscardConfig s))"
    and "list_all (exchange_ok rbuf) xs" and "CHR ''@'' \<notin> set atr" and "NL \<notin> set atr"
    and "w_rx s = map RecvByte (proxy_response (nextCommandID (m_remoteConfig s) + 1) atr @ [NL]) @
      apdu_answers (nextCommandID (m_remoteConfig s) + 1) sp (map snd xs) @ es"
  shows "\<exists>h t u. SCardConnectA None hContext reader mode prots h0 p0 s = (Inr (SCARD_S_SUCCESS, h, p0), t) \<and>
    transmit_all (None :: (nat \<Rightarrow> ('i, 'j) transmit_fn) option) fr h spci rpci rbuf pcb (map fst xs) t =
      Some (map (\<lambda>x. (SCARD_S_SUCCESS, rpci, blit rbuf 0 (snd x), of_nat (length (snd x)))) xs, u) \<and>
    w_rx u = es \<and>
    w_tx u = w_tx s @ (Remote_FormatRequest reader (nextCommandID (m_remoteConfig s) + 1) ''RESET'' [] [] CMD_LINE_SEPARATOR @ [NL]) #
      apdu_requests reader (nextCommandID (m_remoteConfig s) + 1) (map fst xs)"
proof -
  obtain h t where t: "SCardConnectA None hContext reader mode prots h0 p0 s = (Inr (SCARD_S_SUCCESS, h, p0), t)"
    "card_ready p h reader t" "nextCommandID (m_remoteConfig t) = nextCommandID (m_remoteConfig s) + 1"
    "w_rx t = apdu_answers (nextCommandID (m_remoteConfig s) + 1) sp (map snd xs) @ es"
    "w_tx t = w_tx s @ [Remote_FormatRequest reader (nextCommandID (m_remoteConfig s) + 1) ''RESET'' [] [] CMD_LINE_SEPARATOR @ [NL]]"
    using connect_ready[OF assms(1-5,9,7,8)] by blast
  have rx: "w_rx t = apdu_answers (nextCommandID (m_remoteConfig t)) sp (map snd xs) @ es" using t(3,4) by simp
  show ?thesis using transmit_all_ready[OF t(2) assms(6) rx] t(1,3,5) by fastforce
qed

text \<open>
  A session with a remote card. After connecting to a virtual reader through a live proxy connection,
  without rules and read-out, an application that transmits commands one after the other receives from
  each call exactly the bytes with which the proxy answers that command; on the wire go one \<open>RESET\<close> and
  one \<open>APDU\<close> request per command, in order, for that reader and with identifiers that grow as the proxy's
  answers ask; nothing the proxy sent is lost or left over, and the original library is not involved.
\<close>

theorem remote_session:
  assumes "IsRemoteReader reader s" and "has_socket p s" and "rules_idle s" and "\<not> bAUTO_REQUEST_DATA (m_winscardConfig s)"
    and "\<not> (bLOG_EXCHANGED_APDU (m_winscardConfig s) \<and> bLOG_WRITE_DESCRIPTION (m_winscardConfig s))"
    and "list_all (exchange_ok rbuf) xs" and "CHR ''@'' \<notin> set atr" and "NL \<notin> set atr"
    and "w_rx s = map RecvByte (proxy_response (nextCommandID (m_remoteConfig s) + 1) atr @ [NL]) @
      apdu_answers (nextCommandID (m_remoteConfig s) + 1) sp (map snd xs) @ es"
  shows "\<exists>h t u. SCardConnectA None hContext reader mode prots h0 p0 s = (Inr (SCARD_S_SUCCESS, h, p0), t) \<and>
    transmit_all (None :: (nat \<Rightarrow> ('i, 'j) transmit_fn) option) fr h spci rpci rbuf pcb (map fst xs) t =
      Some (map (\<lambda>x. (SCARD_S_SUCCESS, rpci, blit rbuf 0 (snd x), of_nat (length (snd x)))) xs, u) \<and>
    w_rx u = es \<and>
    w_tx u = w_tx s @ (Remote_FormatRequest reader (nextCommandID (m_remoteConfig s) + 1) ''RESET'' [] [] CMD_LINE_SEPARATOR @ [NL]) #
      apdu_requests reader (nextCommandID (m_remoteConfig s) + 1) (map fst xs)"
  by (rule session_run[OF assms])

definition session_exchanges :: "(byte list \<times> byte list) list" where
  "session_exchanges = [([0x00, 0xA4, 0x04, 0x00], [0x90, 0x00]), ([0x00, 0xB0, 0x00, 0x00], [0x6A, 0x82])]"

definition session_app :: app where
  "session_app = (connected_app (map RecvByte (proxy_response 2 ''3B00'' @ [NL]) @ apdu_answers 2 False (map snd session_exchanges)))
     \<lparr>m_winscardConfig := (m_winscardConfig quiet_app)\<lparr>listVIRTUAL_READERS := [''Simona'']\<rparr>\<rparr>"

theorem remote_session_witness:
  "\<exists>h t u. SCardConnectA None 0 ''Simona'' 2 3 0 9 session_app = (Inr (SCARD_S_SUCCESS, h, 9), t) \<and>
     transmit_all (None :: (nat \<Rightarrow> (unit, unit) transmit_fn) option) zero_frame h () () [0, 0, 0] 3
       [[0x00, 0xA4, 0x04, 0x00], [0x00, 0xB0, 0x00, 0x00]] t =
       Some ([(SCARD_S_SUCCESS, (), [0x90, 0x00, 0], 2), (SCARD_S_SUCCESS, (), [0x6A, 0x82, 0], 2)], u) \<and> w_rx u = []"
proof -
  have s: "IsRemoteReader ''Simona'' session_app" "has_socket 0 session_app" "rules_idle session_app"
    "\<not> bAUTO_REQUEST_DATA (m_winscardConfig session_app)"
    "\<not> (bLOG_EXCHANGED_APDU (m_winscardConfig session_app) \<and> bLOG_WRITE_DESCRIPTION (m_winscardConfig session_app))"
    by (simp_all add: session_app_def connected_app_def IsRemoteReader_def has_socket_def rules_idle_def quiet_app_def
        app_init_def REMOTE_CONFIG_new_def WINSCARD_CONFIG_new_def WINSCARD_CONFIG_clear_def)
  have id: "nextCommandID (m_remoteConfig session_app) + 1 = 2"
    by (simp add: session_app_def connected_app_def REMOTE_CONFIG_new_def)
  have xs: "list_all (exchange_ok [0, 0, 0]) session_exchanges"
    by (simp add: session_exchanges_def exchange_ok_def MAX_APDU_LENGTH_def)
  have atr: "CHR ''@'' \<notin> set ''3B00''" "NL \<notin> set ''3B00''" by simp_all
  have rx: "w_rx session_app = map RecvByte (proxy_response (nextCommandID (m_remoteConfig session_app) + 1) ''3B00'' @ [NL]) @
      apdu_answers (nextCommandID (m_remoteConfig session_app) + 1) False (map snd session_exchanges) @ []"
    unfolding id by (simp add: session_app_def connected_app_def)
  have v: "map fst session_exchanges = [[0x00, 0xA4, 0x04, 0x00], [0x00, 0xB0, 0x00, 0x00]]"
    "map (\<lambda>x. (SCARD_S_SUCCESS, (), blit [0, 0, 0] 0 (snd x), of_nat (length (snd x)))) session_exchanges =
      [(SCARD_S_SUCCESS, (), [0x90, 0x00, 0], 2 :: dword), (SCARD_S_SUCCESS, (), [0x6A, 0x82, 0], 2)]"
    by (simp_all add: session_exchanges_def blit_def)
  from remote_session[OF s xs atr rx, of 0 2 3 0 9 zero_frame "()" "()" 3]
  show ?thesis unfolding v by blast
qed

end
