(* ===== verification/Proxy_Start.thy ===== *)
theory Proxy_Start
  imports Config_File Lib_Loader Remote_Session
begin

text \<open>
  The start of the library with redirection to a proxy, and the program as a whole: from the text of the
  configuration file over the connection made by \<open>InitInstance\<close> to the answers an application gets for the
  commands it transmits to a virtual reader.
\<close>

subsection \<open>The state during the start\<close>

type_synonym world =
  "environment \<times> conn_event list \<times> recv_event list \<times> string list \<times> (string \<times> 16 word) list \<times> sockid list \<times> sockid"

definition started :: "file_conf \<Rightarrow> world \<Rightarrow> bool \<Rightarrow> app \<Rightarrow> bool" where
  "started conf out active s \<longleftrightarrow> file_conf s = conf \<and> outside s = out \<and> m_bRulesActive s = active"

lemma started_visible: "visible t = visible s \<Longrightarrow> started conf out a t = started conf out a s"
proof -
  assume eq: "visible t = visible s"
  have "f (visible t) = f (visible s)" for f :: "app \<Rightarrow> 'x" using eq by simp
  from this[of file_conf] this[of outside] this[of m_bRulesActive] show ?thesis
    by (simp add: started_def visible_def file_conf_def outside_def)
qed

definition file_port :: "REMOTE_CONFIG \<Rightarrow> 16 word" where
  "file_port r = word_of_int (strtol 10 (c_str (rc_port r)))"

definition personalization :: "REMOTE_CONFIG \<Rightarrow> string" where
  "personalization r = Remote_FormatRequest NO_READER (nextCommandID r + 1) ''PERSONALIZE'' (remoteTag r) [] CMD_LINE_SEPARATOR @ [NL]"

subsection \<open>The steps of the start\<close>

lemma begin_started:
  assumes "module_file_name (w_env s) = Some path" and "binary_name (c_str path) = Some name"
  shows "\<exists>u. begin_instance s = (Inr (), u) \<and>
    started (m_winscardConfig s, (m_remoteConfig s)\<lparr>remoteTag := remoteTag (m_remoteConfig s) @ ''binary='' @ name\<rparr>, rulesList s)
      (outside s) (m_bRulesActive s) u"
proof -
  obtain e where e: "Reg_GetEnvVariable ''APDUPLAY_DEBUG'' s = (Inr (env_var (w_env s) ''APDUPLAY_DEBUG''), e)" "visible e = visible s"
    using env_read by blast
  have "started (file_conf s) (outside s) (m_bRulesActive s) s" by (simp add: started_def)
  then have s: "started (file_conf s) (outside s) (m_bRulesActive s) e" using started_visible[OF e(2)] by blast
  have "\<exists>v. set_debug_file s = (Inr (), v) \<and> started (file_conf s) (outside s) (m_bRulesActive s) v"
    using s by (cases "env_var (w_env s) ''APDUPLAY_DEBUG''")
      (simp_all add: set_debug_file_def e(1) started_def file_conf_def outside_def)
  then obtain v where v: "set_debug_file s = (Inr (), v)" "started (file_conf s) (outside s) (m_bRulesActive s) v" by blast
  then show ?thesis
    using assms by (simp add: begin_instance_def v(1) bindA_unfold identify_application_def upd_remote_def started_def file_conf_def outside_def)
qed

lemma personalise_started:
  assumes "started (c, r, rs) (env, out) a s"
  shows "\<exists>u. personalise_tag s = (Inr (), u) \<and>
    started (c, r\<lparr>remoteTag := remoteTag r @ (case env_var env ''APDUPLAY_REMOTE_TAG'' of None \<Rightarrow> [] | Some v \<Rightarrow> c_str v)\<rparr>, rs) (env, out) a u"
proof -
  have env: "w_env s = env" using assms by (simp add: started_def outside_def)
  obtain u where u: "Reg_GetEnvVariable ''APDUPLAY_REMOTE_TAG'' s = (Inr (env_var env ''APDUPLAY_REMOTE_TAG''), u)"
    "visible u = visible s"
    using env_read[of _ s] unfolding env by blast
  have "started (c, r, rs) (env, out) a u" using assms started_visible[OF u(2)] by blast
  then show ?thesis
    by (cases "env_var env ''APDUPLAY_REMOTE_TAG''")
      (auto simp: personalise_tag_def u(1) upd_remote_def started_def file_conf_def outside_def)
qed

lemma silence_started:
  assumes "started (c, r, rs) (env, out) a s"
  shows "\<exists>u. silence_logging s = (Inr (), u) \<and>
    started (c, r\<lparr>bDisableLogging := bDisableLogging r \<or> env_var env ''APDUPLAY_DISABLE_LOGGING'' \<noteq> None\<rparr>, rs) (env, out) a u"
proof -
  have env: "w_env s = env" using assms by (simp add: started_def outside_def)
  obtain u where u: "Reg_GetEnvVariable ''APDUPLAY_DISABLE_LOGGING'' s = (Inr (env_var env ''APDUPLAY_DISABLE_LOGGING''), u)"
    "visible u = visible s"
    using env_read[of _ s] unfolding env by blast
  have "started (c, r, rs) (env, out) a u" using assms started_visible[OF u(2)] by blast
  then show ?thesis
    by (cases "env_var env ''APDUPLAY_DISABLE_LOGGING''")
      (auto simp: silence_logging_def u(1) bindA_unfold upd_remote_def started_def file_conf_def outside_def)
qed

text \<open>
  The trial connection is closed again; the personalisation request opens the connection that stays.
\<close>

lemma send_opens_socket:
  assumes "pSocket (m_remoteConfig s) = None" and "open_socket s = (Inr (), u)" and "has_socket p u"
  shows "Remote_SendRequest r c d resp s = Remote_SendRequest r c d resp u"
proof -
  have "bOpenSocketForEveryCommand (m_remoteConfig s) = bOpenSocketForEveryCommand (m_remoteConfig u)"
    using assms(2) by (auto simp: open_socket_def bindA_def new_SocketClient_def Let_def split: list.splits conn_event.splits)
  then have "request_socket s = (Inr (), u)" "request_socket u = (Inr (), u)"
    using assms by (simp_all add: request_socket_def bindA_unfold has_socket_def)
  then show ?thesis by (simp add: Remote_SendRequest_def tryA_def bindA_def)
qed

lemma open_started:
  assumes "started (c, r, rs) (env, ConnOk # cs, rx, tx, dialed, live, n) a s"
  shows "\<exists>u. open_socket s = (Inr (), u) \<and>
    started (c, r\<lparr>pSocket := Some n\<rparr>, rs) (env, cs, rx, tx, dialed @ [(rc_IP r, file_port r)], n # live, n + 1) a u"
  using assms by (simp add: open_socket_def bindA_def new_SocketClient_def started_def file_conf_def outside_def Let_def
      file_port_def upd_remote_def)

lemma started_log: "started x y a (LogDebugString m b s) = started x y a s"
  by (simp add: started_def file_conf_def outside_def)

lemma started_remote: "started (c, r, rs) y a s \<Longrightarrow> m_remoteConfig s = r"
  by (simp add: started_def file_conf_def)

lemma connect_started:
  assumes s: "started (c, r, rs) (env, ConnOk # ConnOk # cs, map RecvByte (proxy_response (nextCommandID r + 1) payload @ [NL]) @ es,
      tx, dialed, live, n) a s"
    and "remoteTag r \<noteq> []" and "\<not> bOpenSocketForEveryCommand r" and "CHR ''@'' \<notin> set payload" and "NL \<notin> set payload"
  shows "\<exists>u. Remote_Connect s = (Inr STAT_OK, u) \<and>
    started (c, r\<lparr>pSocket := Some (n + 1), nextCommandID := nextCommandID r + 1\<rparr>, rs)
      (env, cs, es, tx @ [personalization r], dialed @ [(rc_IP r, file_port r), (rc_IP r, file_port r)],
       (n + 1) # removeAll n live, n + 2) a u"
proof -
  let ?rx = "map RecvByte (proxy_response (nextCommandID r + 1) payload @ [NL]) @ es" and ?dialed = "dialed @ [(rc_IP r, file_port r)]"
  let ?s1 = "LogDebugString (''Connnecting to remote proxy with IP:port = '' @ connect_text s @ '' ... '') True s"
  obtain t where t: "open_socket ?s1 = (Inr (), t)"
    "started (c, r\<lparr>pSocket := Some n\<rparr>, rs) (env, ConnOk # cs, ?rx, tx, ?dialed, n # live, n + 1) a t"
    using open_started[of c r rs env "ConnOk # cs" ?rx tx dialed live n a ?s1] s unfolding started_log by blast
  let ?t1 = "LogDebugString (''success'' @ [NL]) False t"
  have live: "n \<in> set (w_live ?t1)" using t(2) by (simp add: started_def outside_def)
  let ?t2 = "?t1\<lparr>w_live := removeAll n (w_live ?t1)\<rparr>"
  have close: "Socket_Close n ?t1 = (Inr (), ?t1)" "delete_Socket n ?t1 = (Inr (), ?t2)"
    using live by (simp_all add: Socket_Close_def deref_Socket_def delete_Socket_def)
  let ?t3 = "upd_remote (\<lambda>c. c\<lparr>pSocket := None\<rparr>) ?t2"
  let ?t4 = "LogDebugString (''Sending personalization string to remote proxy '' @ [CHR 0x27] @ c_str (remoteTag r) @ [CHR 0x27, NL]) True ?t3"
  have "started (c, r\<lparr>pSocket := None\<rparr>, rs) (env, ConnOk # cs, ?rx, tx, ?dialed, removeAll n live, n + 1) a ?t4"
    using t(2) unfolding started_log by (simp add: started_def file_conf_def outside_def upd_remote_def)
  note t4 = this
  obtain u where u: "open_socket ?t4 = (Inr (), u)"
    "started (c, r\<lparr>pSocket := Some (n + 1)\<rparr>, rs) (env, cs, ?rx, tx, ?dialed @ [(rc_IP r, file_port r)], (n + 1) # removeAll n live, n + 2) a u"
    using open_started[OF t4] by (auto simp: file_port_def)
  have sock: "has_socket (n + 1) u" using u(2) assms(3) by (simp add: has_socket_def started_def file_conf_def outside_def)
  have rx: "w_rx u = map RecvByte (proxy_response (nextCommandID (m_remoteConfig u) + 1) payload @ [NL]) @ es"
    using u(2) by (simp add: started_def file_conf_def outside_def)
  let ?e = "exchanged NO_READER ''PERSONALIZE'' (remoteTag r) es u"
  have req: "Remote_SendRequest NO_READER ''PERSONALIZE'' (remoteTag r) [] ?t4 = (Inr (SCARD_S_SUCCESS, payload), ?e)"
    using Remote_SendRequest_answered[OF sock rx assms(4,5)] send_opens_socket[OF _ u(1) sock] started_remote[OF t4] by simp
  have "Remote_Connect s = (Inr STAT_OK, ?e)"
    unfolding Remote_Connect_def
  proof (rule tryA_Inr)
    have r: "pSocket (m_remoteConfig t) = Some n" "remoteTag (m_remoteConfig t) = remoteTag r" "0 < length (remoteTag r)"
      using started_remote[OF t(2)] assms(2) by simp_all
    show "bindA (modA (\<lambda>s. LogDebugString
            (''Connnecting to remote proxy with IP:port = '' @ connect_text s @ '' ... '') True s)) (\<lambda>_.
        bindA open_socket (\<lambda>_.
        bindA (getA m_remoteConfig) (\<lambda>c.
        bindA (debugA ((if pSocket c \<noteq> None then ''success'' else ''failed'') @ [NL]) False) (\<lambda>_.
        bindA (case pSocket c of None \<Rightarrow> failA Null_Deref
               | Some p \<Rightarrow> bindA (Socket_Close p) (\<lambda>_. delete_Socket p)) (\<lambda>_.
        bindA (modA (upd_remote (\<lambda>c. c\<lparr>pSocket := None\<rparr>))) (\<lambda>_.
        bindA (if length (remoteTag c) > 0 then
                 bindA (debugA (''Sending personalization string to remote proxy '' @ [CHR 0x27] @
                                c_str (remoteTag c) @ [CHR 0x27, NL]) True) (\<lambda>_.
                 bindA (Remote_SendRequest NO_READER ''PERSONALIZE'' (remoteTag c) []) (\<lambda>_. returnA ()))
               else returnA ()) (\<lambda>_.
        returnA STAT_OK))))))) s = (Inr STAT_OK, ?e)"
      using t(1) close req
      by (simp only: bindA_unfold bindA_simps(2) act_simps r option.case option.distinct not_False_eq_True if_True)
  qed
  moreover have "started (c, r\<lparr>pSocket := Some (n + 1), nextCommandID := nextCommandID r + 1\<rparr>, rs)
      (env, cs, es, tx @ [personalization r], dialed @ [(rc_IP r, file_port r), (rc_IP r, file_port r)],
       (n + 1) # removeAll n live, n + 2) a ?e"
    using u(2) by (simp add: exchanged_def started_def file_conf_def outside_def Let_def upd_remote_def personalization_def)
  ultimately show ?thesis by blast
qed

text \<open>Settings do not touch the tag.\<close>

lemma remote_meaning_tag: "remote_meaning x (r\<lparr>remoteTag := g\<rparr>) = (remote_meaning x r)\<lparr>remoteTag := g\<rparr>"
  by (cases x) simp_all

lemma remote_settings_tag: "fold remote_meaning xs (r\<lparr>remoteTag := g\<rparr>) = (fold remote_meaning xs r)\<lparr>remoteTag := g\<rparr>"
  by (induction xs arbitrary: r) (simp_all add: remote_meaning_tag)

lemma parts_tag:
  "fold part_meaning parts (c, r, rs) = (c', r', rs') \<Longrightarrow>
   fold part_meaning parts (c, r\<lparr>remoteTag := g\<rparr>, rs) = (c', r'\<lparr>remoteTag := g\<rparr>, rs')"
proof (induction parts arbitrary: c r rs)
  case (Cons p parts)
  then show ?case by (cases p) (simp_all add: remote_settings_tag)
qed simp

lemma redirected_start_run:
  assumes "module_file_name (w_env s) = Some path" and "binary_name (c_str path) = Some name"
    and "file_text (w_env s) RULE_FILE = Some (print_ini (map part_section parts))" and "file_ok parts"
    and "length (measureApdu (m_remoteConfig s)) = 255" and "fold part_meaning parts (file_conf s) = (c, r, rs)"
    and "bRedirect r" and "\<not> bOpenSocketForEveryCommand r" and "w_conns s = ConnOk # ConnOk # cs"
    and "w_rx s = map RecvByte (proxy_response (nextCommandID r + 1) payload @ [NL]) @ es"
    and "CHR ''@'' \<notin> set payload" and "NL \<notin> set payload"
    and tag: "tag = remoteTag (m_remoteConfig s) @ ''binary='' @ name @
      (case env_var (w_env s) ''APDUPLAY_REMOTE_TAG'' of None \<Rightarrow> [] | Some v \<Rightarrow> c_str v)"
  shows "\<exists>ok m' t b d. InitInstance junk LoadLibrary m s = (Inr (ok, m'), t) \<and>
    (ok \<longleftrightarrow> (\<exists>f. LoadLibrary ''original64.dll'' = Some f \<and> library_complete f)) \<and>
    started (c\<lparr>bLOG_WRITE_DESCRIPTION := b\<rparr>,
        r\<lparr>remoteTag := tag, bDisableLogging := d, pSocket := Some (w_nextsock s + 1), nextCommandID := nextCommandID r + 1\<rparr>, rs)
      (w_env s, cs, es, w_tx s @ [personalization (r\<lparr>remoteTag := tag\<rparr>)],
       w_dialed s @ [(rc_IP r, file_port r), (rc_IP r, file_port r)],
       (w_nextsock s + 1) # removeAll (w_nextsock s) (w_live s), w_nextsock s + 2) True t"
proof -
  let ?tag0 = "remoteTag (m_remoteConfig s) @ ''binary='' @ name"
  let ?d = "bDisableLogging r \<or> env_var (w_env s) ''APDUPLAY_DISABLE_LOGGING'' \<noteq> None"
  let ?out = "(w_conns s, w_rx s, w_tx s, w_dialed s, w_live s, w_nextsock s)"
  obtain b where b: "begin_instance s = (Inr (), b)"
    "file_conf b = (m_winscardConfig s, (m_remoteConfig s)\<lparr>remoteTag := ?tag0\<rparr>, rulesList s)" "outside b = (w_env s, ?out)"
    using begin_started[OF assms(1,2)] by (auto simp: started_def outside_def[of s])
  have env: "w_env b = w_env s" using b(3) by (simp add: outside_def)
  have "m_remoteConfig b = (m_remoteConfig s)\<lparr>remoteTag := ?tag0\<rparr>" using b(2) by (simp add: file_conf_def)
  then have len: "length (measureApdu (m_remoteConfig b)) = 255" using assms(5) by simp
  have conf: "fold part_meaning parts (file_conf b) = (c, r\<lparr>remoteTag := ?tag0\<rparr>, rs)"
    unfolding b(2) by (rule parts_tag) (use assms(6) in \<open>simp add: file_conf_def\<close>)
  obtain l bb where l: "LoadRules junk b = (Inr STAT_OK, l)"
    "started (c\<lparr>bLOG_WRITE_DESCRIPTION := bb\<rparr>, r\<lparr>remoteTag := ?tag0\<rparr>, rs) (w_env s, ?out) True l"
    using load_configuration[OF assms(3)[folded env] assms(4) len conf, of junk] b(3) unfolding started_def by auto
  let ?c = "c\<lparr>bLOG_WRITE_DESCRIPTION := bb\<rparr>"
  obtain p where p: "personalise_tag l = (Inr (), p)" "started (?c, r\<lparr>remoteTag := tag\<rparr>, rs) (w_env s, ?out) True p"
    using personalise_started[OF l(2)] by (auto simp: tag)
  obtain q where q: "silence_logging p = (Inr (), q)"
    "started (?c, r\<lparr>remoteTag := tag, bDisableLogging := ?d\<rparr>, rs) (w_env s, ?out) True q"
    using silence_started[OF p(2)] by auto
  let ?r = "r\<lparr>remoteTag := tag, bDisableLogging := ?d\<rparr>"
  have "m_remoteConfig q = ?r" using q(2) by (simp add: started_def file_conf_def)
  then have redirect: "bRedirect (m_remoteConfig q)" using assms(7) by simp
  let ?q1 = "LogDebugString (''[REMOTE] Redirect = 1 => going to connect to specified socket (make sure socket is opened. If application terminates, try to set Redirect = 0 to disable remote redirecting)'' @ [NL]) True q"
  have "started (?c, ?r, rs) (w_env s, ConnOk # ConnOk # cs, map RecvByte (proxy_response (nextCommandID ?r + 1) payload @ [NL]) @ es,
      w_tx s, w_dialed s, w_live s, w_nextsock s) True ?q1"
    using q(2) assms(9,10) by (simp add: started_def file_conf_def outside_def)
  then obtain w where w: "Remote_Connect ?q1 = (Inr STAT_OK, w)"
    "started (?c, ?r\<lparr>pSocket := Some (w_nextsock s + 1), nextCommandID := nextCommandID ?r + 1\<rparr>, rs)
      (w_env s, cs, es, w_tx s @ [personalization ?r], w_dialed s @ [(rc_IP ?r, file_port ?r), (rc_IP ?r, file_port ?r)],
       (w_nextsock s + 1) # removeAll (w_nextsock s) (w_live s), w_nextsock s + 2) True w"
    using connect_started[OF _ _ _ assms(11,12), of ?c ?r rs] assms(8) unfolding tag by fastforce
  have cw: "connect_if_redirected q = (Inr (), w)"
    using redirect w(1) by (simp add: connect_if_redirected_def bindA_unfold)
  let ?log = "bLOG_EXCHANGED_APDU (m_winscardConfig w)"
  obtain x where x: "(if ?log then modA (\<lambda>s. append_file (WINSCARD_LOG s) (''[begin]'' @ [NL]) s) else returnA ()) w = (Inr (), x)"
    "visible x = visible w"
    by (cases ?log) simp_all
  obtain ok m' y where y: "initialize LoadLibrary m x = (Inr (ok, m'), y)" "visible y = visible x"
    "ok \<longleftrightarrow> (\<exists>f. LoadLibrary ''original64.dll'' = Some f \<and> library_complete f)"
    using initialize_total[of LoadLibrary m x] by blast
  let ?t = "LogDebugString ((if ok then ''true'' else ''false'') @ [NL]) False
    (LogDebugString ''Finalizing InitInstance with status: '' True y)"
  have "visible ?t = visible w" using y(2) x(2) by simp
  note same = started_visible[OF this]
  have run: "InitInstance junk LoadLibrary m s = (Inr (ok, m'), ?t)"
    using b(1) l(1) p(1) q(1) cw x(1) y(1) by (simp only: InitInstance_def bindA_simps(2) bindA_unfold prod.case act_simps)
  have last: "personalization ?r = personalization (r\<lparr>remoteTag := tag\<rparr>)" "file_port ?r = file_port r" "rc_IP ?r = rc_IP r"
    "?r\<lparr>pSocket := Some (w_nextsock s + 1), nextCommandID := nextCommandID ?r + 1\<rparr> =
      r\<lparr>remoteTag := tag, bDisableLogging := ?d, pSocket := Some (w_nextsock s + 1), nextCommandID := nextCommandID r + 1\<rparr>"
    by (simp_all add: personalization_def file_port_def)
  show ?thesis using run y(3) w(2) unfolding last same[symmetric] by blast
qed

subsection \<open>Properties\<close>

text \<open>The tag under which the proxy knows the application: the old one, its name and the personal part.\<close>

definition proxy_tag :: "string \<Rightarrow> app \<Rightarrow> string" where
  "proxy_tag name s = remoteTag (m_remoteConfig s) @ ''binary='' @ name @
     (case env_var (w_env s) ''APDUPLAY_REMOTE_TAG'' of None \<Rightarrow> [] | Some v \<Rightarrow> c_str v)"

text \<open>
  C2: The whole program as a gateway to a remote card. The configuration file redirects to a proxy, names a virtual
  reader and leaves rules and APDU logging off. Then \<open>InitInstance\<close> returns, with TRUE exactly for a complete original
  library, having dialled the configured address twice; after it an application connects to the virtual reader and
  receives for each command it transmits exactly the bytes of the proxy's answer. On the wire go the
  personalisation with the application's name, one \<open>RESET\<close>, and one \<open>APDU\<close> request per command, in this order with
  growing identifiers, and every byte the proxy sent is used.
\<close>

theorem configured_session:
  assumes "module_file_name (w_env s) = Some path" and "binary_name (c_str path) = Some name"
    and "file_text (w_env s) RULE_FILE = Some (print_ini (map part_section parts))" and "file_ok parts"
    and "length (measureApdu (m_remoteConfig s)) = 255" and "fold part_meaning parts (file_conf s) = (c, r, rs)"
    and "bRedirect r" and "\<not> bOpenSocketForEveryCommand r" and "w_conns s = ConnOk # ConnOk # cs"
    and "w_rx s = map RecvByte (proxy_response (nextCommandID r + 1) payload @ [NL]) @
      map RecvByte (proxy_response (nextCommandID r + 2) atr @ [NL]) @ apdu_answers (nextCommandID r + 2) sp (map snd xs) @ es"
    and "CHR ''@'' \<notin> set payload" and "NL \<notin> set payload" and "CHR ''@'' \<notin> set atr" and "NL \<notin> set atr"
    and "reader \<in> set (listVIRTUAL_READERS c)" and "\<not> bMODIFY_APDU_BY_RULES c" and "\<not> bAUTO_REQUEST_DATA c"
    and "\<not> bLOG_EXCHANGED_APDU c" and "list_all (exchange_ok rbuf) xs"
  shows "\<exists>ok m' t h u v. InitInstance junk LoadLibrary m s = (Inr (ok, m'), t) \<and>
    (ok \<longleftrightarrow> (\<exists>f. LoadLibrary ''original64.dll'' = Some f \<and> library_complete f)) \<and>
    w_dialed t = w_dialed s @ [(rc_IP r, file_port r), (rc_IP r, file_port r)] \<and>
    SCardConnectA None hContext reader mode prots h0 p0 t = (Inr (SCARD_S_SUCCESS, h, p0), u) \<and>
    transmit_all (None :: (nat \<Rightarrow> ('i, 'j) transmit_fn) option) fr h spci rpci rbuf pcb (map fst xs) u =
      Some (map (\<lambda>x. (SCARD_S_SUCCESS, rpci, blit rbuf 0 (snd x), of_nat (length (snd x)))) xs, v) \<and>
    w_rx v = es \<and>
    w_tx v = w_tx s @ personalization (r\<lparr>remoteTag := proxy_tag name s\<rparr>) #
      (Remote_FormatRequest reader (nextCommandID r + 2) ''RESET'' [] [] CMD_LINE_SEPARATOR @ [NL]) #
      apdu_requests reader (nextCommandID r + 2) (map fst xs)"
proof -
  let ?rx = "map RecvByte (proxy_response (nextCommandID r + 2) atr @ [NL]) @ apdu_answers (nextCommandID r + 2) sp (map snd xs) @ es"
  let ?r = "\<lambda>d. r\<lparr>remoteTag := proxy_tag name s, bDisableLogging := d, pSocket := Some (w_nextsock s + 1), nextCommandID := nextCommandID r + 1\<rparr>"
  obtain ok m' t b d where i: "InitInstance junk LoadLibrary m s = (Inr (ok, m'), t)"
    "ok \<longleftrightarrow> (\<exists>f. LoadLibrary ''original64.dll'' = Some f \<and> library_complete f)"
    "started (c\<lparr>bLOG_WRITE_DESCRIPTION := b\<rparr>, ?r d, rs)
      (w_env s, cs, ?rx, w_tx s @ [personalization (r\<lparr>remoteTag := proxy_tag name s\<rparr>)],
       w_dialed s @ [(rc_IP r, file_port r), (rc_IP r, file_port r)],
       (w_nextsock s + 1) # removeAll (w_nextsock s) (w_live s), w_nextsock s + 2) True t"
    using redirected_start_run[OF assms(1-12) proxy_tag_def] by blast
  have conf: "m_winscardConfig t = c\<lparr>bLOG_WRITE_DESCRIPTION := b\<rparr>" "m_remoteConfig t = ?r d"
    and out: "w_rx t = ?rx" "w_tx t = w_tx s @ [personalization (r\<lparr>remoteTag := proxy_tag name s\<rparr>)]"
    "w_dialed t = w_dialed s @ [(rc_IP r, file_port r), (rc_IP r, file_port r)]"
    "w_live t = (w_nextsock s + 1) # removeAll (w_nextsock s) (w_live s)"
    using i(3) by (simp_all add: started_def file_conf_def outside_def)
  have id: "nextCommandID (m_remoteConfig t) + 1 = nextCommandID r + 2" using conf(2) by (simp add: add.assoc)
  have ready: "IsRemoteReader reader t" "has_socket (w_nextsock s + 1) t" "rules_idle t" "\<not> bAUTO_REQUEST_DATA (m_winscardConfig t)"
    "\<not> (bLOG_EXCHANGED_APDU (m_winscardConfig t) \<and> bLOG_WRITE_DESCRIPTION (m_winscardConfig t))"
    using assms(8,15-18) conf out(4) by (simp_all add: IsRemoteReader_def has_socket_def rules_idle_def)
  have rx: "w_rx t = map RecvByte (proxy_response (nextCommandID (m_remoteConfig t) + 1) atr @ [NL]) @
      apdu_answers (nextCommandID (m_remoteConfig t) + 1) sp (map snd xs) @ es"
    unfolding id by (rule out(1))
  obtain h u v where w: "SCardConnectA None hContext reader mode prots h0 p0 t = (Inr (SCARD_S_SUCCESS, h, p0), u)"
    "transmit_all (None :: (nat \<Rightarrow> ('i, 'j) transmit_fn) option) fr h spci rpci rbuf pcb (map fst xs) u =
      Some (map (\<lambda>x. (SCARD_S_SUCCESS, rpci, blit rbuf 0 (snd x), of_nat (length (snd x)))) xs, v)"
    "w_rx v = es"
    "w_tx v = w_tx t @ (Remote_FormatRequest reader (nextCommandID r + 2) ''RESET'' [] [] CMD_LINE_SEPARATOR @ [NL]) #
      apdu_requests reader (nextCommandID r + 2) (map fst xs)"
    using session_run[OF ready assms(19,13,14) rx, of hContext mode prots h0 p0 fr spci rpci pcb] unfolding id by blast
  have tx: "w_tx v = w_tx s @ personalization (r\<lparr>remoteTag := proxy_tag name s\<rparr>) #
      (Remote_FormatRequest reader (nextCommandID r + 2) ''RESET'' [] [] CMD_LINE_SEPARATOR @ [NL]) #
      apdu_requests reader (nextCommandID r + 2) (map fst xs)"
    unfolding w(4) out(2) by simp
  show ?thesis using i(1,2) out(3) w(1-3) tx by blast
qed

text \<open>A proxy on port 4001 with one reader, and two commands.\<close>

definition gateway_parts :: "file_part list" where
  "gateway_parts =
     [Remote_Part [Redirect True, Proxy_IP ''127.0.0.1'', Proxy_Port ''4001''],
      Winscard_Part [Virtual_Readers [''Simona''], Modify_Apdu_By_Rules False]]"

definition gateway_env :: environment where
  "gateway_env = quiet_env\<lparr>file_text := [RULE_FILE \<mapsto> print_ini (map part_section gateway_parts)],
     module_file_name := Some ([CHR ''c'', CHR '':'', BS] @ ''app.exe'')\<rparr>"

definition gateway_app :: app where
  "gateway_app = quiet_app\<lparr>w_env := gateway_env, w_conns := [ConnOk, ConnOk],
     w_rx := map RecvByte (proxy_response 2 ''ok'' @ [NL]) @ map RecvByte (proxy_response 3 ''3B00'' @ [NL]) @
       apdu_answers 3 False (map snd session_exchanges)\<rparr>"

theorem configured_session_witness:
  "\<exists>m' t h u v. InitInstance 0 (\<lambda>_. Some winscard_dll) Map.empty gateway_app = (Inr (True, m'), t) \<and>
     SCardConnectA None 0 ''Simona'' 2 3 0 9 t = (Inr (SCARD_S_SUCCESS, h, 9), u) \<and>
     transmit_all (None :: (nat \<Rightarrow> (unit, unit) transmit_fn) option) zero_frame h () () [0, 0, 0] 3
       [[0x00, 0xA4, 0x04, 0x00], [0x00, 0xB0, 0x00, 0x00]] u =
       Some ([(SCARD_S_SUCCESS, (), [0x90, 0x00, 0], 2), (SCARD_S_SUCCESS, (), [0x6A, 0x82, 0], 2)], v) \<and> w_rx v = []"
proof -
  let ?path = "[CHR ''c'', CHR '':'', BS] @ ''app.exe''"
  have path: "module_file_name (w_env gateway_app) = Some ?path" by (simp add: gateway_app_def gateway_env_def)
  have name: "binary_name (c_str ?path) = Some ''app.exe''" by (simp add: binary_name_def BS_def find_last_idx_def)
  have text_of: "file_text (w_env gateway_app) RULE_FILE = Some (print_ini (map part_section gateway_parts))"
    by (simp add: gateway_app_def gateway_env_def)
  have secs: "section_ok (part_section (hd gateway_parts))" "section_ok (part_section (last gateway_parts))"
    by (simp_all add: gateway_parts_def) code_simp+
  have ok: "file_ok gateway_parts"
    using secs by (simp add: file_ok_def gateway_parts_def lowered_names lowered_parts flag_def)
  have new: "m_remoteConfig gateway_app = REMOTE_CONFIG_new" "m_winscardConfig gateway_app = WINSCARD_CONFIG_new False"
    by (simp_all add: gateway_app_def quiet_app_def app_init_def)
  have len: "length (measureApdu (m_remoteConfig gateway_app)) = 255" by (simp add: new REMOTE_CONFIG_new_def)
  obtain c r rs where f: "fold part_meaning gateway_parts (file_conf gateway_app) = (c, r, rs)"
    by (cases "fold part_meaning gateway_parts (file_conf gateway_app)")
  have r: "bRedirect r" "\<not> bOpenSocketForEveryCommand r" "nextCommandID r = 1"
    and c: "''Simona'' \<in> set (listVIRTUAL_READERS c)" "\<not> bMODIFY_APDU_BY_RULES c" "\<not> bAUTO_REQUEST_DATA c" "\<not> bLOG_EXCHANGED_APDU c"
    using f by (auto simp: gateway_parts_def file_conf_def new REMOTE_CONFIG_new_def WINSCARD_CONFIG_new_def WINSCARD_CONFIG_clear_def)
  have conns: "w_conns gateway_app = ConnOk # ConnOk # []" by (simp add: gateway_app_def)
  have ids: "nextCommandID r + 1 = 2" "nextCommandID r + 2 = 3" using r(3) by simp_all
  have rx: "w_rx gateway_app = map RecvByte (proxy_response (nextCommandID r + 1) ''ok'' @ [NL]) @
      map RecvByte (proxy_response (nextCommandID r + 2) ''3B00'' @ [NL]) @
      apdu_answers (nextCommandID r + 2) False (map snd session_exchanges) @ []"
    unfolding ids by (simp add: gateway_app_def)
  have texts: "CHR ''@'' \<notin> set ''ok''" "NL \<notin> set ''ok''" "CHR ''@'' \<notin> set ''3B00''" "NL \<notin> set ''3B00''" by simp_all
  have xs: "list_all (exchange_ok [0, 0, 0]) session_exchanges"
    by (simp add: session_exchanges_def exchange_ok_def MAX_APDU_LENGTH_def)
  have v: "map fst session_exchanges = [[0x00, 0xA4, 0x04, 0x00], [0x00, 0xB0, 0x00, 0x00]]"
    "map (\<lambda>x. (SCARD_S_SUCCESS, (), blit [0, 0, 0] 0 (snd x), of_nat (length (snd x)))) session_exchanges =
      [(SCARD_S_SUCCESS, (), [0x90, 0x00, 0], 2 :: dword), (SCARD_S_SUCCESS, (), [0x6A, 0x82, 0], 2)]"
    by (simp_all add: session_exchanges_def blit_def)
  have complete: "\<exists>f. (\<lambda>_. Some winscard_dll) ''original64.dll'' = Some f \<and> library_complete f"
    using winscard_dll_complete by auto
  obtain b m' t h u v where w: "InitInstance 0 (\<lambda>_. Some winscard_dll) Map.empty gateway_app = (Inr (b, m'), t)"
    "b \<longleftrightarrow> (\<exists>f. (\<lambda>_. Some winscard_dll) ''original64.dll'' = Some f \<and> library_complete f)"
    "SCardConnectA None 0 ''Simona'' 2 3 0 9 t = (Inr (SCARD_S_SUCCESS, h, 9), u)"
    "transmit_all (None :: (nat \<Rightarrow> (unit, unit) transmit_fn) option) zero_frame h () () [0, 0, 0] 3 (map fst session_exchanges) u =
       Some (map (\<lambda>x. (SCARD_S_SUCCESS, (), blit [0, 0, 0] 0 (snd x), of_nat (length (snd x)))) session_exchanges, v)"
    "w_rx v = []"
    using configured_session[OF path name text_of ok len f r(1,2) conns rx texts c xs, of 0 "\<lambda>_. Some winscard_dll" Map.empty 0 2 3 0 9 zero_frame "()" "()" 3]
    by blast
  have "b = True" using w(2) complete by blast
  then show ?thesis using w(1,3-5) unfolding v by blast
qed

end
