(* ===== verification/Linux_Start.thy ===== *)
theory Linux_Start
  imports Lib_Loader
begin

text \<open>
  Loading the original library in the Linux build (the parts of \<open>initialize\<close> under \<open>__linux__\<close>, and the
  function only this build has). \<open>dlopen\<close> is an argument like \<open>LoadLibrary\<close>; \<open>dlerror\<close> gives the text for a
  name that was not found. The procedures common to both builds report to the debug file, the others to
  the standard error stream, whose text is a component of the result.
\<close>

subsection \<open>The procedures\<close>

definition linux_error :: "(string \<Rightarrow> string) \<Rightarrow> string \<Rightarrow> string" where
  "linux_error dlerror p = ''Could not find '' @ p @ '' procedure address: '' @ c_str (dlerror p) @ [NL]"

text \<open>The common procedures; the message of the last one, \<open>SCardSetAttrib\<close>, is not formatted here either.\<close>

definition linux_common :: "(string \<Rightarrow> string) \<Rightarrow> entry list" where
  "linux_common dlerror =
     map (\<lambda>(v, p, w). (v, p, Stop (linux_error dlerror p))) (common_procedures_1 @ butlast common_procedures_2) @
     [last common_procedures_2]"

text \<open>The procedures of this build, with what their message has before the text of \<open>dlerror\<close>.\<close>

definition linux_procedures :: "(string \<times> string) list" where
  "linux_procedures =
    [(''SCardConnect'', '':  ''), (''SCardStatus'', '':  ''), (''SCardGetStatusChange'', '':  ''),
     (''SCardListReaders'', '' ''), (''SCardListReaderGroups'', '':  '')]"

subsection \<open>Resolving them\<close>

fun load_linux ::
    "(string \<Rightarrow> string) \<Rightarrow> 'p dll \<Rightarrow> (string \<times> string) list \<Rightarrow> 'p originals \<Rightarrow> bool \<times> 'p originals \<times> string" where
  "load_linux dlerror load_func [] m = (True, m, [])"
| "load_linux dlerror load_func ((p, sep) # ps) m =
     (let m1 = m(p := load_func p)
      in if load_func p \<noteq> None then load_linux dlerror load_func ps m1
         else (False, m1, ''Could not find '' @ p @ '' procedure address'' @ sep @ c_str (dlerror p) @ [NL]))"

definition initialize_linux ::
    "(string \<Rightarrow> 'p dll option) \<Rightarrow> (string \<Rightarrow> string) \<Rightarrow> 'p originals \<Rightarrow> (bool \<times> 'p originals \<times> string) act" where
  "initialize_linux dlopen dlerror m =
     (let name = ''/lib/x86_64-linux-gnu/original.so''
      in case dlopen name of
           None \<Rightarrow> bindA (debugA (''Failed to load original library: '' @ c_str (dlerror name) @ [NL]) True)
                     (\<lambda>_. returnA (False, m, []))
         | Some load_func \<Rightarrow>
             bindA (load_procedures load_func (linux_common dlerror) m) (\<lambda>(ok, m1).
             returnA (if ok then load_linux dlerror load_func linux_procedures m1 else (False, m1, []))))"

text \<open>The Linux build forwards status changes without a look at the readers.\<close>

definition SCardGetStatusChange_linux ::
    "(handle \<times> dword \<times> 'a \<times> dword \<Rightarrow> status \<times> 'a) option \<Rightarrow> handle \<Rightarrow> dword \<Rightarrow> 'a \<Rightarrow> dword \<Rightarrow> (status \<times> 'a) act" where
  "SCardGetStatusChange_linux orig hContext dwTimeout rgReaderStates cReaders =
     bindA (logA (''SCardGetStatusChange called'' @ [NL]))
       (\<lambda>_. call_original orig (hContext, dwTimeout, rgReaderStates, cReaders))"

subsection \<open>What a complete library is\<close>

definition linux_names :: "string set" where
  "linux_names = fst ` set (common_procedures_1 @ common_procedures_2) \<union> fst ` set linux_procedures"

lemma linux_common_named: "list_all (\<lambda>(v, p, w). p = v \<and> stops w) (linux_common dlerror)"
  by (simp add: linux_common_def common_procedures_1_def common_procedures_2_def stops_def)

lemma linux_common_names: "fst ` set (linux_common dlerror) = fst ` set (common_procedures_1 @ common_procedures_2)"
  by (simp add: linux_common_def common_procedures_1_def common_procedures_2_def insert_commute)

text \<open>The loop over the procedures of this build: it stops at the first one that is missing.\<close>

lemma load_linux_found:
  assumes "\<forall>(p, sep) \<in> set ps. f p \<noteq> None"
  shows "load_linux dlerror f ps m = (True, \<lambda>v. if v \<in> fst ` set ps then f v else m v, [])"
  using assms
proof (induction ps arbitrary: m)
  case (Cons x ps)
  obtain p sep where x: "x = (p, sep)" by (cases x)
  have "load_linux dlerror f (x # ps) m = load_linux dlerror f ps (m(p := f p))" using Cons.prems by (simp add: x Let_def)
  also have "\<dots> = (True, \<lambda>v. if v \<in> fst ` set ps then f v else (m(p := f p)) v, [])" using Cons by (simp add: x)
  also have "(\<lambda>v. if v \<in> fst ` set ps then f v else (m(p := f p)) v) = (\<lambda>v. if v \<in> fst ` set (x # ps) then f v else m v)"
    by (auto simp: x fun_eq_iff)
  finally show ?case .
qed simp

lemma load_linux_missing:
  assumes "\<not> (\<forall>(p, sep) \<in> set ps. f p \<noteq> None)"
  shows "\<exists>m' p sep. load_linux dlerror f ps m =
      (False, m', ''Could not find '' @ p @ '' procedure address'' @ sep @ c_str (dlerror p) @ [NL]) \<and>
    (p, sep) \<in> set ps \<and> f p = None"
  using assms
proof (induction ps arbitrary: m)
  case (Cons x ps)
  obtain p sep where x: "x = (p, sep)" by (cases x)
  show ?case
  proof (cases "f p")
    case None
    then show ?thesis by (auto simp: x Let_def)
  next
    case (Some a)
    then have "\<not> (\<forall>(p, sep) \<in> set ps. f p \<noteq> None)" using Cons.prems by (auto simp: x)
    moreover have "load_linux dlerror f (x # ps) m = load_linux dlerror f ps (m(p := f p))" using Some by (simp add: x Let_def)
    ultimately show ?thesis using Cons.IH[of "m(p := f p)"] by (metis list.set_intros(2))
  qed
qed simp

subsection \<open>Properties\<close>

text \<open>
  C16: What \<open>initialize\<close> makes of the original library on Linux. When \<open>original.so\<close> can be opened, the result is
  TRUE exactly when it exports every procedure the build uses, each under its plain name; then each pointer
  holds the address of the procedure of its own name, no other pointer is touched, and nothing is written to the
  standard error stream. A text there means FALSE and names a procedure of this build that is missing. Nothing
  but the logs changes.
\<close>

theorem initialize_linux_resolves:
  assumes "dlopen ''/lib/x86_64-linux-gnu/original.so'' = Some f"
  shows "\<exists>ok m' err t. initialize_linux dlopen dlerror m s = (Inr (ok, m', err), t) \<and> visible t = visible s \<and>
    (ok \<longleftrightarrow> (\<forall>v \<in> linux_names. f v \<noteq> None)) \<and>
    (ok \<longrightarrow> m' = (\<lambda>v. if v \<in> linux_names then f v else m v) \<and> err = []) \<and>
    (err \<noteq> [] \<longrightarrow> (\<exists>p sep. (p, sep) \<in> set linux_procedures \<and> f p = None \<and>
       err = ''Could not find '' @ p @ '' procedure address'' @ sep @ c_str (dlerror p) @ [NL]))"
proof -
  let ?es = "linux_common dlerror" and ?names = "fst ` set (common_procedures_1 @ common_procedures_2)"
  obtain ok m1 t where l: "load_procedures f ?es m s = (Inr (ok, m1), t)" "visible t = visible s"
    "ok \<longleftrightarrow> (\<forall>(v, p, w) \<in> set ?es. stops w \<longrightarrow> f p \<noteq> None)" "ok \<longrightarrow> m1 = point_all f ?es m"
    using load_procedures_spec[of f ?es m s] by blast
  have "ok \<longleftrightarrow> (\<forall>v \<in> fst ` set ?es. f v \<noteq> None)"
    using l(3) linux_common_named[of dlerror] by (fastforce simp: list_all_iff)
  then have ok: "ok \<longleftrightarrow> (\<forall>v \<in> ?names. f v \<noteq> None)" unfolding linux_common_names .
  have "list_all (\<lambda>(v, p, w). p = id v) ?es"
    using linux_common_named[of dlerror] by (rule list.pred_mono_strong) auto
  from fold_pointers[OF this, of f m] have m1: "ok \<longrightarrow> m1 = (\<lambda>v. if v \<in> ?names then f v else m v)"
    using l(4) unfolding linux_common_names id_apply by simp
  have run: "initialize_linux dlopen dlerror m s =
      (Inr (if ok then load_linux dlerror f linux_procedures m1 else (False, m1, [])), t)"
    by (simp add: initialize_linux_def assms Let_def l(1))
  consider (common) "\<not> ok" | (all) "ok" "\<forall>(p, sep) \<in> set linux_procedures. f p \<noteq> None"
    | (build) "ok" "\<not> (\<forall>(p, sep) \<in> set linux_procedures. f p \<noteq> None)" by blast
  then show ?thesis
  proof cases
    case common
    then have "\<not> (\<forall>v \<in> linux_names. f v \<noteq> None)" using ok by (auto simp: linux_names_def)
    then show ?thesis using run l(2) common by auto
  next
    case all
    have "(\<lambda>v. if v \<in> fst ` set linux_procedures then f v else m1 v) = (\<lambda>v. if v \<in> linux_names then f v else m v)"
      using m1 all(1) by (auto simp: linux_names_def fun_eq_iff)
    moreover have "\<forall>v \<in> linux_names. f v \<noteq> None" using all ok by (auto simp: linux_names_def)
    ultimately show ?thesis using run l(2) load_linux_found[OF all(2), of dlerror m1] all(1) by auto
  next
    case build
    obtain m' p sep where b: "load_linux dlerror f linux_procedures m1 =
        (False, m', ''Could not find '' @ p @ '' procedure address'' @ sep @ c_str (dlerror p) @ [NL])"
      "(p, sep) \<in> set linux_procedures" "f p = None"
      using load_linux_missing[OF build(2), of dlerror m1] by blast
    have "p \<in> linux_names" using b(2) by (force simp: linux_names_def)
    then have "\<not> (\<forall>v \<in> linux_names. f v \<noteq> None)" using b(3) by blast
    then show ?thesis using run l(2) b build(1) by simp blast
  qed
qed

text \<open>A library that has every procedure.\<close>

theorem initialize_linux_resolves_witness:
  "\<exists>m' t. initialize_linux (\<lambda>_. Some Some) (\<lambda>_. ''?'') Map.empty quiet_app = (Inr (True, m', []), t) \<and>
     m' ''SCardConnect'' = Some ''SCardConnect''"
proof -
  have "''SCardConnect'' \<in> linux_names" by (simp add: linux_names_def linux_procedures_def)
  then show ?thesis
    using initialize_linux_resolves[of "\<lambda>_. Some Some" Some "\<lambda>_. ''?''" Map.empty quiet_app] by auto
qed

end
