(* ===== verification/Rule_Loader_Unicode.thy ===== *)
theory Rule_Loader_Unicode
  imports Rule_Loader
begin

text \<open>
  The loader of the \<open>UNICODE\<close> configuration (\<open>LoadRule\<close> and \<open>LoadRules\<close> at the end of \<open>Winscard.cpp\<close>).
  It reads the rules file through the Windows functions for private profiles instead of the ini
  parser, and separates the elements of a rule by semicolons. The profile functions are parameters:
  \<open>profile path section key\<close> is the text stored for the key, empty when there is none, and
  \<open>names path\<close> is the buffer filled with the section names. Wide texts are modelled by their
  characters, which for an 8-bit rules file are below 256.
\<close>

type_synonym profile_fn = "string \<Rightarrow> string \<Rightarrow> string \<Rightarrow> string"

subsection \<open>Values of a section\<close>

text \<open>\<open>GetPrivateProfileString\<close> into a buffer of 10000 characters, the last of which is the zero.\<close>

definition profile_string :: "profile_fn \<Rightarrow> string \<Rightarrow> string \<Rightarrow> string \<Rightarrow> string" where
  "profile_string profile filePath ruleName key = take 9999 (profile filePath ruleName key)"

definition set_bool :: "string \<Rightarrow> bool \<Rightarrow> bool" where
  "set_bool buffer old = (if buffer \<noteq> [] then strtol 10 buffer \<noteq> 0 else old)"

definition set_int :: "string \<Rightarrow> int \<Rightarrow> int" where
  "set_int buffer old = (if buffer \<noteq> [] then strtol 10 buffer else old)"

definition set_string :: "string \<Rightarrow> string \<Rightarrow> string" where
  "set_string buffer old = (if buffer \<noteq> [] then buffer else old)"

definition load_winscard_u :: "(string \<Rightarrow> string) \<Rightarrow> WINSCARD_CONFIG \<Rightarrow> WINSCARD_CONFIG" where
  "load_winscard_u val c =
     c\<lparr>bAUTO_REQUEST_DATA := set_bool (val ''AUTO_REQUEST_DATA'') (bAUTO_REQUEST_DATA c),
       bFORCE_CONNECT_SHARED_MODE := set_bool (val ''FORCE_CONNECT_SHARED_MODE'') (bFORCE_CONNECT_SHARED_MODE c),
       bFORCE_APDU_NONZERO_INPUT_DATA := set_bool (val ''FORCE_APDU_NONZERO_INPUT_DATA'') (bFORCE_APDU_NONZERO_INPUT_DATA c),
       bLOG_EXCHANGED_APDU := set_bool (val ''LOG_EXCHANGED_APDU'') (bLOG_EXCHANGED_APDU c),
       sLOG_BASE_PATH := set_string (val ''LOG_BASE_PATH'') (sLOG_BASE_PATH c),
       bMODIFY_APDU_BY_RULES := set_bool (val ''MODIFY_APDU_BY_RULES'') (bMODIFY_APDU_BY_RULES c),
       sREADER_ORDERED_FIRST := set_string (val ''READER_ORDERED_FIRST'') (sREADER_ORDERED_FIRST c)\<rparr>"

definition load_remote_u :: "(string \<Rightarrow> string) \<Rightarrow> REMOTE_CONFIG \<Rightarrow> REMOTE_CONFIG res" where
  "load_remote_u val c0 =
     (let c1 = c0\<lparr>bRedirect := set_bool (val ''REDIRECT'') (bRedirect c0), rc_IP := set_string (val ''IP'') (rc_IP c0),
                  rc_port := set_string (val ''PORT'') (rc_port c0)\<rparr>
      in bindE (if val ''MEASURE_APDU'' \<noteq> [] then
             bindE (BYTE_ConvertFromHexStringToArray_BYTE (val ''MEASURE_APDU'') (measureApdu c1) 255) (\<lambda>(_, arr, n).
             Inr (c1\<lparr>measureApdu := arr, measureApduLen := n\<rparr>))
           else Inr c1) (\<lambda>c2.
         Inr (c2\<lparr>measureApduByteCounter := set_int (val ''MEASURE_BYTE_COUNTER'') (measureApduByteCounter c2),
                 measureApduByteDelay := set_int (val ''MEASURE_BYTE_DELAY'') (measureApduByteDelay c2),
                 readRatio := set_int (val ''READ_RATIO'') (readRatio c2),
                 numSamples := (if val ''NUM_SAMPLES'' \<noteq> [] then word_of_int (strtol 10 (val ''NUM_SAMPLES''))
                                else numSamples c2)\<rparr>)))"

subsection \<open>Elementary rules\<close>

fun semi_parts :: "string \<Rightarrow> string \<Rightarrow> string list" where
  "semi_parts acc [] = []"
| "semi_parts acc (c # cs) =
     (if c = CHR '';'' then (acc @ [c]) # semi_parts [] cs else semi_parts (acc @ [c]) cs)"

definition take_field_u :: "string \<Rightarrow> string \<Rightarrow> (int \<times> string) option" where
  "take_field_u name ruleString =
     (case str_find ruleString name of
        None \<Rightarrow> None
      | Some pos \<Rightarrow> Some (strtol 10 (drop (pos + length name) ruleString), erase_through ruleString pos '';''))"

definition data_bytes_u :: "string \<Rightarrow> byte list res" where
  "data_bytes_u rulePart =
     (let bs = hex_pairs (compact_hex (filter (\<lambda>c. c \<noteq> CHR '';'') (after_eq rulePart)))
      in if length bs > MAX_APDU_LENGTH then Inl Out_Of_Bounds else Inr bs)"

text \<open>Here both offsets are taken at the first digit of the rule's name; that of a match has length 0.\<close>

definition match_data_offset_u :: "string \<Rightarrow> string \<Rightarrow> int res" where
  "match_data_offset_u ruleName elemName =
     (case find_idx is_digit ruleName of
        None \<Rightarrow> Inl (Throws Exn_Out_Of_Range)
      | Some p \<Rightarrow> bindE (substr_n elemName p 0) (\<lambda>t. Inr (strtol 10 t)))"

definition match_part_u ::
    "string \<Rightarrow> string \<Rightarrow> APDU_SINGLE_RULE \<times> APDU_SINGLE_RULE list \<Rightarrow> (APDU_SINGLE_RULE \<times> APDU_SINGLE_RULE list) res" where
  "match_part_u ruleName rulePart st0 =
     (let elemName = elem_name rulePart;
          st1 = (if same_name elemName ''CLA'' then push_elem CLA_ELEM rulePart st0 else st0);
          st2 = (if same_name elemName ''INS'' then push_elem INS_ELEM rulePart st1 else st1);
          st3 = (if same_name elemName ''P1'' then push_elem P1_ELEM rulePart st2 else st2);
          st4 = (if same_name elemName ''P2'' then push_elem P2_ELEM rulePart st3 else st3);
          st5 = (if same_name elemName ''LC'' then push_elem LC_ELEM rulePart st4 else st4)
      in if same_name (take 4 elemName) ''DATA'' then
           bindE (match_data_offset_u ruleName elemName) (\<lambda>offset.
           bindE (data_bytes_u rulePart) (\<lambda>bs. Inr (push_bytes offset bs st5)))
         else Inr st5)"

definition action_part_u ::
    "string \<Rightarrow> string \<Rightarrow> APDU_SINGLE_RULE \<times> APDU_SINGLE_RULE list \<Rightarrow> (APDU_SINGLE_RULE \<times> APDU_SINGLE_RULE list) res" where
  "action_part_u ruleName rulePart st0 =
     (let elemName = elem_name rulePart;
          st1 = (if same_name elemName ''CLA'' then push_elem CLA_ELEM rulePart st0 else st0);
          st2 = (if same_name elemName ''INS'' then push_elem INS_ELEM rulePart st1 else st1);
          st3 = (if same_name elemName ''P1'' then push_elem P1_ELEM rulePart st2 else st2);
          st4 = (if same_name elemName ''P2'' then push_elem P2_ELEM rulePart st3 else st3);
          st5 = (if same_name elemName ''LC'' then push_elem LC_ELEM rulePart st4 else st4);
          st6 = (if same_name elemName ''LE'' then push_elem LE_ELEM rulePart st5 else st5)
      in if same_name (take 4 elemName) ''DATA'' then
           bindE (action_data_offset ruleName elemName) (\<lambda>offset.
           bindE (data_bytes_u rulePart) (\<lambda>bs. Inr (push_bytes offset bs st6)))
         else Inr st6)"

definition load_match_value_u ::
    "string \<Rightarrow> string \<Rightarrow> APDU_SINGLE_RULE \<times> APDU_SINGLE_RULE list \<Rightarrow> (APDU_SINGLE_RULE \<times> APDU_SINGLE_RULE list) res" where
  "load_match_value_u ruleName v st =
     (let rs0 = v @ '' '';
          (sr1, rs1) = (case take_field_u ''t='' rs0 of None \<Rightarrow> (fst st, rs0) | Some (n, rs) \<Rightarrow> ((fst st)\<lparr>sr_history := n\<rparr>, rs));
          (sr2, rs2) = (case take_field_u ''in='' rs1 of None \<Rightarrow> (sr1, rs1) | Some (n, rs) \<Rightarrow> (sr1\<lparr>sr_apduDirection := n\<rparr>, rs))
      in foldE (match_part_u ruleName) (semi_parts [] rs2) (sr2, snd st))"

text \<open>
  The loop over \<open>MATCH1\<close>, \<open>MATCH2\<close>, ... up to the first absent value. The counter is an \<open>int\<close>; past its
  largest value the behaviour is undefined.
\<close>

definition INT_MAX :: nat where "INT_MAX = 2 ^ 31 - 1"

function match_loop_u ::
    "(string \<Rightarrow> string) \<Rightarrow> string \<Rightarrow> nat \<Rightarrow> APDU_SINGLE_RULE \<times> APDU_SINGLE_RULE list \<Rightarrow>
     (APDU_SINGLE_RULE \<times> APDU_SINGLE_RULE list) res" where
  "match_loop_u val ruleName counter st =
     (if val (''MATCH'' @ fmt_u counter) \<noteq> [] then
        bindE (load_match_value_u ruleName (val (''MATCH'' @ fmt_u counter)) st) (\<lambda>st1.
        if counter < INT_MAX then match_loop_u val ruleName (counter + 1) st1 else Inl Out_Of_Bounds)
      else Inr st)"
  by pat_completeness auto
termination by (relation "measure (\<lambda>(val, ruleName, counter, st). INT_MAX - counter)") auto

declare match_loop_u.simps [simp del]

definition load_action_value_u :: "string \<Rightarrow> string \<Rightarrow> APDU_SINGLE_RULE \<Rightarrow> (APDU_SINGLE_RULE list) res" where
  "load_action_value_u ruleName v sr =
     (let rs0 = v @ '' ''; sr0 = APDU_SINGLE_RULE_clear sr;
          (sr1, rs1) = (case take_field_u ''in='' rs0 of None \<Rightarrow> (sr0, rs0) | Some (n, rs) \<Rightarrow> (sr0\<lparr>sr_apduDirection := n\<rparr>, rs))
      in bindE (foldE (action_part_u ruleName) (semi_parts [] rs1) (sr1, [])) (\<lambda>st. Inr (snd st)))"

text \<open>A rule section; without \<open>USAGE\<close> the section is skipped.\<close>

definition load_rule_section_u :: "int \<Rightarrow> (string \<Rightarrow> string) \<Rightarrow> string \<Rightarrow> APDU_RULE option res" where
  "load_rule_section_u junk val ruleName =
     (if val ''USAGE'' = [] then Inr None
      else
        bindE (match_loop_u val ruleName 1 (APDU_SINGLE_RULE_new junk, [])) (\<lambda>(sr, ms).
        bindE (if val ''ACTION'' \<noteq> [] then load_action_value_u ruleName (val ''ACTION'') sr else Inr []) (\<lambda>as.
        Inr (Some \<lparr>r_ruleName = ruleName, r_usage = strtol 10 (val ''USAGE''),
              r_direction = set_int (val ''APDUIN'') (r_direction APDU_RULE_new), r_matchRules = ms, r_actionRules = as,
              r_msDelay = set_int (val ''DELAY'') (r_msDelay APDU_RULE_new)\<rparr>))))"

definition LoadRule_u :: "int \<Rightarrow> profile_fn \<Rightarrow> string \<Rightarrow> string \<Rightarrow> app \<Rightarrow> app res" where
  "LoadRule_u junk profile ruleName filePath s =
     (let val = profile_string profile filePath ruleName;
          s1 = (if same_name ruleName ''WINSCARD'' then s\<lparr>m_winscardConfig := load_winscard_u val (m_winscardConfig s)\<rparr> else s)
      in bindE (if same_name ruleName ''REMOTE''
                then bindE (load_remote_u val (m_remoteConfig s1)) (\<lambda>c. Inr (s1\<lparr>m_remoteConfig := c\<rparr>))
                else Inr s1) (\<lambda>s2.
         if same_name (take 4 ruleName) ''RULE''
         then bindE (load_rule_section_u junk val ruleName) (\<lambda>r.
           Inr (case r of None \<Rightarrow> s2 | Some rule \<Rightarrow> s2\<lparr>rulesList := rulesList s2 @ [rule]\<rparr>))
         else Inr s2))"

subsection \<open>\<open>LoadRules\<close>\<close>

text \<open>
  The file is looked for in the current directory and on the desktop; \<open>desktop\<close> is what \<open>GetDesktopPath\<close>
  gives and \<open>full_path\<close> what \<open>GetFullPathName\<close> does, which is only logged. The profile functions get the
  path as it was opened.
\<close>

definition find_rules_file_u :: "string \<Rightarrow> string option act" where
  "find_rules_file_u desktop =
     bindA (getA (\<lambda>s. file_text (w_env s) RULE_FILE)) (\<lambda>file.
     if file \<noteq> None then returnA (Some RULE_FILE)
     else
       bindA (liftA (guardE (length (desktop @ RULE_FILE) < 256) Out_Of_Bounds)) (\<lambda>_.
       bindA (getA (\<lambda>s. file_text (w_env s) (desktop @ RULE_FILE))) (\<lambda>file2.
       returnA (if file2 \<noteq> None then Some (desktop @ RULE_FILE) else None))))"

definition load_profile ::
    "int \<Rightarrow> profile_fn \<Rightarrow> (string \<Rightarrow> string) \<Rightarrow> string \<Rightarrow> app \<Rightarrow> app res" where
  "load_profile junk profile names path s =
     (if names path \<noteq> [] \<and> hd (names path) \<noteq> CHR 0x00 then
        bindE (String_ParseNullSeparatedArray (names path) 10000 []) (\<lambda>valuesList.
        foldE (\<lambda>name. LoadRule_u junk profile name path) valuesList s)
      else Inr s)"

definition set_log_paths_u :: "string \<Rightarrow> app \<Rightarrow> app" where
  "set_log_paths_u desktop s =
     (let dir = (if sLOG_BASE_PATH (m_winscardConfig s) \<noteq> [] then c_str (sLOG_BASE_PATH (m_winscardConfig s)) else desktop)
      in s\<lparr>WINSCARD_RULES_LOG := dir @ c_str (WINSCARD_RULES_LOG s), WINSCARD_LOG := dir @ c_str (WINSCARD_LOG s)\<rparr>)"

text \<open>The instruction file has a narrow name in both configurations.\<close>

definition LoadRules_u :: "int \<Rightarrow> profile_fn \<Rightarrow> (string \<Rightarrow> string) \<Rightarrow> string \<Rightarrow> (string \<Rightarrow> string) \<Rightarrow> status act" where
  "LoadRules_u junk profile names desktop full_path =
     bindA (\<lambda>s. let (t, s1) = getCurrentTimeString s in (Inr t, s1)) (\<lambda>date_and_time.
     bindA (modA (\<lambda>s. s\<lparr>WINSCARD_LOG := WINSCARD_LOG s @ ''_'' @ date_and_time @ ''.txt'',
                        WINSCARD_RULES_LOG := WINSCARD_RULES_LOG s @ ''_'' @ date_and_time @ ''.txt''\<rparr>)) (\<lambda>_.
     bindA (find_rules_file_u desktop) (\<lambda>path.
     bindA (case path of
              None \<Rightarrow> logA (''Rules file NOT found'' @ [NL])
            | Some p \<Rightarrow>
                bindA (logA (''Rules file found: '' @ c_str (full_path RULE_FILE) @ [NL])) (\<lambda>_.
                (\<lambda>s. case load_profile junk profile names p s of
                       Inl e \<Rightarrow> (Inl e, s)
                     | Inr s1 \<Rightarrow> (Inr (), s1\<lparr>m_bRulesActive := True\<rparr>)))) (\<lambda>_.
     bindA (modA (set_log_paths_u desktop)) (\<lambda>_.
     bindA load_instructions (\<lambda>_.
     returnA STAT_OK))))))"

subsection \<open>Exchanging the separators\<close>

definition swap_sep :: "char \<Rightarrow> char" where
  "swap_sep c = (if c = CHR '','' then CHR '';'' else if c = CHR '';'' then CHR '','' else c)"

text \<open>The same text with commas for semicolons and semicolons for commas.\<close>

definition swapped :: "string \<Rightarrow> string" where
  "swapped s = map swap_sep s"

lemma swap_sep_classes:
  "is_space (swap_sep c) = is_space c" "digit_val (swap_sep c) = digit_val c" "to_upper (swap_sep c) = swap_sep (to_upper c)"
  "is_digit (swap_sep c) = is_digit c"
proof -
  have "list_all (\<lambda>c. is_space (swap_sep c) = is_space c \<and> digit_val (swap_sep c) = digit_val c \<and>
      to_upper (swap_sep c) = swap_sep (to_upper c) \<and> is_digit (swap_sep c) = is_digit c) (Enum.enum :: char list)" by code_simp
  then show "is_space (swap_sep c) = is_space c" "digit_val (swap_sep c) = digit_val c" "to_upper (swap_sep c) = swap_sep (to_upper c)"
    "is_digit (swap_sep c) = is_digit c"
    by (simp_all add: list_all_iff enum_UNIV)
qed

lemma swap_sep_swap [simp]: "swap_sep (swap_sep c) = c"
  by (simp add: swap_sep_def)

lemma swap_sep_inj: "inj swap_sep"
  by (metis injI swap_sep_swap)

lemma swap_sep_eq: "swap_sep c = d \<longleftrightarrow> c = swap_sep d"
  by (metis swap_sep_swap)

lemma swapped_simps [simp]:
  "swapped [] = []" "swapped (c # s) = swap_sep c # swapped s" "swapped (s @ t) = swapped s @ swapped t"
  "swapped (take n s) = take n (swapped s)" "swapped (drop n s) = drop n (swapped s)" "length (swapped s) = length s"
  "swapped s = [] \<longleftrightarrow> s = []" "swapped (swapped s) = s"
  by (simp_all add: swapped_def take_map drop_map comp_def)

text \<open>Numbers read from swapped text.\<close>

lemma digits_val_swapped: "digits_val b acc (swapped s) = digits_val b acc s"
  by (induction s arbitrary: acc) (simp_all add: digit_in_def swap_sep_classes split: option.split)

lemma swap_sep_fixed: "d \<noteq> CHR '','' \<Longrightarrow> d \<noteq> CHR '';'' \<Longrightarrow> swap_sep c = d \<longleftrightarrow> c = d"
  by (auto simp: swap_sep_def)

lemma skip_hex_prefix_swapped: "skip_hex_prefix (swapped s) = swapped (skip_hex_prefix s)"
proof -
  consider "s = []" | c where "s = [c]" | c x where "s = [c, x]" | c x d r where "s = c # x # d # r"
    by (metis neq_Nil_conv)
  then show ?thesis
    by cases (simp_all add: skip_hex_prefix_def digit_in_def swap_sep_classes swap_sep_fixed)
qed

lemma unsigned_part_swapped: "unsigned_part b (swapped s) = unsigned_part b s"
  by (simp add: unsigned_part_def skip_hex_prefix_swapped digits_val_swapped)

lemma dropWhile_swapped: "dropWhile is_space (swapped s) = swapped (dropWhile is_space s)"
  by (induction s) (simp_all add: swap_sep_classes)

lemma strtol_swapped: "strtol b (swapped s) = strtol b s"
proof -
  have "unsigned_part b (swap_sep c # swapped cs) = unsigned_part b (c # cs)" for c cs
    using unsigned_part_swapped[of b "c # cs"] by simp
  then show ?thesis
    by (cases "dropWhile is_space s")
      (simp_all add: strtol_def dropWhile_swapped unsigned_part_swapped swap_sep_fixed del: dropWhile_eq_Nil_conv)
qed

lemma hex_byte_swapped: "hex_byte (swapped s) = hex_byte s"
  by (simp add: hex_byte_def strtol_swapped)

lemma hex_pairs_swapped: "hex_pairs (swapped s) = hex_pairs s"
proof (induction s rule: hex_pairs.induct)
  case (2 c)
  show ?case using hex_byte_swapped[of "[c]"] by simp
next
  case (3 c d s)
  then show ?case using hex_byte_swapped[of "[c, d]"] by simp
qed simp

lemma filter_swapped: "(\<And>c. Q (swap_sep c) = P c) \<Longrightarrow> filter Q (swapped s) = swapped (filter P s)"
  by (induction s) simp_all

text \<open>Searching in swapped text.\<close>

lemma find_sub_swapped: "find_sub (swapped p) (swapped s) = find_sub p s"
proof (induction s)
  case (Cons c s)
  have "prefix (swapped p) (swapped (c # s)) = prefix p (c # s)"
    unfolding prefix_def swapped_def by (metis append_eq_map_conv inj_map_eq_map[OF swap_sep_inj])
  then show ?case using Cons by simp
qed simp

lemma str_find_swapped: "str_find_from (swapped s) (swapped p) n = str_find_from s p n"
  by (simp add: str_find_from_def find_sub_swapped flip: swapped_simps(5))

lemma erase_through_swapped: "erase_through (swapped s) n '';'' = swapped (erase_through s n '','')"
  using str_find_swapped[of s "'',''" n] by (simp add: erase_through_def swap_sep_def split: option.split)

lemma take_field_swapped:
  assumes "swapped f = f"
  shows "take_field_u f (swapped s) = map_option (map_prod id swapped) (take_field f s)"
proof (cases "str_find s f")
  case None
  then show ?thesis using str_find_swapped[of s f 0] by (simp add: take_field_u_def take_field_def assms)
next
  case (Some n)
  then show ?thesis
    using str_find_swapped[of s f 0] strtol_swapped[of 10 "drop (n + length f) s"]
    by (simp add: take_field_u_def take_field_def assms erase_through_swapped)
qed

lemma semi_parts_swapped: "semi_parts (swapped acc) (swapped s) = map swapped (comma_parts acc s)"
proof (induction s arbitrary: acc)
  case (Cons c s)
  have "swap_sep c = CHR '';'' \<longleftrightarrow> c = CHR '',''" by (auto simp: swap_sep_def)
  then show ?case using Cons[of "[]"] Cons[of "acc @ [c]"] by simp
qed simp

text \<open>One element.\<close>

lemma eq_sign: "str_find (swapped s) ''='' = str_find s ''=''"
  using str_find_swapped[of s "''=''" 0] by (simp add: swap_sep_def)

lemma elem_name_swapped: "elem_name (swapped s) = swapped (elem_name s)"
  by (simp add: elem_name_def eq_sign split: option.split)

lemma after_eq_swapped: "after_eq (swapped s) = swapped (after_eq s)"
  by (simp add: after_eq_def eq_sign)

lemma same_name_swapped: "swapped n = n \<Longrightarrow> same_name (swapped s) n \<longleftrightarrow> same_name s n"
proof -
  assume n: "swapped n = n"
  have up: "map to_upper (swapped x) = swapped (map to_upper x)" for x
    by (simp add: swapped_def swap_sep_classes)
  have "map to_upper (swapped s) = map to_upper (swapped n) \<longleftrightarrow> map to_upper s = map to_upper n"
    unfolding up by (metis swapped_simps(8))
  then show ?thesis by (simp add: same_name_eq n)
qed

lemma push_elem_swapped: "push_elem k (swapped s) st = push_elem k s st"
  using hex_byte_swapped[of "take 2 (after_eq s)"] by (simp add: push_elem_def after_eq_swapped)

lemma data_bytes_swapped: "data_bytes_u (swapped s) = data_bytes s"
proof -
  have "filter (\<lambda>c. c \<noteq> CHR '';'') (swapped x) = swapped (filter (\<lambda>c. c \<noteq> CHR '','') x)" for x
    by (rule filter_swapped) (auto simp: swap_sep_def)
  moreover have "compact_hex (swapped x) = swapped (compact_hex x)" for x
    unfolding compact_hex_eq by (rule filter_swapped) (auto simp: swap_sep_def)
  ultimately show ?thesis
    by (simp add: data_bytes_u_def data_bytes_def after_eq_swapped hex_pairs_swapped)
qed

lemma names_fixed:
  "swapped ''CLA'' = ''CLA''" "swapped ''INS'' = ''INS''" "swapped ''P1'' = ''P1''" "swapped ''P2'' = ''P2''"
  "swapped ''LC'' = ''LC''" "swapped ''LE'' = ''LE''" "swapped ''DATA'' = ''DATA''" "swapped ''t='' = ''t=''"
  "swapped ''in='' = ''in=''" "swapped '' '' = '' ''"
  by code_simp+

lemmas fields_swapped = names_fixed(8,9)[THEN take_field_swapped]

lemmas names_swapped = names_fixed(1-7)[THEN same_name_swapped]

lemma data_name: "same_name (take 4 (swapped s)) ''DATA'' \<longleftrightarrow> same_name (take 4 s) ''DATA''"
  using names_swapped(7)[of "take 4 s"] by simp

lemma same_name_length: "same_name a b \<Longrightarrow> length a = length b"
  unfolding same_name_eq by (metis length_map)

text \<open>
  The position taken from the rule's name is harmless for names like \<open>RULE1\<close>, whose first digit stands
  where \<open>DATA\<close> ends.
\<close>

lemma match_part_swapped:
  assumes "match_part s st = Inr r" and "find_idx is_digit ruleName = Some p" and "p \<le> 4"
  shows "match_part_u ruleName (swapped s) st = Inr r"
proof -
  have off: "match_data_offset_u ruleName (swapped (elem_name s)) = Inr 0" if "same_name (take 4 (elem_name s)) ''DATA''"
    using same_name_length[OF that] assms(2,3) by (simp add: match_data_offset_u_def substr_n_def strtol_def)
  have "match_data_offset (elem_name s) = Inr i \<Longrightarrow> i = 0" for i
    by (auto simp: match_data_offset_def substr_n_def strtol_def split: option.splits if_splits)
  then show ?thesis
    using assms(1) off
    unfolding match_part_u_def match_part_def Let_def elem_name_swapped names_swapped data_name push_elem_swapped
      data_bytes_swapped
    by (auto simp: bindE_eq_Inr split: if_splits)
qed

lemma action_part_swapped: "action_part_u ruleName (swapped s) st = action_part ruleName s st"
proof -
  have "action_data_offset ruleName (swapped e) = action_data_offset ruleName e" for e
    using strtol_swapped[of 10 "drop p e" for p]
    by (simp add: action_data_offset_def substr_from_def split: option.split)
  then show ?thesis
    unfolding action_part_u_def action_part_def Let_def elem_name_swapped names_swapped data_name push_elem_swapped
      data_bytes_swapped by simp
qed

lemma foldE_map_swapped:
  assumes "\<And>s st r. f s st = Inr r \<Longrightarrow> g (swapped s) st = Inr r" and "foldE f xs st = Inr r"
  shows "foldE g (map swapped xs) st = Inr r"
  using assms(2) by (induction xs arbitrary: st) (auto simp: bindE_eq_Inr dest!: assms(1))

lemma match_value_swapped:
  assumes "load_match_value v st = Inr r" and "find_idx is_digit ruleName = Some p" and "p \<le> 4"
  shows "load_match_value_u ruleName (swapped v) st = Inr r"
proof -
  define w where "w = v @ '' ''"
  have sp: "swapped v @ '' '' = swapped w" by (simp add: w_def swap_sep_def)
  have "foldE (match_part_u ruleName) (map swapped xs) st0 = Inr r" if "foldE match_part xs st0 = Inr r" for xs st0
    by (rule foldE_map_swapped[OF _ that]) (rule match_part_swapped[OF _ assms(2,3)])
  then show ?thesis
    using assms(1) semi_parts_swapped[of "[]"]
    unfolding load_match_value_u_def load_match_value_def Let_def sp w_def[symmetric]
    by (auto simp: fields_swapped split: option.splits prod.splits)
qed

lemma action_value_swapped:
  assumes "load_action_value ruleName v sr = Inr r"
  shows "load_action_value_u ruleName (swapped v) sr = Inr r"
proof -
  define w where "w = v @ '' ''"
  have sp: "swapped v @ '' '' = swapped w" by (simp add: w_def swap_sep_def)
  have "foldE (action_part_u ruleName) (map swapped xs) st0 = Inr q" if "foldE (action_part ruleName) xs st0 = Inr q" for xs st0 q
    by (rule foldE_map_swapped[OF _ that]) (simp add: action_part_swapped)
  then show ?thesis
    using assms semi_parts_swapped[of "[]"]
    unfolding load_action_value_u_def load_action_value_def Let_def sp w_def[symmetric]
    by (auto simp: fields_swapped bindE_eq_Inr split: option.splits prod.splits)
qed

lemma match_loop_single:
  assumes run: "match_loop fuel dict ruleName 1 (swapped (val ''MATCH1'')) st0 = Inr st1"
    and pos: "find_idx is_digit ruleName = Some p" "p \<le> 4"
    and "get_value dict ruleName ''MATCH2'' = Inr []" and "val ''MATCH2'' = []"
  shows "match_loop_u val ruleName 1 st0 = Inr st1"
proof -
  have two: "fmt_u (1 + 1) = ''2''" "fmt_u 1 = ''1''" by code_simp+
  have stop: "match_loop_u val ruleName (1 + 1) st = Inr st" for st
    using assms(5) two(1) by (subst match_loop_u.simps) simp
  obtain f where f: "fuel = Suc f" using run by (cases fuel) simp_all
  show ?thesis
  proof (cases "val ''MATCH1'' = []")
    case True
    then show ?thesis using run f two(2) by (subst match_loop_u.simps) simp
  next
    case False
    obtain st2 where st2: "load_match_value (swapped (val ''MATCH1'')) st0 = Inr st2"
      "match_loop f dict ruleName (1 + 1) [] st2 = Inr st1"
      using run False assms(4) two(1) unfolding f by (auto simp: bindE_eq_Inr)
    have "st2 = st1" using st2(2) by (cases f) simp_all
    then show ?thesis
      using match_value_swapped[OF st2(1) pos] False two(2) stop by (subst match_loop_u.simps) (simp add: INT_MAX_def)
  qed
qed

subsection \<open>Properties\<close>

text \<open>
  C9: The two configurations load the same rule. When the section of a rule with a name like \<open>RULE1\<close> has
  the same values for both, only with commas and semicolons swapped, \<open>USAGE\<close> among them and one \<open>MATCH\<close>
  value at most, then whatever rule the loader of the ANSI build makes of it - history, direction,
  header and data elements, delay, action - the loader of the \<open>UNICODE\<close> build makes the same rule.
\<close>

theorem configurations_load_same_rule:
  assumes "load_rule_section junk dict ruleName = Inr r" and "find_idx is_digit ruleName = Some p" and "p \<le> 4"
    and vals: "\<And>k. k \<in> {''USAGE'', ''APDUIN'', ''DELAY'', ''MATCH1'', ''ACTION''} \<Longrightarrow>
      get_value dict ruleName (CHR '':'' # k) = Inr (swapped (val k))"
    and "val ''USAGE'' \<noteq> []" and "get_value dict ruleName ''MATCH2'' = Inr []" and "val ''MATCH2'' = []"
  shows "load_rule_section_u junk val ruleName = Inr (Some r)"
proof -
  have key: "get_value dict ruleName '':USAGE'' = Inr (swapped (val ''USAGE''))"
    "get_value dict ruleName '':APDUIN'' = Inr (swapped (val ''APDUIN''))"
    "get_value dict ruleName '':DELAY'' = Inr (swapped (val ''DELAY''))"
    "get_value dict ruleName '':MATCH1'' = Inr (swapped (val ''MATCH1''))"
    "get_value dict ruleName '':ACTION'' = Inr (swapped (val ''ACTION''))"
    using vals by simp_all
  have int: "opt_int dict ruleName (CHR '':'' # k) old = Inr (set_int (val k) old)"
    if "k \<in> {''USAGE'', ''APDUIN'', ''DELAY''}" for k old
    using vals[of k] that by (auto simp: opt_int_def set_int_def strtol_swapped)
  have sp: "opt_int dict ruleName '':USAGE'' old = Inr (set_int (val ''USAGE'') old)"
    "opt_int dict ruleName '':APDUIN'' old = Inr (set_int (val ''APDUIN'') old)"
    "opt_int dict ruleName '':DELAY'' old = Inr (set_int (val ''DELAY'') old)" for old
    using int by simp_all
  define fuel where "fuel = (case dict of None \<Rightarrow> 1 | Some t \<Rightarrow> d_size t + 2)"
  obtain sr ms as where run: "match_loop fuel dict ruleName 1 (swapped (val ''MATCH1'')) (APDU_SINGLE_RULE_new junk, []) = Inr (sr, ms)"
    "(if val ''ACTION'' \<noteq> [] then load_action_value ruleName (swapped (val ''ACTION'')) sr else Inr []) = Inr as"
    "r = \<lparr>r_ruleName = ruleName, r_usage = set_int (val ''USAGE'') (r_usage APDU_RULE_new),
      r_direction = set_int (val ''APDUIN'') (r_direction APDU_RULE_new), r_matchRules = ms, r_actionRules = as,
      r_msDelay = set_int (val ''DELAY'') (r_msDelay APDU_RULE_new)\<rparr>"
    using assms(1) unfolding load_rule_section_def fuel_def[symmetric] sp key(4,5) by (auto simp: bindE_eq_Inr)
  have "match_loop_u val ruleName 1 (APDU_SINGLE_RULE_new junk, []) = Inr (sr, ms)"
    by (rule match_loop_single[OF run(1) assms(2,3,6,7)])
  moreover have "(if val ''ACTION'' \<noteq> [] then load_action_value_u ruleName (val ''ACTION'') sr else Inr []) = Inr as"
    using run(2) action_value_swapped[of ruleName "swapped (val ''ACTION'')" sr as] by (simp split: if_splits)
  ultimately show ?thesis using assms(5) by (simp add: load_rule_section_u_def run(3) set_int_def)
qed

text \<open>A rule with a data element and an action, as both loaders find it.\<close>

definition comma_dict :: dictionary where
  "comma_dict = dict_put ''rule1:usage'' (Str ''1'') (dict_put ''rule1:match1'' (Str ''in=1,t=0,CLA=b0,DATA0=0102,'')
     (dict_put ''rule1:action'' (Str ''in=1,INS=20,'') (dict_put ''rule1'' NULL (dictionary_new 0))))"

definition semi_val :: "string \<Rightarrow> string" where
  "semi_val k =
     (if k = ''USAGE'' then ''1'' else if k = ''MATCH1'' then ''in=1;t=0;CLA=b0;DATA0=0102;''
      else if k = ''ACTION'' then ''in=1;INS=20;'' else [])"

lemma comma_abs:
  "dict_abs comma_dict = [''rule1'' \<mapsto> NULL, ''rule1:action'' \<mapsto> Str ''in=1,INS=20,'',
     ''rule1:match1'' \<mapsto> Str ''in=1,t=0,CLA=b0,DATA0=0102,'', ''rule1:usage'' \<mapsto> Str ''1'']"
  by (auto simp: comma_dict_def dict.lookup_update dict.wf_update dict_abs_new fun_eq_iff)

lemma comma_get:
  "get_value (Some comma_dict) sec key =
     bindE (sec_and_key sec key) (\<lambda>k. case (case dict_abs comma_dict (strlwc k (ASCIILINESZ + 1)) of
       None \<Rightarrow> Str [] | Some v \<Rightarrow> v) of Str v \<Rightarrow> Inr v | _ \<Rightarrow> Inl Null_Deref)"
  by (simp add: get_value_def iniparser_getstring_def dictionary_get_abs)

lemma comma_values:
  "get_value (Some comma_dict) ''rule1'' '':USAGE'' = Inr ''1''"
  "get_value (Some comma_dict) ''rule1'' '':APDUIN'' = Inr []"
  "get_value (Some comma_dict) ''rule1'' '':DELAY'' = Inr []"
  "get_value (Some comma_dict) ''rule1'' '':MATCH1'' = Inr ''in=1,t=0,CLA=b0,DATA0=0102,''"
  "get_value (Some comma_dict) ''rule1'' '':ACTION'' = Inr ''in=1,INS=20,''"
  "get_value (Some comma_dict) ''rule1'' ''MATCH2'' = Inr []"
  unfolding comma_get sec_and_key_def by (simp_all only: append.simps strlwc_short, simp_all add: lower_letters comma_abs)

lemma semi_values:
  "''1'' = swapped (semi_val ''USAGE'')" "[] = swapped (semi_val ''APDUIN'')" "[] = swapped (semi_val ''DELAY'')"
  "''in=1,t=0,CLA=b0,DATA0=0102,'' = swapped (semi_val ''MATCH1'')" "''in=1,INS=20,'' = swapped (semi_val ''ACTION'')"
  "semi_val ''USAGE'' \<noteq> []" "semi_val ''MATCH2'' = []"
  by code_simp+

declare same_name_eq [code]

theorem configurations_load_same_rule_witness:
  "\<exists>r. load_rule_section_u 7 semi_val ''rule1'' = Inr (Some r) \<and> map sr_element (r_matchRules r) = [CLA_ELEM, OFFSET_CDATA, OFFSET_CDATA + 1]"
proof -
  have "case load_match_value ''in=1,t=0,CLA=b0,DATA0=0102,'' (APDU_SINGLE_RULE_new 7, []) of Inl _ \<Rightarrow> False
    | Inr st \<Rightarrow> map sr_element (snd st) = [CLA_ELEM, OFFSET_CDATA, OFFSET_CDATA + 1] \<and>
        (case load_action_value ''rule1'' ''in=1,INS=20,'' (fst st) of Inl _ \<Rightarrow> False | Inr as \<Rightarrow> True)" by code_simp
  then obtain sr ms as where m: "load_match_value ''in=1,t=0,CLA=b0,DATA0=0102,'' (APDU_SINGLE_RULE_new 7, []) = Inr (sr, ms)"
    "map sr_element ms = [CLA_ELEM, OFFSET_CDATA, OFFSET_CDATA + 1]" and a: "load_action_value ''rule1'' ''in=1,INS=20,'' sr = Inr as"
    by (auto split: sum.splits)
  have "fmt_u (Suc (Suc 0)) = ''2''" by code_simp
  then have "\<exists>r. load_rule_section 7 (Some comma_dict) ''rule1'' = Inr r \<and> r_matchRules r = ms"
    using m a by (simp add: load_rule_section_def opt_int_def comma_values numeral_2_eq_2)
  then obtain r where r: "load_rule_section 7 (Some comma_dict) ''rule1'' = Inr r" "r_matchRules r = ms" by blast
  have pos: "find_idx is_digit ''rule1'' = Some 4" by code_simp
  have "load_rule_section_u 7 semi_val ''rule1'' = Inr (Some r)"
  proof (rule configurations_load_same_rule[OF r(1) pos _ _ semi_values(6) comma_values(6) semi_values(7)])
    fix k assume "k \<in> {''USAGE'', ''APDUIN'', ''DELAY'', ''MATCH1'', ''ACTION''}"
    then show "get_value (Some comma_dict) ''rule1'' (CHR '':'' # k) = Inr (swapped (semi_val k))"
      by (elim insertE emptyE) (simp_all only: comma_values semi_values(1-5)[symmetric])
  qed simp
  then show ?thesis by (intro exI[of _ r] conjI) (simp_all only: r(2) m(2))
qed

text \<open>All values of a rule, in order.\<close>

definition written_value :: "nat \<times> nat \<times> ((string \<times> int) \<times> byte) list \<Rightarrow> string" where
  "written_value m = (let (t, dir, es) = m in swapped (print_match t dir es))"

definition value_rules :: "nat \<times> nat \<times> ((string \<times> int) \<times> byte) list \<Rightarrow> APDU_SINGLE_RULE list" where
  "value_rules m = (let (t, dir, es) = m in map (elem_rule t dir) es)"

definition match_written_ok :: "nat \<times> nat \<times> ((string \<times> int) \<times> byte) list \<Rightarrow> bool" where
  "match_written_ok m = (let (t, dir, es) = m in int t < 2 ^ 31 \<and> int dir < 2 ^ 31 \<and> list_all (\<lambda>e. fst e \<in> set header_names) es)"

lemma match_loop_all:
  assumes "list_all match_written_ok ms" and "find_idx is_digit ruleName = Some p" and "p \<le> 4"
    and "\<forall>j < length ms. val (''MATCH'' @ fmt_u (c + j)) = written_value (ms ! j)"
    and "val (''MATCH'' @ fmt_u (c + length ms)) = []" and "c + length ms \<le> INT_MAX"
  shows "\<exists>sr'. match_loop_u val ruleName c (sr, acc) = Inr (sr', acc @ concat (map value_rules ms))"
  using assms(1,4-6)
proof (induction ms arbitrary: c sr acc)
  case Nil
  then show ?case by (subst match_loop_u.simps) simp
next
  case (Cons m ms)
  obtain t dir es where m: "m = (t, dir, es)" by (cases m)
  have ok: "\<forall>e \<in> set es. fst e \<in> set header_names" "int t < 2 ^ 31" "int dir < 2 ^ 31"
    using Cons.prems(1) by (simp_all add: m match_written_ok_def list_all_iff)
  obtain sr1 where "load_match_value (print_match t dir es) (sr, acc) = Inr (sr1, acc @ value_rules m)"
    using load_match_value_print[OF ok, of "[]" sr acc] by (auto simp: value_rules_def m)
  then have one: "load_match_value_u ruleName (written_value m) (sr, acc) = Inr (sr1, acc @ value_rules m)"
    using match_value_swapped[OF _ assms(2,3)] by (simp add: written_value_def m)
  have v: "val (''MATCH'' @ fmt_u c) = written_value m" using Cons.prems(2)[rule_format, of 0] by simp
  have ne: "written_value m \<noteq> []" by (simp add: written_value_def m print_match_def)
  have "\<forall>j < length ms. val (''MATCH'' @ fmt_u (c + 1 + j)) = written_value (ms ! j)"
    using Cons.prems(2) by (auto dest: spec[of _ "Suc _"])
  then obtain sr' where "match_loop_u val ruleName (c + 1) (sr1, acc @ value_rules m) =
      Inr (sr', (acc @ value_rules m) @ concat (map value_rules ms))"
    using Cons.IH[of "c + 1" sr1 "acc @ value_rules m"] Cons.prems(1,3,4) by auto
  then show ?case using v ne one Cons.prems(4) by (subst match_loop_u.simps) simp
qed

text \<open>
  C10: In the \<open>UNICODE\<close> build all \<open>MATCH\<close> values count. For a rule with \<open>USAGE\<close> and no action whose values
  \<open>MATCH1\<close>, \<open>MATCH2\<close>, ... are written with semicolons, the loaded rule has the elementary rules of all of
  them, in order; the ANSI loader stops after \<open>MATCH1\<close>.
\<close>

theorem all_match_values_loaded:
  assumes "list_all match_written_ok ms" and "find_idx is_digit ruleName = Some p" and "p \<le> 4"
    and "\<forall>j < length ms. val (''MATCH'' @ fmt_u (1 + j)) = written_value (ms ! j)"
    and "val (''MATCH'' @ fmt_u (1 + length ms)) = []" and "1 + length ms \<le> INT_MAX"
    and "val ''USAGE'' \<noteq> []" and "val ''ACTION'' = []"
  shows "\<exists>r. load_rule_section_u junk val ruleName = Inr (Some r) \<and> r_ruleName r = ruleName \<and>
    r_usage r = strtol 10 (val ''USAGE'') \<and> r_matchRules r = concat (map value_rules ms) \<and> r_actionRules r = []"
proof -
  obtain sr' where "match_loop_u val ruleName 1 (APDU_SINGLE_RULE_new junk, []) = Inr (sr', [] @ concat (map value_rules ms))"
    using match_loop_all[OF assms(1-6)] by blast
  then show ?thesis using assms(7,8) by (simp add: load_rule_section_u_def)
qed

definition two_match_vals :: "string \<Rightarrow> string" where
  "two_match_vals k =
     (if k = ''USAGE'' then ''1'' else if k = ''MATCH1'' then written_value (0, 1, [((''CLA'', 0), 0xB0)])
      else if k = ''MATCH2'' then written_value (1, 1, [((''INS'', 1), 0x20)]) else [])"

theorem all_match_values_loaded_witness:
  "\<exists>r. load_rule_section_u 7 two_match_vals ''RULE1'' = Inr (Some r) \<and>
     r_matchRules r = [elem_rule 0 1 ((''CLA'', 0), 0xB0), elem_rule 1 1 ((''INS'', 1), 0x20)]"
proof -
  let ?ms = "[(0, 1, [((''CLA'', 0), 0xB0)]), (1, 1, [((''INS'', 1), 0x20)])] :: (nat \<times> nat \<times> ((string \<times> int) \<times> byte) list) list"
  have n: "fmt_u 1 = ''1''" "fmt_u 2 = ''2''" "fmt_u (1 + length ?ms) = ''3''" "find_idx is_digit ''RULE1'' = Some 4" by code_simp+
  have "fmt_u (Suc 0) = ''1''" using n(1) by simp
  then have v: "\<forall>j < length ?ms. two_match_vals (''MATCH'' @ fmt_u (1 + j)) = written_value (?ms ! j)"
    by (auto simp: two_match_vals_def n less_2_cases_iff numeral_2_eq_2[symmetric])
  have ok: "list_all match_written_ok ?ms" by (simp add: match_written_ok_def header_names_def elem_defs)
  have u: "two_match_vals (''MATCH'' @ fmt_u (1 + length ?ms)) = []" "two_match_vals ''USAGE'' \<noteq> []" "two_match_vals ''ACTION'' = []"
    "1 + length ?ms \<le> INT_MAX"
    unfolding n(3) by (simp_all add: two_match_vals_def INT_MAX_def)
  have "concat (map value_rules ?ms) = [elem_rule 0 1 ((''CLA'', 0), 0xB0), elem_rule 1 1 ((''INS'', 1), 0x20)]"
    by (simp add: value_rules_def)
  then show ?thesis using all_match_values_loaded[OF ok n(4) _ v u(1,4,2,3), of 7] by (metis order_refl)
qed

end
