(* ===== verification/Ini_Access.thy ===== *)
theory Ini_Access
  imports Ini_Files
begin

text \<open>
  The rest of the interface of \<open>Iniparser/iniparser_all.h\<close>: presence of an entry, numbers, the keys of
  a section, changing entries, and the two dumps, for inspection and as a loadable ini file. The
  theory ends with the two-call enumeration of a section's keys and with the round trip of a
  dictionary through a dumped file. The file written to is open; a dump is the text it appends.
\<close>

subsection \<open>Entries and numbers\<close>

definition iniparser_find_entry :: "dictionary option \<Rightarrow> string \<Rightarrow> int" where
  "iniparser_find_entry ini entry =
     (if iniparser_getstring ini entry INI_INVALID_KEY \<noteq> INI_INVALID_KEY then 1 else 0)"

text \<open>\<open>strtol\<close> with base 0: the prefix of the digits decides about the base.\<close>

definition detected_base :: "string \<Rightarrow> nat" where
  "detected_base s =
     (if skip_hex_prefix s \<noteq> s then 16 else case s of [] \<Rightarrow> 10 | c # _ \<Rightarrow> if c = CHR ''0'' then 8 else 10)"

definition strtol_0 :: "string \<Rightarrow> int" where
  "strtol_0 str =
     (let s = dropWhile is_space str;
          digits = (case s of [] \<Rightarrow> [] | c # cs \<Rightarrow> if c = CHR ''-'' \<or> c = CHR ''+'' then cs else s)
      in strtol (detected_base digits) str)"

text \<open>The value of a section is \<open>NULL\<close>, which \<open>strtol\<close> reads through.\<close>

definition iniparser_getlongint :: "dictionary option \<Rightarrow> string \<Rightarrow> int \<Rightarrow> int res" where
  "iniparser_getlongint d key notfound =
     (case iniparser_getstring d key INI_INVALID_KEY of
        INI_INVALID_KEY \<Rightarrow> Inr notfound
      | NULL \<Rightarrow> Inl Null_Deref
      | Str s \<Rightarrow> Inr (strtol_0 s))"

text \<open>\<open>long\<close> and \<open>int\<close> have the same 32 bits.\<close>

definition iniparser_getint :: "dictionary option \<Rightarrow> string \<Rightarrow> int \<Rightarrow> int res" where
  "iniparser_getint d key notfound = iniparser_getlongint d key notfound"

definition iniparser_set :: "bool \<Rightarrow> dictionary option \<Rightarrow> string \<Rightarrow> charp \<Rightarrow> (dictionary option \<times> int) res" where
  "iniparser_set ok ini entry v =
     (case ini of
        None \<Rightarrow> Inr (None, -1)
      | Some d \<Rightarrow> bindE (dictionary_set ok d (strlwc entry (ASCIILINESZ + 1)) v) (\<lambda>(d', rc). Inr (Some d', rc)))"

definition iniparser_unset :: "dictionary option \<Rightarrow> string \<Rightarrow> dictionary option" where
  "iniparser_unset ini entry =
     (case ini of None \<Rightarrow> None | Some d \<Rightarrow> Some (dictionary_unset d (strlwc entry (ASCIILINESZ + 1))))"

subsection \<open>The keys of a section\<close>

text \<open>The slots in use with their values, in the order in which all loops over the table visit them.\<close>

definition dict_entries :: "dictionary \<Rightarrow> (string \<times> charp) list" where
  "dict_entries d = map (\<lambda>(k, v). (the k, v)) (filter (\<lambda>(k, v). k \<noteq> None) (zip (d_key d) (d_val d)))"

text \<open>
  \<open>keym\<close>, the lower-case name with a colon at its end, in an array of \<open>ASCIILINESZ + 1\<close> characters:
  the position of the colon is that of the full name, beyond the array for a long one.
\<close>

definition section_prefix :: "string \<Rightarrow> string res" where
  "section_prefix s =
     (if length s < ASCIILINESZ + 1 then Inr (strlwc s (ASCIILINESZ + 1) @ '':'') else Inl Out_Of_Bounds)"

definition iniparser_getsecnkeys :: "dictionary option \<Rightarrow> string \<Rightarrow> int res" where
  "iniparser_getsecnkeys d s =
     (case d of
        None \<Rightarrow> Inr 0
      | Some dict \<Rightarrow>
          if iniparser_find_entry d s = 0 then Inr 0
          else bindE (section_prefix s) (\<lambda>keym.
            Inr (int (length (filter (\<lambda>(k, v). prefix keym k) (dict_entries dict))))))"

text \<open>Storing the pointers into the caller's array; its elements are \<open>None\<close> before.\<close>

definition store_key :: "string \<Rightarrow> string option list \<times> nat \<Rightarrow> (string option list \<times> nat) res" where
  "store_key k st = (let (keys, i) = st in
     if i < length keys then Inr (keys[i := Some k], i + 1) else Inl Out_Of_Bounds)"

definition iniparser_getseckeys ::
    "dictionary option \<Rightarrow> string \<Rightarrow> string option list option \<Rightarrow> string option list option res" where
  "iniparser_getseckeys d s keys =
     (case (d, keys) of
        (Some dict, Some arr) \<Rightarrow>
          if iniparser_find_entry d s = 0 then Inr None
          else bindE (section_prefix s) (\<lambda>keym.
            bindE (foldE store_key (filter (prefix keym) (map fst (dict_entries dict))) (arr, 0)) (\<lambda>(arr', i).
            Inr (Some arr')))
      | _ \<Rightarrow> Inr None)"

subsection \<open>Dumps\<close>

text \<open>\<open>%20s\<close> and \<open>%-30s\<close>.\<close>

definition fmt_right :: "nat \<Rightarrow> string \<Rightarrow> string" where
  "fmt_right n s = replicate (n - length s) (CHR '' '') @ s"

definition fmt_left :: "nat \<Rightarrow> string \<Rightarrow> string" where
  "fmt_left n s = s @ replicate (n - length s) (CHR '' '')"

text \<open>A stored value is never the token \<open>(char*)-1\<close>; reading text through it would be a fault.\<close>

definition value_text :: "string \<Rightarrow> charp \<Rightarrow> string res" where
  "value_text null v = (case v of NULL \<Rightarrow> Inr null | Str s \<Rightarrow> Inr s | INI_INVALID_KEY \<Rightarrow> Inl Out_Of_Bounds)"

definition dictionary_dump :: "dictionary option \<Rightarrow> string res" where
  "dictionary_dump d =
     (case d of
        None \<Rightarrow> Inr []
      | Some dict \<Rightarrow>
          if d_n dict < 1 then Inr (''empty dictionary'' @ [NL])
          else foldE (\<lambda>(k, v) out. bindE (value_text ''UNDEF'' v) (\<lambda>t.
                 Inr (out @ fmt_right 20 k @ [CHR 0x09] @ ''['' @ t @ '']'' @ [NL]))) (dict_entries dict) [])"

definition iniparser_dump :: "dictionary option \<Rightarrow> string res" where
  "iniparser_dump d =
     (case d of
        None \<Rightarrow> Inr []
      | Some dict \<Rightarrow>
          foldE (\<lambda>(k, v) out.
             if v \<noteq> NULL then bindE (value_text [] v) (\<lambda>t. Inr (out @ ''['' @ k @ '']=['' @ t @ '']'' @ [NL]))
             else Inr (out @ ''['' @ k @ '']=UNDEF'' @ [NL])) (dict_entries dict) [])"

text \<open>
  One section as ini text. Here the name is used as it is given, while the entry was looked up in
  lower case; the \<open>sprintf\<close> into \<open>keym\<close> does not check the length.
\<close>

definition dump_entry :: "string \<Rightarrow> string \<times> charp \<Rightarrow> string \<Rightarrow> string res" where
  "dump_entry s e out = (let (k, v) = e in
     if prefix (s @ '':'') k
     then bindE (value_text [] v) (\<lambda>t. Inr (out @ fmt_left 30 (drop (length s + 1) k) @ '' = '' @ t @ [NL]))
     else Inr out)"

definition iniparser_dumpsection_ini :: "dictionary option \<Rightarrow> string \<Rightarrow> string res" where
  "iniparser_dumpsection_ini d s =
     (case d of
        None \<Rightarrow> Inr []
      | Some dict \<Rightarrow>
          if iniparser_find_entry d s = 0 then Inr []
          else bindE (guardE (length s + 1 < ASCIILINESZ + 1) Out_Of_Bounds) (\<lambda>_.
            bindE (foldE (dump_entry s) (dict_entries dict) ([NL] @ ''['' @ s @ '']'' @ [NL])) (\<lambda>out.
            Inr (out @ [NL]))))"

text \<open>Without sections every key is printed as it is, and \<open>%s\<close> reads through a value \<open>NULL\<close>.\<close>

definition dump_plain :: "string \<times> charp \<Rightarrow> string \<Rightarrow> string res" where
  "dump_plain e out = (let (k, v) = e in
     if v = NULL then Inl Null_Deref else bindE (value_text [] v) (\<lambda>t. Inr (out @ k @ '' = '' @ t @ [NL])))"

definition iniparser_dump_ini :: "dictionary option \<Rightarrow> string res" where
  "iniparser_dump_ini d =
     (case d of
        None \<Rightarrow> Inr []
      | Some dict \<Rightarrow>
          if iniparser_getnsec d < 1 then foldE dump_plain (dict_entries dict) []
          else bindE (foldE (\<lambda>i out. case iniparser_getsecname d (int i) of
                 None \<Rightarrow> Inr out
               | Some secname \<Rightarrow> bindE (iniparser_dumpsection_ini d secname) (\<lambda>t. Inr (out @ t)))
               [0..<nat (iniparser_getnsec d)] []) (\<lambda>out.
            Inr (out @ [NL])))"

subsection \<open>The slots in use\<close>

lemma set_dict_entries:
  assumes "dict_wf d"
  shows "(k, v) \<in> set (dict_entries d) \<longleftrightarrow> dict_abs d k = Some v"
proof -
  note w = dict_wfD(1,2)[OF assms]
  have "(k, v) \<in> set (dict_entries d) \<longleftrightarrow> (Some k, v) \<in> set (zip (d_key d) (d_val d))"
    by (force simp: dict_entries_def)
  then show ?thesis using w by (auto simp: dict_abs_Some[OF assms] in_set_zip)
qed

lemma distinct_filter_nth:
  "\<forall>i < length ks. \<forall>j < length ks. P (ks ! i) \<longrightarrow> ks ! i = ks ! j \<longrightarrow> i = j \<Longrightarrow> distinct (filter P ks)"
proof (induction ks)
  case (Cons x xs)
  have "distinct (filter P xs)"
  proof (intro Cons.IH allI impI)
    fix i j assume "i < length xs" "j < length xs" "P (xs ! i)" "xs ! i = xs ! j"
    then show "i = j" using Cons.prems[rule_format, of "Suc i" "Suc j"] by simp
  qed
  moreover have "x \<notin> set xs" if "P x"
    using Cons.prems[rule_format, of 0 "Suc j" for j] that by (auto simp: in_set_conv_nth)
  ultimately show ?case by simp
qed simp

lemma keys_dict_entries:
  assumes "dict_wf d"
  shows "map fst (dict_entries d) = map the (filter (\<lambda>k. k \<noteq> None) (d_key d))"
proof -
  have "length ks = length vs \<Longrightarrow>
    map fst (map (\<lambda>(k, v). (the k, v)) (filter (\<lambda>(k, v). k \<noteq> None) (zip ks vs))) = map the (filter (\<lambda>k. k \<noteq> None) ks)"
    for ks and vs :: "charp list"
    by (induction ks vs rule: list_induct2) auto
  then show ?thesis unfolding dict_entries_def using dict_wfD(1,2)[OF assms] by metis
qed

lemma distinct_dict_entries:
  assumes "dict_wf d"
  shows "distinct (map fst (dict_entries d))"
proof -
  have "distinct (filter (\<lambda>k. k \<noteq> None) (d_key d))"
  proof (rule distinct_filter_nth, intro allI impI)
    fix i j assume "i < length (d_key d)" "j < length (d_key d)" "d_key d ! i \<noteq> None" "d_key d ! i = d_key d ! j"
    then show "i = j" using dict_wfD(2)[OF assms] dict_wfD(7)[OF assms, of i j] by auto
  qed
  moreover have "inj_on the (set (filter (\<lambda>k. k \<noteq> None) (d_key d)))" by (auto intro: inj_onI)
  ultimately show ?thesis unfolding keys_dict_entries[OF assms] by (simp add: distinct_map)
qed

lemma foldE_store_key:
  "length ks \<le> length arr - i \<Longrightarrow> i \<le> length arr \<Longrightarrow>
     foldE store_key ks (arr, i) = Inr (take i arr @ map Some ks @ drop (i + length ks) arr, i + length ks)"
proof (induction ks arbitrary: arr i)
  case (Cons k ks)
  have "i < length arr" using Cons.prems by simp
  then have "take (Suc i) (arr[i := Some k]) = take i arr @ [Some k]"
    by (simp add: take_Suc_conv_app_nth)
  then show ?case using Cons.prems Cons.IH[of "arr[i := Some k]" "Suc i"] by (simp add: store_key_def)
qed simp

text \<open>
  The keys of a section can be enumerated in two calls. For an existing section with a name of at
  most 1024 characters, in any case, the number that \<open>iniparser_getsecnkeys\<close> returns is the size of
  array \<open>iniparser_getseckeys\<close> needs: it fills such an array with distinct keys, exactly those stored
  under the section.
\<close>

theorem section_keys_enumerated:
  assumes "dict_wf d" and "iniparser_find_entry (Some d) s = 1" and "length s \<le> 1024"
  shows "\<exists>ks. iniparser_getsecnkeys (Some d) s = Inr (int (length ks)) \<and>
    iniparser_getseckeys (Some d) s (Some (replicate (length ks) None)) = Inr (Some (map Some ks)) \<and>
    distinct ks \<and> set ks = {k. dict_abs d k \<noteq> None \<and> prefix (lowered s @ '':'') k}"
proof -
  let ?p = "lowered s @ '':''"
  let ?ks = "filter (prefix ?p) (map fst (dict_entries d))"
  have p: "section_prefix s = Inr ?p"
    using assms(3) by (simp add: section_prefix_def ASCIILINESZ_def strlwc_def lowered_def)
  have "length (filter (\<lambda>(k, v). prefix ?p k) es) = length (filter (prefix ?p) (map fst es))" for es :: "(string \<times> charp) list"
    by (induction es) auto
  then have "iniparser_getsecnkeys (Some d) s = Inr (int (length ?ks))"
    using assms(2) by (simp add: iniparser_getsecnkeys_def p)
  moreover have "iniparser_getseckeys (Some d) s (Some (replicate (length ?ks) None)) = Inr (Some (map Some ?ks))"
    using assms(2) foldE_store_key[of ?ks "replicate (length ?ks) None" 0] by (simp add: iniparser_getseckeys_def p)
  moreover have "distinct ?ks" using distinct_dict_entries[OF assms(1)] by simp
  moreover have "set ?ks = {k. dict_abs d k \<noteq> None \<and> prefix ?p k}"
    using set_dict_entries[OF assms(1)] by force
  ultimately show ?thesis by blast
qed

definition two_keys :: dictionary where
  "two_keys = dict_put ''rule1:usage'' (Str ''1'') (dict_put ''rule1'' NULL (dict_put ''rule12:usage'' (Str ''0'')
     (dict_put ''rule1:match1'' (Str ''in=1,'') (dictionary_new 0))))"

lemma two_keys: "dict_wf two_keys" "dict_abs two_keys =
    [''rule1:match1'' \<mapsto> Str ''in=1,'', ''rule12:usage'' \<mapsto> Str ''0'', ''rule1'' \<mapsto> NULL, ''rule1:usage'' \<mapsto> Str ''1'']"
proof -
  have e: "dict_abs (dictionary_new 0) = Map.empty" using dict_abs_new by (rule ext)
  show "dict_wf two_keys" by (simp add: two_keys_def dict_put_correct)
  show "dict_abs two_keys =
    [''rule1:match1'' \<mapsto> Str ''in=1,'', ''rule12:usage'' \<mapsto> Str ''0'', ''rule1'' \<mapsto> NULL, ''rule1:usage'' \<mapsto> Str ''1'']"
    by (simp only: two_keys_def dict_put_correct dict_wf_new e)
qed

theorem section_keys_enumerated_witness:
  "\<exists>ks. iniparser_getsecnkeys (Some two_keys) ''RULE1'' = Inr (int (length ks)) \<and>
    iniparser_getseckeys (Some two_keys) ''RULE1'' (Some (replicate (length ks) None)) = Inr (Some (map Some ks)) \<and>
    set ks = {''rule1:match1'', ''rule1:usage''}"
proof -
  have low: "strlwc ''RULE1'' (ASCIILINESZ + 1) = ''rule1''" "lowered ''RULE1'' @ '':'' = ''rule1:''" by code_simp+
  have "iniparser_find_entry (Some two_keys) ''RULE1'' = 1"
    unfolding iniparser_find_entry_def iniparser_getstring_def option.case low by (simp add: dictionary_get_abs two_keys(2))
  then obtain ks where ks: "iniparser_getsecnkeys (Some two_keys) ''RULE1'' = Inr (int (length ks))"
    "iniparser_getseckeys (Some two_keys) ''RULE1'' (Some (replicate (length ks) None)) = Inr (Some (map Some ks))"
    "set ks = {k. dict_abs two_keys k \<noteq> None \<and> prefix (lowered ''RULE1'' @ '':'') k}"
    using section_keys_enumerated[OF two_keys(1), of "''RULE1''"] by auto
  have eq: "{k. dict_abs two_keys k \<noteq> None \<and> prefix ''rule1:'' k} = {''rule1:match1'', ''rule1:usage''}"
  proof -
    have dom: "dict_abs two_keys k \<noteq> None \<longleftrightarrow>
        k \<in> {''rule1:match1'', ''rule12:usage'', ''rule1'', ''rule1:usage''}" for k
      by (auto simp: two_keys(2))
    have "prefix ''rule1:'' ''rule1:match1''" "\<not> prefix ''rule1:'' ''rule12:usage''"
      "\<not> prefix ''rule1:'' ''rule1''" "prefix ''rule1:'' ''rule1:usage''"
      by code_simp+
    then show ?thesis unfolding dom by (intro set_eqI) (simp only: mem_Collect_eq insert_iff empty_iff, metis)
  qed
  have "set ks = {''rule1:match1'', ''rule1:usage''}" using ks(3) unfolding low eq .
  with ks(1,2) show ?thesis by (intro exI conjI)
qed

subsection \<open>Through a file and back\<close>

text \<open>
  Dictionaries that a dump can represent: every key is a section without value, or belongs to a
  section that is present and has a value that needs no quotes or is empty; names are those the reader
  accepts, in lower case, and the lines fit its buffer.
\<close>

definition dumpable_entry :: "dictionary \<Rightarrow> string \<times> charp \<Rightarrow> bool" where
  "dumpable_entry d e = (let (k, v) = e; s = takeWhile (\<lambda>c. c \<noteq> CHR '':'') k; n = drop (length s + 1) k in
     if CHR '':'' \<notin> set k then v = NULL \<and> name_ok k \<and> lowered k = k \<and> length k \<le> 1000
     else find_slot d s \<noteq> None \<and> name_ok n \<and> lowered n = n \<and>
       (case v of Str x \<Rightarrow> (x = [] \<or> value_ok x) \<and> length n + length x \<le> 980 | _ \<Rightarrow> False))"

definition dumpable :: "dictionary \<Rightarrow> bool" where
  "dumpable d \<longleftrightarrow> list_all (dumpable_entry d) (dict_entries d)"

lemma takeWhile_to_colon: "CHR '':'' \<notin> set a \<Longrightarrow> takeWhile (\<lambda>c. c \<noteq> CHR '':'') (a @ CHR '':'' # b) = a"
  by (induction a) auto

lemma takeWhile_colon:
  assumes "CHR '':'' \<in> set k"
  obtains n where "k = takeWhile (\<lambda>c. c \<noteq> CHR '':'') k @ '':'' @ n"
    "n = drop (length (takeWhile (\<lambda>c. c \<noteq> CHR '':'') k) + 1) k"
proof -
  obtain a b where k: "k = a @ CHR '':'' # b" "CHR '':'' \<notin> set a" using split_list_first[OF assms] by blast
  then have a: "takeWhile (\<lambda>c. c \<noteq> CHR '':'') k = a" by (simp add: takeWhile_to_colon)
  show ?thesis by (rule that[of b]) (simp_all add: a, simp_all add: k(1))
qed

lemma dumpable_section:
  assumes "dict_wf d" "dumpable d" "dict_abs d k = Some v" "CHR '':'' \<notin> set k"
  shows "v = NULL" "name_ok k" "lowered k = k" "length k \<le> 1000"
proof -
  have "(k, v) \<in> set (dict_entries d)" using set_dict_entries[OF assms(1)] assms(3) by simp
  then have "dumpable_entry d (k, v)" using assms(2) by (simp add: dumpable_def list_all_iff)
  then show "v = NULL" "name_ok k" "lowered k = k" "length k \<le> 1000"
    using assms(4) by (simp_all add: dumpable_entry_def)
qed

lemma dumpable_key:
  assumes "dict_wf d" "dumpable d" "dict_abs d k = Some v" "CHR '':'' \<in> set k"
  obtains s n x where "k = s @ '':'' @ n" "CHR '':'' \<notin> set s" "dict_abs d s = Some NULL" "v = Str x"
    "name_ok n" "lowered n = n" "x = [] \<or> value_ok x" "length n + length x \<le> 980"
proof -
  let ?s = "takeWhile (\<lambda>c. c \<noteq> CHR '':'') k"
  have "(k, v) \<in> set (dict_entries d)" using set_dict_entries[OF assms(1)] assms(3) by simp
  then have e: "dumpable_entry d (k, v)" using assms(2) by (simp add: dumpable_def list_all_iff)
  obtain n where n: "k = ?s @ '':'' @ n" "n = drop (length ?s + 1) k" using takeWhile_colon[OF assms(4)] by blast
  have c: "CHR '':'' \<notin> set ?s" by (auto dest: set_takeWhileD)
  have f: "find_slot d ?s \<noteq> None" "name_ok n" "lowered n = n" and v: "case v of Str x \<Rightarrow> (x = [] \<or> value_ok x) \<and> length n + length x \<le> 980 | _ \<Rightarrow> False"
    using e assms(4) unfolding dumpable_entry_def Let_def prod.case n(2)[symmetric] by simp_all
  obtain x where x: "v = Str x" "x = [] \<or> value_ok x" "length n + length x \<le> 980" using v by (cases v) simp_all
  obtain w where "dict_abs d ?s = Some w" using f(1) by (auto simp: dict_abs_def)
  with dumpable_section[OF assms(1,2) _ c] have "dict_abs d ?s = Some NULL" by auto
  with that n(1) c f(2,3) x show ?thesis by blast
qed

text \<open>The lines of the dump.\<close>

definition entry_line :: "string \<Rightarrow> string \<times> charp \<Rightarrow> string" where
  "entry_line s e = fmt_left 30 (drop (length s + 1) (fst e)) @ '' = '' @ (case snd e of Str x \<Rightarrow> x | _ \<Rightarrow> [])"

definition section_items :: "dictionary \<Rightarrow> string \<Rightarrow> (string \<times> charp) list" where
  "section_items d s = filter (\<lambda>e. prefix (s @ '':'') (fst e)) (dict_entries d)"

definition dumped_section :: "dictionary \<Rightarrow> string \<Rightarrow> string list" where
  "dumped_section d s = [[], ''['' @ s @ '']''] @ map (entry_line s) (section_items d s) @ [[]]"

definition sections_of :: "dictionary \<Rightarrow> string list" where
  "sections_of d = map the (filter is_section_key (d_key d))"

abbreviation text_of :: "string list \<Rightarrow> string" where
  "text_of ls \<equiv> concat (map (\<lambda>l. l @ [NL]) ls)"

lemma foldE_dump_entry:
  assumes "\<forall>e \<in> set es. snd e \<noteq> INI_INVALID_KEY"
  shows "foldE (dump_entry s) es out = Inr (out @ text_of (map (entry_line s) (filter (\<lambda>e. prefix (s @ '':'') (fst e)) es)))"
  using assms
proof (induction es arbitrary: out)
  case (Cons e es)
  obtain k v where e: "e = (k, v)" by (cases e)
  show ?case
  proof (cases v)
    case INI_INVALID_KEY
    then show ?thesis using Cons.prems e by simp
  qed (use Cons e in \<open>auto simp: dump_entry_def entry_line_def value_text_def\<close>)
qed simp

lemma nth_section_filter:
  "i < length (filter is_section_key ks) \<Longrightarrow> nth_section ks i = filter is_section_key ks ! i"
  by (induction ks arbitrary: i) (auto split: nat.split)

lemma sections_of:
  assumes "dict_wf d"
  shows "set (sections_of d) = {s. CHR '':'' \<notin> set s \<and> dict_abs d s \<noteq> None}"
proof -
  have "s \<in> set (sections_of d) \<longleftrightarrow> Some s \<in> set (d_key d) \<and> CHR '':'' \<notin> set s" for s
    by (force simp: sections_of_def is_section_key_def split: option.splits)
  moreover have "Some s \<in> set (d_key d) \<longleftrightarrow> dict_abs d s \<noteq> None" for s
    using dict_abs_Some[OF assms, of s] dict_wfD(2)[OF assms] by (auto simp: in_set_conv_nth)
  ultimately show ?thesis by auto
qed

lemma dump_section_text:
  assumes "dict_wf d" "dumpable d" "s \<in> set (sections_of d)"
  shows "iniparser_dumpsection_ini (Some d) s = Inr (text_of (dumped_section d s))"
proof -
  obtain v where s: "CHR '':'' \<notin> set s" "dict_abs d s = Some v" using assms(1,3) sections_of by auto
  note ok = dumpable_section[OF assms(1,2) s(2,1)]
  have "strlwc s (ASCIILINESZ + 1) = s" using ok(3,4) by (simp add: strlwc_def ASCIILINESZ_def lowered_def)
  then have "iniparser_find_entry (Some d) s = 1"
    using s(2) ok(1) by (simp add: iniparser_find_entry_def iniparser_getstring_def dictionary_get_abs)
  moreover have "snd e \<noteq> INI_INVALID_KEY" if "e \<in> set (dict_entries d)" for e
  proof -
    obtain k v where e: "e = (k, v)" by (cases e)
    then have "dict_abs d k = Some v" using that set_dict_entries[OF assms(1)] by simp
    then show ?thesis
      using dumpable_section(1)[OF assms(1,2)] dumpable_key[OF assms(1,2)] e by (cases "CHR '':'' \<in> set k") force+
  qed
  ultimately show ?thesis using ok(4)
    by (simp add: iniparser_dumpsection_ini_def foldE_dump_entry dumped_section_def section_items_def ASCIILINESZ_def)
qed

text \<open>What each line does when the file is read.\<close>

definition read_line :: "string \<Rightarrow> load_state \<Rightarrow> load_state" where
  "read_line l s = (if l = [] then s else load_line (rstrip l) s)"

definition readable :: "string \<Rightarrow> bool" where
  "readable l \<longleftrightarrow> l = [] \<or> (NL \<notin> set l \<and> length l \<le> 1020 \<and> (rstrip l \<noteq> [] \<longrightarrow> last (rstrip l) \<noteq> CHR 0x5C))"

lemma ls_line_read_line [simp]: "ls_line s = [] \<Longrightarrow> ls_line (read_line l s) = []"
  by (simp add: read_line_def)

lemma load_loop_text:
  assumes "list_all readable ls" and "ls_line s = []"
  shows "load_loop (text_of ls) s = Some (fold read_line ls s)"
  using assms
proof (induction ls arbitrary: s)
  case Nil
  then show ?case by (simp add: load_loop.simps)
next
  case (Cons l ls)
  have "load_loop (l @ NL # text_of ls) s = load_loop (text_of ls) (read_line l s)"
    using Cons.prems load_loop_blank[of s "text_of ls"] load_loop_rstrip[of l s "text_of ls"]
    by (auto simp: read_line_def readable_def)
  then show ?case using Cons by simp
qed

definition item_ok :: "string \<Rightarrow> string \<times> charp \<Rightarrow> bool" where
  "item_ok s e \<longleftrightarrow> (\<exists>n x. e = (s @ '':'' @ n, Str x) \<and> name_ok n \<and> lowered n = n \<and> (x = [] \<or> value_ok x) \<and>
     length n + length x \<le> 980)"

lemma rstrip_entry:
  assumes "name_ok n" and "x = [] \<or> value_ok x"
  shows "rstrip (fmt_left 30 n @ '' = '' @ x) =
    (if x = [] then n @ replicate (30 - length n) (CHR '' '') @ '' ='' else fmt_left 30 n @ '' = '' @ x)"
proof (cases "x = []")
  case True
  then show ?thesis by (simp add: rstrip_def fmt_left_def is_space_def)
next
  case False
  with assms(2) have "rstrip (fmt_left 30 n @ '' = '' @ x) = fmt_left 30 n @ '' = '' @ x"
    by (intro rstrip_id) (simp add: value_ok_def)
  with False show ?thesis by simp
qed

lemma read_item:
  assumes "item_ok s e" and "ls_section st = s" and "ls_line st = []"
  shows "readable (entry_line s e)"
    "ls_dict (read_line (entry_line s e) st) = dict_put (fst e) (snd e) (ls_dict st)"
    "ls_section (read_line (entry_line s e) st) = s" "ls_errs (read_line (entry_line s e) st) = ls_errs st"
proof -
  obtain n x where e: "e = (s @ '':'' @ n, Str x)" and n: "name_ok n" "lowered n = n" and x: "x = [] \<or> value_ok x"
    and len: "length n + length x \<le> 980"
    using assms(1) by (auto simp: item_ok_def)
  let ?l = "fmt_left 30 n @ '' = '' @ x"
  have l: "entry_line s e = ?l" "?l \<noteq> []" by (simp_all add: entry_line_def e)
  have "iniparser_line (rstrip ?l) sec key val = (LINE_VALUE, sec, n, x)" for sec key val
    using value_line_padded[OF n(1), of x "30 - length n"] empty_value_line[OF n(1), of "30 - length n"] n(2) x
    unfolding rstrip_entry[OF n(1) x] by (auto simp: fmt_left_def)
  then have "load_line (rstrip ?l) st =
      st\<lparr>ls_line := [], ls_section := s, ls_key := n, ls_val := x, ls_dict := dict_put (s @ '':'' @ n) (Str x) (ls_dict st)\<rparr>"
    using assms(2) unfolding load_line_def by (simp only: Let_def prod.case line_status.case)
  then show "ls_dict (read_line (entry_line s e) st) = dict_put (fst e) (snd e) (ls_dict st)"
    "ls_section (read_line (entry_line s e) st) = s" "ls_errs (read_line (entry_line s e) st) = ls_errs st"
    unfolding l(1) read_line_def using l(2) by (simp_all add: e)
  have "NL \<notin> set ?l" "length ?l \<le> 1020"
    using name_okD(9)[OF n(1)] x len by (auto simp: fmt_left_def value_ok_def)
  moreover have "last (rstrip ?l) \<noteq> CHR 0x5C"
    using x unfolding rstrip_entry[OF n(1) x] by (auto simp: value_ok_def)
  ultimately show "readable (entry_line s e)" unfolding l(1) readable_def by simp
qed

lemma read_items:
  assumes "list_all (item_ok s) es" and "ls_section st = s" and "ls_line st = []"
  shows "ls_dict (fold read_line (map (entry_line s) es) st) = dict.store_all es (ls_dict st) \<and>
    ls_errs (fold read_line (map (entry_line s) es) st) = ls_errs st \<and>
    ls_line (fold read_line (map (entry_line s) es) st) = []"
  using assms
proof (induction es arbitrary: st)
  case Nil
  then show ?case by (simp add: dict.store_all_def)
next
  case (Cons e es)
  have ok: "item_ok s e" and es: "list_all (item_ok s) es" using Cons.prems(1) by simp_all
  note r = read_item[OF ok Cons.prems(2,3)]
  show ?case using Cons.IH[OF es r(3) ls_line_read_line[OF Cons.prems(3)]] r(2,4)
    by (simp add: dict.store_all_def split_beta)
qed

lemma read_heading:
  assumes "name_ok s" and "lowered s = s" and "ls_line st = []"
  shows "ls_dict (read_line (''['' @ s @ '']'') st) = dict_put s NULL (ls_dict st)"
    "ls_section (read_line (''['' @ s @ '']'') st) = s" "ls_errs (read_line (''['' @ s @ '']'') st) = ls_errs st"
proof -
  have "rstrip (''['' @ s @ '']'') = ''['' @ s @ '']''" by (rule rstrip_id) (simp add: is_space_def)
  moreover have "iniparser_line (''['' @ s @ '']'') sec key val = (LINE_SECTION, s, key, val)" for sec key val
    using section_line[OF assms(1)] assms(2) by simp
  ultimately have "read_line (''['' @ s @ '']'') st =
      st\<lparr>ls_line := [], ls_section := s, ls_key := ls_key st, ls_val := ls_val st, ls_dict := dict_put s NULL (ls_dict st)\<rparr>"
    unfolding read_line_def load_line_def by (simp only: Let_def prod.case line_status.case, simp)
  then show "ls_dict (read_line (''['' @ s @ '']'') st) = dict_put s NULL (ls_dict st)"
    "ls_section (read_line (''['' @ s @ '']'') st) = s" "ls_errs (read_line (''['' @ s @ '']'') st) = ls_errs st"
    by simp_all
qed

lemma readable_heading: "name_ok s \<Longrightarrow> length s \<le> 1000 \<Longrightarrow> readable (''['' @ s @ '']'')"
  using rstrip_id[of "''['' @ s @ '']''"] name_okD(9)[of s] by (simp add: readable_def is_space_def)

lemma read_section:
  assumes "dict_wf d" "dumpable d" "s \<in> set (sections_of d)" and "ls_line st = []"
  shows "ls_dict (fold read_line (dumped_section d s) st) = dict.store_all ((s, NULL) # section_items d s) (ls_dict st) \<and>
    ls_errs (fold read_line (dumped_section d s) st) = ls_errs st \<and> ls_line (fold read_line (dumped_section d s) st) = []"
    "list_all readable (dumped_section d s)"
proof -
  obtain v where s: "CHR '':'' \<notin> set s" "dict_abs d s = Some v" using assms(1,3) sections_of by auto
  note ok = dumpable_section[OF assms(1,2) s(2,1)]
  have "item_ok s e" if "e \<in> set (section_items d s)" for e
  proof -
    obtain k u where e: "e = (k, u)" by (cases e)
    with that have k: "dict_abs d k = Some u" "prefix (s @ '':'') k"
      using set_dict_entries[OF assms(1)] by (simp_all add: section_items_def)
    then have colon: "CHR '':'' \<in> set k" by (auto simp: prefix_def)
    obtain s' n x where n: "k = s' @ '':'' @ n" "CHR '':'' \<notin> set s'" "u = Str x" "name_ok n" "lowered n = n"
      "x = [] \<or> value_ok x" "length n + length x \<le> 980"
      by (rule dumpable_key[OF assms(1,2) k(1) colon]) blast
    obtain m where m: "k = s @ '':'' @ m" using k(2) by (auto simp: prefix_def)
    have "s' = s" using n(1,2) m s(1) takeWhile_to_colon[of s' n] takeWhile_to_colon[of s m] by simp
    then show ?thesis using n e by (auto simp: item_ok_def)
  qed
  then have items: "list_all (item_ok s) (section_items d s)" by (simp add: list_all_iff)
  let ?st = "read_line (''['' @ s @ '']'') st"
  note h = read_heading[OF ok(2,3) assms(4)]
  have "fold read_line (dumped_section d s) st = fold read_line (map (entry_line s) (section_items d s)) ?st"
    by (simp add: dumped_section_def read_line_def[of "[]"])
  then show "ls_dict (fold read_line (dumped_section d s) st) = dict.store_all ((s, NULL) # section_items d s) (ls_dict st) \<and>
    ls_errs (fold read_line (dumped_section d s) st) = ls_errs st \<and> ls_line (fold read_line (dumped_section d s) st) = []"
    using read_items[OF items h(2) ls_line_read_line[OF assms(4)]] h(1,3) by (simp add: dict.store_all_def)
  have "readable (entry_line s e)" if "e \<in> set (section_items d s)" for e
    using items that read_item(1)[of s e "load_init\<lparr>ls_section := s\<rparr>"] by (simp add: list_all_iff load_init_def)
  then show "list_all readable (dumped_section d s)"
    using readable_heading[OF ok(2,4)] by (auto simp: dumped_section_def list_all_iff readable_def[of "[]"])
qed

lemma read_sections:
  assumes "dict_wf d" "dumpable d" "set ss \<subseteq> set (sections_of d)" and "ls_line st = []"
  shows "ls_dict (fold read_line (concat (map (dumped_section d) ss)) st) =
      dict.store_all (concat (map (\<lambda>s. (s, NULL) # section_items d s) ss)) (ls_dict st) \<and>
    ls_errs (fold read_line (concat (map (dumped_section d) ss)) st) = ls_errs st"
  using assms(3,4)
proof (induction ss arbitrary: st)
  case Nil
  then show ?case by (simp add: dict.store_all_def)
next
  case (Cons s ss)
  have s: "s \<in> set (sections_of d)" and ss: "set ss \<subseteq> set (sections_of d)" using Cons.prems(1) by simp_all
  note r = read_section(1)[OF assms(1,2) s Cons.prems(2)]
  show ?case using r Cons.IH[OF ss, of "fold read_line (dumped_section d s) st"] by (simp add: dict.store_all_def)
qed

text \<open>A list of entries that a map agrees with on its whole domain stores that map.\<close>

lemma map_of_agrees:
  assumes "\<forall>(k, v) \<in> set es. m k = Some v" and "dom m \<subseteq> fst ` set es"
  shows "map_of (rev es) = m"
proof
  fix k
  show "map_of (rev es) k = m k"
  proof (cases "map_of (rev es) k")
    case None
    then have "k \<notin> fst ` set es" by (simp add: map_of_eq_None_iff)
    with assms(2) show ?thesis unfolding None by (metis domIff in_mono)
  next
    case (Some v)
    then have "(k, v) \<in> set es" using map_of_SomeD by fastforce
    with assms(1) Some show ?thesis by auto
  qed
qed

definition dumped_lines :: "dictionary \<Rightarrow> string list" where
  "dumped_lines d =
     (if sections_of d = [] then [] else concat (map (dumped_section d) (sections_of d)) @ [[]])"

lemma foldE_concat:
  assumes "\<And>i out. i \<in> set xs \<Longrightarrow> f i out = Inr (out @ g i)"
  shows "foldE f xs out = Inr (out @ concat (map g xs))"
  using assms by (induction xs arbitrary: out) auto

lemma no_sections_no_entries:
  assumes "dict_wf d" "dumpable d" "sections_of d = []"
  shows "dict_entries d = []"
proof (rule ccontr)
  assume "dict_entries d \<noteq> []"
  then obtain k v where "(k, v) \<in> set (dict_entries d)" by (metis list.set_intros(1) neq_Nil_conv prod.exhaust)
  then have k: "dict_abs d k = Some v" using set_dict_entries[OF assms(1)] by simp
  obtain s where "CHR '':'' \<notin> set s" "dict_abs d s \<noteq> None"
  proof (cases "CHR '':'' \<in> set k")
    case True
    show ?thesis by (rule dumpable_key[OF assms(1,2) k True]) (use that in auto)
  next
    case False
    then show ?thesis using that k by auto
  qed
  then show False using sections_of[OF assms(1)] assms(3) by auto
qed

lemma dump_ini_text:
  assumes "dict_wf d" "dumpable d"
  shows "iniparser_dump_ini (Some d) = Inr (text_of (dumped_lines d))"
proof -
  have n: "iniparser_getnsec (Some d) = int (length (sections_of d))" by (simp add: iniparser_getnsec_def sections_of_def)
  show ?thesis
  proof (cases "sections_of d = []")
    case True
    then show ?thesis
      using no_sections_no_entries[OF assms True] n by (simp add: iniparser_dump_ini_def dumped_lines_def)
  next
    case False
    let ?f = "\<lambda>i out. case iniparser_getsecname (Some d) (int i) of None \<Rightarrow> Inr out
      | Some secname \<Rightarrow> bindE (iniparser_dumpsection_ini (Some d) secname) (\<lambda>t. Inr (out @ t))"
    let ?g = "\<lambda>i. text_of (dumped_section d (sections_of d ! i))"
    have "?f i out = Inr (out @ ?g i)" if "i \<in> set [0..<length (sections_of d)]" for i out
    proof -
      have i: "i < length (filter is_section_key (d_key d))" using that by (simp add: sections_of_def)
      then have "is_section_key (filter is_section_key (d_key d) ! i)" using nth_mem by fastforce
      then obtain s where s: "filter is_section_key (d_key d) ! i = Some s"
        by (auto simp: is_section_key_def split: option.splits)
      then have "sections_of d ! i = s" "iniparser_getsecname (Some d) (int i) = Some s"
        using nth_section_filter[OF i] i by (simp_all add: sections_of_def iniparser_getsecname_def)
      moreover have "sections_of d ! i \<in> set (sections_of d)" using that by simp
      ultimately show ?thesis using dump_section_text[OF assms, of s] by simp
    qed
    then have "foldE ?f [0..<length (sections_of d)] out = Inr (out @ concat (map ?g [0..<length (sections_of d)]))" for out
      by (rule foldE_concat)
    moreover have "concat (map ?g [0..<length (sections_of d)]) = text_of (concat (map (dumped_section d) (sections_of d)))"
    proof -
      have "map ?g [0..<length (sections_of d)] = map (\<lambda>s. text_of (dumped_section d s)) (map (\<lambda>i. sections_of d ! i) [0..<length (sections_of d)])"
        by simp
      moreover have "concat (map (\<lambda>s. text_of (h s)) xs) = text_of (concat (map h xs))" for h :: "string \<Rightarrow> string list" and xs
        by (induction xs) simp_all
      ultimately show ?thesis unfolding map_nth by simp
    qed
    ultimately show ?thesis using n False by (simp add: iniparser_dump_ini_def dumped_lines_def)
  qed
qed

lemma load_dump_ini:
  assumes "dict_wf d" "dumpable d"
  shows "\<exists>d'. iniparser_load (Some (text_of (dumped_lines d))) = Some d' \<and> dict_wf d' \<and> dict_abs d' = dict_abs d"
proof -
  let ?es = "concat (map (\<lambda>s. (s, NULL) # section_items d s) (sections_of d))"
  have "list_all readable (dumped_lines d)"
    using read_section(2)[OF assms _, of _ load_init]
    by (auto simp: dumped_lines_def list_all_iff readable_def[of "[]"] load_init_def)
  then have run: "load_loop (text_of (dumped_lines d)) load_init = Some (fold read_line (dumped_lines d) load_init)"
    by (rule load_loop_text) (simp add: load_init_def)
  have "ls_dict (fold read_line (dumped_lines d) load_init) = dict.store_all ?es (dictionary_new 0) \<and>
      ls_errs (fold read_line (dumped_lines d) load_init) = 0"
    using read_sections[OF assms order_refl, of load_init]
    by (auto simp: dumped_lines_def load_init_def read_line_def[of "[]"] dict.store_all_def)
  then have load: "iniparser_load (Some (text_of (dumped_lines d))) = Some (dict.store_all ?es (dictionary_new 0))"
    unfolding iniparser_load_def option.case run by simp
  have "map_of (rev ?es) = dict_abs d"
  proof (rule map_of_agrees)
    show "\<forall>(k, v) \<in> set ?es. dict_abs d k = Some v"
      using set_dict_entries[OF assms(1)] sections_of[OF assms(1)] dumpable_section(1)[OF assms]
      by (fastforce simp: section_items_def)
    show "dom (dict_abs d) \<subseteq> fst ` set ?es"
    proof
      fix k assume "k \<in> dom (dict_abs d)"
      then obtain v where k: "dict_abs d k = Some v" by auto
      show "k \<in> fst ` set ?es"
      proof (cases "CHR '':'' \<in> set k")
        case True
        show ?thesis
        proof (rule dumpable_key[OF assms k True])
          fix s n x assume s: "k = s @ '':'' @ n" "CHR '':'' \<notin> set s" "dict_abs d s = Some NULL"
          then have "s \<in> set (sections_of d)" "(k, v) \<in> set (section_items d s)"
            using k set_dict_entries[OF assms(1)] sections_of[OF assms(1)] by (auto simp: section_items_def)
          then show ?thesis by force
        qed
      next
        case False
        then have "k \<in> set (sections_of d)" using k sections_of[OF assms(1)] by simp
        then show ?thesis by force
      qed
    qed
  qed
  then show ?thesis using load store_all_new[of ?es 0] dict.wf_store_all[OF dict_wf_new] by auto
qed

text \<open>
  C18: A dumped dictionary is read back. For a well-formed dictionary whose sections and keys have
  plain names in lower case, whose keys belong to present sections and whose values need no quotes
  (they may be empty), \<open>iniparser_dump_ini\<close> writes a file that \<open>iniparser_load\<close> reads without error,
  into a dictionary in which every lookup finds what it found in the dumped one.
\<close>

theorem dumped_dictionary_loads:
  assumes "dict_wf d" and "dumpable d"
  shows "\<exists>text d'. iniparser_dump_ini (Some d) = Inr text \<and> iniparser_load (Some text) = Some d' \<and> dict_wf d' \<and>
    (\<forall>key def. iniparser_getstring (Some d') key def = iniparser_getstring (Some d) key def)"
  using dump_ini_text[OF assms] load_dump_ini[OF assms]
  by (auto simp: iniparser_getstring_def dictionary_get_abs)

definition one_rule_dict :: dictionary where
  "one_rule_dict = dict_put ''rule1:action'' (Str []) (dict_put ''rule1:match1'' (Str ''in=1,CLA=b0,'')
     (dict_put ''rule1'' NULL (dictionary_new 0)))"

lemma one_rule_dict: "dict_wf one_rule_dict" "dict_abs one_rule_dict =
    [''rule1'' \<mapsto> NULL, ''rule1:match1'' \<mapsto> Str ''in=1,CLA=b0,'', ''rule1:action'' \<mapsto> Str []]"
proof -
  have e: "dict_abs (dictionary_new 0) = Map.empty" using dict_abs_new by (rule ext)
  show "dict_wf one_rule_dict" by (simp add: one_rule_dict_def dict_put_correct)
  show "dict_abs one_rule_dict =
      [''rule1'' \<mapsto> NULL, ''rule1:match1'' \<mapsto> Str ''in=1,CLA=b0,'', ''rule1:action'' \<mapsto> Str []]"
    by (simp only: one_rule_dict_def dict_put_correct dict_wf_new e)
qed

lemma dumpable_one_rule_dict: "dumpable one_rule_dict"
proof -
  have f: "find_slot one_rule_dict ''rule1'' \<noteq> None"
  proof
    assume "find_slot one_rule_dict ''rule1'' = None"
    then have "dict_abs one_rule_dict ''rule1'' = None" by (simp add: dict_abs_def)
    then show False by (simp add: one_rule_dict(2))
  qed
  have t: "takeWhile (\<lambda>c. c \<noteq> CHR '':'') ''rule1:match1'' = ''rule1''" "drop (length ''rule1'' + 1) ''rule1:match1'' = ''match1''"
    "takeWhile (\<lambda>c. c \<noteq> CHR '':'') ''rule1:action'' = ''rule1''" "drop (length ''rule1'' + 1) ''rule1:action'' = ''action''"
    "name_ok ''rule1''" "lowered ''rule1'' = ''rule1''" "name_ok ''match1''" "lowered ''match1'' = ''match1''"
    "name_ok ''action''" "lowered ''action'' = ''action''" "value_ok ''in=1,CLA=b0,''"
    by code_simp+
  have "dumpable_entry one_rule_dict (''rule1'', NULL)" "dumpable_entry one_rule_dict (''rule1:match1'', Str ''in=1,CLA=b0,'')"
    "dumpable_entry one_rule_dict (''rule1:action'', Str [])"
    unfolding dumpable_entry_def Let_def prod.case t using f t(5-11) by simp_all
  moreover have "e \<in> {(''rule1'', NULL), (''rule1:match1'', Str ''in=1,CLA=b0,''), (''rule1:action'', Str [])}"
    if "e \<in> set (dict_entries one_rule_dict)" for e
  proof -
    obtain k v where "e = (k, v)" by (cases e)
    moreover from this have "dict_abs one_rule_dict k = Some v" using that set_dict_entries[OF one_rule_dict(1)] by simp
    ultimately show ?thesis unfolding one_rule_dict(2) by (auto split: if_splits)
  qed
  ultimately show ?thesis unfolding dumpable_def list_all_iff by blast
qed

theorem dumped_dictionary_loads_witness:
  "\<exists>text d'. iniparser_dump_ini (Some one_rule_dict) = Inr text \<and> iniparser_load (Some text) = Some d' \<and>
     iniparser_getstring (Some d') ''RULE1:Match1'' INI_INVALID_KEY = Str ''in=1,CLA=b0,''"
proof -
  have "strlwc ''RULE1:Match1'' (ASCIILINESZ + 1) = ''rule1:match1''" by code_simp
  then have "iniparser_getstring (Some one_rule_dict) ''RULE1:Match1'' INI_INVALID_KEY = Str ''in=1,CLA=b0,''"
    unfolding iniparser_getstring_def by (simp add: dictionary_get_abs one_rule_dict(2))
  then show ?thesis using dumped_dictionary_loads[OF one_rule_dict(1) dumpable_one_rule_dict] by metis
qed

end
