(* ===== verification/Ini_Shape.thy ===== *)
theory Ini_Shape
  imports Ini_Files
begin

text \<open>
  The data type that \<open>iniparser_load\<close> produces, for every file and not only for printed ones: the
  shape of the keys and values of a loaded dictionary. It follows from an invariant of the loop over
  the lines, which also bounds what the fixed buffers \<open>section\<close>, \<open>key\<close>, \<open>val\<close> and \<open>tmp\<close> have to hold.
\<close>

subsection \<open>Lengths and letters of the pieces of a line\<close>

lemma to_lower_idem [simp]: "to_lower (to_lower c) = to_lower c"
proof -
  have "list_all (\<lambda>c. to_lower (to_lower c) = to_lower c) (Enum.enum :: char list)" by code_simp
  then show ?thesis by (simp add: list_all_iff enum_UNIV)
qed

lemma lowered_idem [simp]: "lowered (lowered s) = lowered s"
  by (simp add: lowered_def)

lemma lowered_strlwc [simp]: "lowered (strlwc s n) = strlwc s n"
  by (simp add: lowered_def strlwc_def)

declare lowered_append [simp]

lemma rstrip_length: "length (rstrip s) \<le> length s"
  unfolding rstrip_def length_rev using length_dropWhile_le[of is_space "rev s"] by simp

lemma strstrip_length: "length (strstrip s) \<le> length s"
  unfolding strstrip_def using rstrip_length[of "dropWhile is_space s"] length_dropWhile_le[of is_space s] by linarith

lemma strlwc_length: "length (strlwc s n) \<le> length s"
  by (simp add: strlwc_def)

lemma scan_set_length: "scan_set P s = Some v \<Longrightarrow> length v \<le> length s"
  unfolding scan_set_def by (cases "takeWhile P s") (use length_takeWhile_le[of P s] in auto)

lemma skip_ws_length: "length (skip_ws s) \<le> length s"
  by (simp add: skip_ws_def length_dropWhile_le)

lemma scan_eq_length: "scan_eq rest = Some cs \<Longrightarrow> length cs \<le> length rest"
  using skip_ws_length[of rest] skip_ws_length[of "tl (skip_ws rest)"]
  by (auto simp: scan_eq_def split: list.splits if_splits)

lemma scan_value_length:
  "scan_quoted q rest = Some v \<Longrightarrow> length v \<le> length rest" "scan_plain rest = Some v \<Longrightarrow> length v \<le> length rest"
  using scan_eq_length[of rest]
  by (auto simp: scan_quoted_def scan_plain_def split: option.splits list.splits if_splits dest!: scan_set_length)

lemma scan_key_length: "scan_key l = (k, rest) \<Longrightarrow> length k \<le> length l \<and> length rest \<le> length l"
  by (auto simp: scan_key_def length_takeWhile_le length_dropWhile_le)

subsection \<open>The buffers of a line\<close>

text \<open>What the three buffers hold after a line: a section in lower case, everything within \<open>m\<close>.\<close>

definition buffers_fit :: "nat \<Rightarrow> string \<Rightarrow> string \<Rightarrow> string \<Rightarrow> bool" where
  "buffers_fit m sec key val \<longleftrightarrow> length sec \<le> m \<and> lowered sec = sec \<and> length key \<le> m \<and> length val \<le> m"

definition line_fits :: "nat \<Rightarrow> string \<Rightarrow> line_status \<times> string \<times> string \<times> string \<Rightarrow> bool" where
  "line_fits m sec0 r = (case r of (sta, sec, key, val) \<Rightarrow>
     buffers_fit m sec key val \<and> (sta \<noteq> LINE_SECTION \<longrightarrow> sec = sec0) \<and> (sta = LINE_VALUE \<longrightarrow> lowered key = key))"

lemma iniparser_line_shape:
  assumes "length l \<le> m" and "buffers_fit m sec key val"
  shows "line_fits m sec (iniparser_line l sec key val)"
proof -
  let ?line = "strstrip l"
  obtain k rest where sk: "scan_key ?line = (k, rest)" by (cases "scan_key ?line")
  have len: "length ?line \<le> m" using strstrip_length[of l] assms(1) by linarith
  then have k: "length k \<le> m" "length rest \<le> m" using scan_key_length[OF sk] by auto
  have "length (case scan_set (\<lambda>c. c \<noteq> CHR '']'') (tl ?line) of None \<Rightarrow> sec | Some s \<Rightarrow> s) \<le> m"
    using assms(2) len scan_set_length[of "\<lambda>c. c \<noteq> CHR '']''" "tl ?line"]
    by (cases "scan_set (\<lambda>c. c \<noteq> CHR '']'') (tl ?line)") (auto simp: buffers_fit_def)
  then obtain s0 where s0: "(case scan_set (\<lambda>c. c \<noteq> CHR '']'') (tl ?line) of None \<Rightarrow> sec | Some s \<Rightarrow> s) = s0" "length s0 \<le> m"
    by blast
  have low: "length (strlwc (strstrip s) n) \<le> m" if "length s \<le> m" for s n
    using that strlwc_length[of "strstrip s" n] strstrip_length[of s] by linarith
  have strip: "length (strstrip s) \<le> m" if "length s \<le> m" for s
    using that strstrip_length[of s] by linarith
  have v: "scan_quoted c rest = Some x \<Longrightarrow> length x \<le> m" "scan_plain rest = Some x \<Longrightarrow> length x \<le> m" for c x
    using scan_value_length(1)[of c rest x] scan_value_length(2)[of rest x] k(2) by auto
  have unchanged: "line_fits m sec (x, sec, key, val)" if "x \<noteq> LINE_VALUE" for x
    using assms(2) that by (simp add: line_fits_def)
  have heading: "line_fits m sec (LINE_SECTION, strlwc (strstrip s0) n, key, val)" for n
    using assms(2) low[OF s0(2)] by (simp add: line_fits_def buffers_fit_def)
  have item: "line_fits m sec (LINE_VALUE, sec, strlwc (strstrip k) n, v)" if "length v \<le> m" for n v
    using assms(2) low[OF k(1)] that by (simp add: line_fits_def buffers_fit_def)
  have error: "line_fits m sec (LINE_ERROR, sec, k, val)"
    using assms(2) k(1) by (simp add: line_fits_def buffers_fit_def)
  show ?thesis
    unfolding iniparser_line_def Let_def sk prod.case s0(1)
    by (simp add: unchanged heading item error v strip split: option.split)
qed

subsection \<open>The shape of a dictionary\<close>

text \<open>
  Keys are in lower case. An entry without value is a section; a value stands under the name of its
  section, a colon and its own name, and the section is present, unless the value stood before the
  first section. Nothing is longer than its buffer.
\<close>

definition entry_shape :: "(string \<rightharpoonup> charp) \<Rightarrow> string \<Rightarrow> charp \<Rightarrow> bool" where
  "entry_shape m k v \<longleftrightarrow> lowered k = k \<and>
     (case v of
        INI_INVALID_KEY \<Rightarrow> False
      | NULL \<Rightarrow> length k \<le> ASCIILINESZ
      | Str t \<Rightarrow> length t \<le> ASCIILINESZ \<and>
          (\<exists>s n. k = s @ '':'' @ n \<and> length s \<le> ASCIILINESZ \<and> length n \<le> ASCIILINESZ \<and> (s = [] \<or> m s \<noteq> None)))"

definition load_shape :: "load_state \<Rightarrow> bool" where
  "load_shape st \<longleftrightarrow> dict_wf (ls_dict st) \<and> buffers_fit ASCIILINESZ (ls_section st) (ls_key st) (ls_val st) \<and>
     (ls_section st = [] \<or> dict_abs (ls_dict st) (ls_section st) \<noteq> None) \<and>
     (\<forall>k v. dict_abs (ls_dict st) k = Some v \<longrightarrow> entry_shape (dict_abs (ls_dict st)) k v)"

lemma entry_shape_mono: "entry_shape m k v \<Longrightarrow> (\<And>s. m s \<noteq> None \<Longrightarrow> m' s \<noteq> None) \<Longrightarrow> entry_shape m' k v"
  by (auto simp: entry_shape_def split: charp.splits) (metis option.distinct(1))+

lemma load_shape_put:
  assumes "load_shape st" and "entry_shape ((dict_abs (ls_dict st))(k \<mapsto> v)) k v"
    and "buffers_fit ASCIILINESZ sec key val" and "sec = [] \<or> sec = k \<or> sec = ls_section st"
  shows "load_shape (st\<lparr>ls_line := [], ls_section := sec, ls_key := key, ls_val := val, ls_dict := dict_put k v (ls_dict st)\<rparr>)"
proof -
  have wf: "dict_wf (ls_dict st)" using assms(1) by (simp add: load_shape_def)
  note put = dict_put_correct[OF wf, of k v]
  have "entry_shape ((dict_abs (ls_dict st))(k \<mapsto> v)) k' v'" if "((dict_abs (ls_dict st))(k \<mapsto> v)) k' = Some v'" for k' v'
  proof (cases "k' = k")
    case True
    then show ?thesis using that assms(2) by simp
  next
    case False
    then have "entry_shape (dict_abs (ls_dict st)) k' v'" using that assms(1) by (simp add: load_shape_def)
    then show ?thesis by (rule entry_shape_mono) auto
  qed
  then show ?thesis using assms put by (auto simp: load_shape_def)
qed

lemma load_shape_line:
  assumes "load_shape st" and "length l \<le> ASCIILINESZ"
  shows "load_shape (load_line l st)"
proof -
  obtain sta sec key val where r: "iniparser_line l (ls_section st) (ls_key st) (ls_val st) = (sta, sec, key, val)"
    by (cases "iniparser_line l (ls_section st) (ls_key st) (ls_val st)")
  have st: "buffers_fit ASCIILINESZ (ls_section st) (ls_key st) (ls_val st)"
    "ls_section st = [] \<or> dict_abs (ls_dict st) (ls_section st) \<noteq> None" using assms(1) by (simp_all add: load_shape_def)
  have fits: "buffers_fit ASCIILINESZ sec key val" "sta \<noteq> LINE_SECTION \<Longrightarrow> sec = ls_section st" "sta = LINE_VALUE \<Longrightarrow> lowered key = key"
    using iniparser_line_shape[OF assms(2) st(1)] by (simp_all add: r line_fits_def)
  have keep: "load_shape (st\<lparr>ls_line := [], ls_section := ls_section st, ls_key := key, ls_val := val, ls_errs := n\<rparr>)"
    if "sta \<noteq> LINE_SECTION" for n
    using assms(1) fits(1,2) that by (simp add: load_shape_def)
  show ?thesis
  proof (cases sta)
    case LINE_SECTION
    have "load_shape (st\<lparr>ls_line := [], ls_section := sec, ls_key := key, ls_val := val, ls_dict := dict_put sec NULL (ls_dict st)\<rparr>)"
      using fits(1) by (intro load_shape_put assms(1)) (simp_all add: entry_shape_def buffers_fit_def)
    then show ?thesis by (simp add: load_line_def r LINE_SECTION)
  next
    case LINE_VALUE
    then have sec: "sec = ls_section st" "lowered key = key" using fits(2,3) by simp_all
    have "\<exists>s n. sec @ '':'' @ key = s @ '':'' @ n \<and> length s \<le> ASCIILINESZ \<and> length n \<le> ASCIILINESZ \<and>
        (s = [] \<or> ((dict_abs (ls_dict st))(sec @ '':'' @ key \<mapsto> Str val)) s \<noteq> None)"
      using fits(1) sec st(2) by (intro exI[of _ sec] exI[of _ key]) (simp add: buffers_fit_def)
    moreover have "lowered (sec @ '':'' @ key) = sec @ '':'' @ key"
      using fits(1) sec(2) by (simp add: buffers_fit_def) (simp add: lowered_def to_lower_def)
    ultimately have "entry_shape ((dict_abs (ls_dict st))(sec @ '':'' @ key \<mapsto> Str val)) (sec @ '':'' @ key) (Str val)"
      using fits(1) by (simp add: entry_shape_def buffers_fit_def)
    then have "load_shape (st\<lparr>ls_line := [], ls_section := sec, ls_key := key, ls_val := val,
        ls_dict := dict_put (sec @ '':'' @ key) (Str val) (ls_dict st)\<rparr>)"
      using fits(1) sec(1) by (intro load_shape_put assms(1)) simp_all
    then show ?thesis by (simp add: load_line_def r LINE_VALUE)
  qed (use keep[of "ls_errs st"] keep[of "ls_errs st + 1"] fits(2) in \<open>simp_all add: load_line_def r\<close>)
qed


lemma fgets_length: "fgets n rest = (chunk, rest') \<Longrightarrow> length chunk \<le> n - 1"
  by (auto simp: fgets_def Let_def find_idx_Some split: option.splits)

lemma load_shape_loop:
  "load_shape st \<Longrightarrow> load_loop rest st = Some st' \<Longrightarrow> load_shape st'"
proof (induction "length rest" arbitrary: rest st rule: less_induct)
  case less
  show ?case
  proof (cases "rest = [] \<or> length (ls_line st) + 2 > ASCIILINESZ")
    case True
    then show ?thesis using less.prems by (subst (asm) load_loop.simps) (simp split: if_splits)
  next
    case False
    let ?n = "ASCIILINESZ - length (ls_line st)"
    obtain chunk rest' where f: "fgets ?n rest = (chunk, rest')" by (cases "fgets ?n rest")
    have shorter: "length rest' < length rest" using fgets_consumes[of rest ?n] False by (auto simp: f)
    let ?line = "rstrip (ls_line st @ chunk)"
    have len: "length ?line \<le> ASCIILINESZ"
      using rstrip_length[of "ls_line st @ chunk"] fgets_length[OF f] False unfolding length_append by linarith
    have next_state: "load_shape st1" if "st1 \<in> {st, st\<lparr>ls_line := butlast ?line\<rparr>, load_line ?line st}" for st1
      using that less.prems(1) load_shape_line[OF less.prems(1) len] by (auto simp: load_shape_def)
    have "\<exists>st1 \<in> {st, st\<lparr>ls_line := butlast ?line\<rparr>, load_line ?line st}. load_loop rest' st1 = Some st'"
      using less.prems(2) False by (subst (asm) load_loop.simps) (auto simp: f Let_def split: if_splits)
    then show ?thesis using less.hyps[OF shorter] next_state by blast
  qed
qed

text \<open>
  C19: Every loaded dictionary has the same shape, whatever the file. When \<open>iniparser_load\<close> returns a
  dictionary it is well-formed; all keys are in lower case; an entry without value is a section; every
  value stands under a key \<open>section:name\<close> whose section is present or empty; sections, names and values
  have at most 1024 characters, so none of the fixed buffers they passed through was overrun.
\<close>

theorem loaded_dictionary_shape:
  assumes "iniparser_load (Some text) = Some d"
  shows "dict_wf d \<and> (\<forall>k v. dict_abs d k = Some v \<longrightarrow> entry_shape (dict_abs d) k v)"
proof -
  have "load_shape load_init"
    by (simp add: load_shape_def load_init_def buffers_fit_def dict_abs_new lowered_def)
  then have "load_shape st'" if "load_loop text load_init = Some st'" for st' using that by (rule load_shape_loop)
  then show ?thesis using assms by (auto simp: iniparser_load_def load_shape_def split: option.splits if_splits)
qed

text \<open>A value before the first section, a section in capitals, a comment and a quoted value.\<close>

theorem loaded_dictionary_shape_witness:
  "\<exists>d. iniparser_load (Some (''a = 1'' @ [NL] @ ''[Sec]'' @ [NL] @ ''; text'' @ [NL] @ ''B = x;y'' @ [NL])) = Some d \<and>
     dict_wf d \<and> entry_shape (dict_abs d) ''sec:b'' (Str ''x'')"
proof -
  let ?t = "''a = 1'' @ [NL] @ ''[Sec]'' @ [NL] @ ''; text'' @ [NL] @ ''B = x;y'' @ [NL]"
  have "map_option (\<lambda>d. dict_abs d ''sec:b'') (iniparser_load (Some ?t)) = Some (Some (Str ''x''))" by code_simp
  then obtain d where d: "iniparser_load (Some ?t) = Some d" "dict_abs d ''sec:b'' = Some (Str ''x'')" by blast
  then show ?thesis using loaded_dictionary_shape[OF d(1)] by blast
qed

end
