(* ===== verification/Status_Text.thy ===== *)
theory Status_Text
  imports Prelude
begin

unbundle bit_operations_syntax

text \<open>
  The status codes of the project (\<open>Shared/status.H\<close>) and their texts (\<open>ErrorToString\<close> in
  \<open>Shared/status.cpp\<close>). The constants are kept with their names, as pairs of the name and the value
  of the \<open>#define\<close>; the cases of the \<open>switch\<close> are pairs of the value of the label and the text
  returned. Through the values the texts can be compared with the names.
\<close>

subsection \<open>The constants\<close>

definition codes_base :: "(string \<times> int) list" where
  "codes_base = [
     (''STAT_OK'', 0),
     (''STAT_NOT_IMPLEMENTED_YET'', 1),
     (''STAT_SESSION_NOT_OPEN'', 2),
     (''STAT_NOT_ENOUGHT_MEMORY'', 3),
     (''STAT_CHANNEL_SECURITY_NOT_ACHIEVED'', 4),
     (''STAT_CHANNEL_DESTROY_FAIL'', 5),
     (''STAT_CHANNEL_NOT_EXISTS'', 6),
     (''STAT_INCORRECT_HWT'', 7),
     (''STAT_INCORRECT_SWA'', 8),
     (''STAT_DATA_CORRUPTED'', 10),
     (''STAT_DATA_INCORRECT_LENGTH'', 11),
     (''STAT_KEY_SCHEDULE_FAIL'', 12),
     (''STAT_CIPHER_INIT_FAIL'', 13),
     (''STAT_ENCRYPT_FAIL'', 14),
     (''STAT_DECRYPT_FAIL'', 15),
     (''STAT_FILE_OPEN_FAIL'', 16),
     (''STAT_SEAUT_FRESHNESS_FAIL'', 17),
     (''STAT_NO_CONNECTION'', 18),
     (''STAT_NOT_ENOUGHT_DATA_TYPE'', 20),
     (''STAT_LICENCE_TOO_LONG'', 21),
     (''STAT_RESPONSE_DATA_LENGTH_BAD'', 22),
     (''STAT_USERDATA_BAD'', 23),
     (''STAT_KEY_LENGTH_BAD'', 24),
     (''STAT_DATA_TOO_LONG'', 25),
     (''STAT_INI_DATA_WRITE_FAIL'', 26),
     (''STAT_INI_DATA_READ_FAIL'', 27),
     (''STAT_CODING_NOT_BIJECT'', 28),
     (''STAT_CODING_ALREADY_ASSIGNED'', 29),
     (''STAT_CONFIG_SCRIPT_INCOMPLETE'', 30),
     (''STAT_IOC_CORRUPTED'', 31),
     (''STAT_LOAD_AUTH_FNC_FAIL'', 32),
     (''STAT_LOAD_LIBRARY_FAIL'', 33),
     (''STAT_SCARD_ERROR'', 34),
     (''STAT_FULL_PATH_FAIL'', 35),
     (''STAT_UNKNOWN_SCARD_PROTOCOL'', 36),
     (''STAT_OPERATION_CANCELED'', 37),
     (''STAT_STRING_NOT_FOUND'', 38),
     (''STAT_COORDINATES_EXCEEDS'', 39),
     (''STAT_NODE_NOT_EXISTS'', 40),
     (''STAT_NO_SUCH_NEIGHBOUR'', 41),
     (''STAT_PORT_DRIVER_INIT_FAIL'', 42),
     (''STAT_SOFT_KILLED'', 43),
     (''STAT_DEPLOY_INTEGRITY_BAD'', 44),
     (''STAT_BS_SELECTRULEUNKNOWN'', 45),
     (''STAT_BS_ROUTESTRATEGYUNKNOWN'', 46),
     (''STAT_WRONG_PADDING'', 47),
     (''STAT_WRONG_NONCE'', 48),
     (''STAT_DATA_NOT_ALIGNED'', 100),
     (''STAT_INTERNAL_ERROR'', 101),
     (''STAT_DIVISION_BY_ZERO'', 102),
     (''STAT_DATA_INCORRECT_LIMITS'', 103),
     (''STAT_VALUE_NOT_READ'', 104),
     (''STAT_VALUE_NOT_SET'', 105),
     (''STAT_UNKNOWN_VALUE'', 106),
     (''STAT_DLG_NOT_EXISTS'', 107),
     (''STAT_CAP_UPLOAD_FAILED'', 108),
     (''STAT_NOT_HEXA_CHARACTER'', 109),
     (''STAT_VALUE_NOT_FOUND'', 110),
     (''STAT_CANCEL'', 200)]"

definition codes_applet :: "(string \<times> int) list" where
  "codes_applet = [
     (''SW_SECURITY_NOT_SATISFIED'', 0x6680),
     (''SW_USAGE_UPDATE_FAIL'', 0x6681),
     (''SW_USAGE_NOT_ALLOWED'', 0x6682),
     (''SW_ALG_UUID_NOT_UNIQUE'', 0x6683),
     (''SW_ALG_CONTAINER_FULL'', 0x6684),
     (''SW_ALG_UUID_NOT_FOUND'', 0x6685),
     (''SW_SWA_UUID_NOT_UNIQUE'', 0x6686),
     (''SW_SWA_CONTAINER_FULL'', 0x6687),
     (''SW_BAD_KEY'', 0x6688),
     (''SW_ALG_TYPE_UNKNOWN'', 0x6689),
     (''SW_ALG_UUID_BAD_LENGTH'', 0x6690),
     (''SW_SWA_UUID_BAD_LENGTH'', 0x6691),
     (''SW_HWT_UUID_BAD'', 0x6692),
     (''SW_SWA_UUID_BAD'', 0x6693),
     (''SW_XML_UNEXPECTED_ELEM'', 0x6694),
     (''SW_XML_UNEXPECTED_END'', 0x6695),
     (''SW_LICENCE_OUTDATED'', 0x6696),
     (''SW_SWA_PERMIT_ALG_FULL'', 0x6697),
     (''SW_ALG_SWA_NOT_PERMITED'', 0x6698),
     (''SW_LICENCE_OUTOFORDER'', 0x6699),
     (''SW_BAD_PIN'', 0x6900),
     (''SW_SWA_AUTH_REQUIRED'', 0x6701),
     (''SW_ENCRYPT_FAIL'', 0x6702),
     (''SW_DECRYPT_FAIL'', 0x6703),
     (''SW_SWA_NOT_FOUND'', 0x6704),
     (''SW_ALG_NOT_FOUND'', 0x6705),
     (''SW_XMLPARSER_INSUFFICIENT_DATA'', 0x6706),
     (''SW_XMLPARSER_INVALID_DATA'', 0x6707),
     (''SW_XMLPARSER_UNKNOWN_ERROR'', 0x6708),
     (''SW_IV_BAD'', 0x6709),
     (''SW_CIPHER_DATA_LENGTH_BAD'', 0x6710),
     (''SW_MESSAGE_LENGTH_BAD'', 0x6711),
     (''SW_SEAUT_STEP_BAD'', 0x6712),
     (''SW_SEAUT_FRESHNESS_FAIL'', 0x6713),
     (''SW_SEAUT_STOP_MESSAGE_BAD'', 0x6714),
     (''SW_KEY_LENGTH_BAD'', 0x6715),
     (''SW_ALG_INPUT_BAD'', 0x6716),
     (''SW_BAD_TEST_DATA_LEN'', 0x6717)]"

definition codes_applet_more :: "(string \<times> int) list" where
  "codes_applet_more = [
     (''SW_SENSITIVE_ATTEMPTS_BLOCKED'', 0x6720),
     (''SW_SENSITIVE_ATTEMPTS_TOO_HIGH'', 0x6721),
     (''SW_INVALID_ACTIVE_STATE'', 0x6722),
     (''SW_WRONG_MAGIC_VALUE'', 0x6723),
     (''SW_UNKNOWN_OPERATION'', 0x6724),
     (''SW_NOT_IMPLEMENTED_YET'', 0x6725),
     (''SW_UNKNOWN_INTERNAL_STATE'', 0x6726),
     (''SW_WRONG_INTERNAL_STATE'', 0x6727),
     (''SW_RSA_DECRYPT_BAD'', 0x6728),
     (''SW_WRONG_HASH_LENGTH'', 0x6729),
     (''SW_HASH_DIFFERS'', 0x6730),
     (''SW_UNKNOWN_LICENCE_TYPE'', 0x6731),
     (''SW_WRONG_APPLET_SN'', 0x6732),
     (''SW_LICENCE_ALREADY_USED'', 0x6734),
     (''SW_LICENCE_LENGTH_BAD'', 0x6735),
     (''SW_NO_CREDIT_LEFT'', 0x6736),
     (''SW_WRONG_LICENCE_TAG'', 0x6737),
     (''SW_LICENCE_PREVIOUS_EXPECTED'', 0x6738),
     (''SW_NO_SUCH_APPLICATION_PROFILE'', 0x6739),
     (''SW_WRONG_MAC'', 0x6740),
     (''SW_WRONG_PADDING'', 0x6741),
     (''SW_INTERNAL_LENGTH_WRONG'', 0x6742),
     (''SW_MASTER_BOARD_SLOT_BAD'', 0x6743),
     (''SW_LICENCE_MAX_COUNTER_REACHED'', 0x6744),
     (''SW_HASH_DIFFERS2'', 0x6745)]"

definition codes_iso :: "(string \<times> int) list" where
  "codes_iso = [
     (''SW_FILE_FULL'', 0x6A84),
     (''SW_UNKNOWN'', 0x6F00),
     (''SW_CLA_NOT_SUPPORTED'', 0x6E00),
     (''SW_INS_NOT_SUPPORTED'', 0x6D00),
     (''SW_CORRECT_LENGTH_00'', 0x6C00),
     (''SW_WRONG_P1P2'', 0x6B00),
     (''SW_LC_INCONSISTENT_WITH_P1P2'', 0x6A87),
     (''SW_INCORRECT_P1P2'', 0x6A86),
     (''SW_RECORD_NOT_FOUND'', 0x6A83),
     (''SW_FILE_NOT_FOUND'', 0x6A82),
     (''SW_FUNC_NOT_SUPPORTED'', 0x6A81),
     (''SW_WRONG_DATA'', 0x6A80),
     (''SW_APPLET_SELECT_FAILED'', 0x6999),
     (''SW_COMMAND_NOT_ALLOWED'', 0x6986),
     (''SW_CONDITIONS_NOT_SATISFIED'', 0x6985),
     (''SW_DATA_INVALID'', 0x6984),
     (''SW_FILE_INVALID'', 0x6983),
     (''SW_SECURITY_STATUS_NOT_SATISFIED'', 0x6982),
     (''SW_WRONG_LENGTH'', 0x6700),
     (''SW_BYTES_REMAINING_00'', 0x6100),
     (''SW_NO_ERROR'', 0x9000)]"

definition codes_jcdomain :: "(string \<times> int) list" where
  "codes_jcdomain = [
     (''SW_JCDOMAIN_ALGORITHM_NOT_SUPPORTED'', 0x9484),
     (''SW_JCDOMAIN_APPLET_INVALIDATED'', 0x6283),
     (''SW_JCDOMAIN_AUTHENTICATION_FAILED'', 0x6300),
     (''SW_JCDOMAIN_AUTHORIZATION_FAILED'', 0x9482),
     (''SW_JCDOMAIN_CHECKSUM_FAILED'', 0x9584),
     (''SW_JCDOMAIN_DECRYPTION_FAILED'', 0x9583),
     (''SW_JCDOMAIN_INSTALLATION_FAILED'', 0x9585),
     (''SW_JCDOMAIN_INVALID_STATE'', 0x9481),
     (''SW_JCDOMAIN_NO_SPECIFIC_DIAGNOSIS'', 0x6400),
     (''SW_JCDOMAIN_REFERENCE_DATA_NOT_FOUND'', 0x6A88),
     (''SW_JCDOMAIN_REGISTRATION_FAILED'', 0x9586),
     (''SW_JCDOMAIN_SIGNATURE_CHECK_FAILED'', 0x9582),
     (''SW_JCDOMAIN_SM_INCORRECT'', 0x6988),
     (''SW_JCDOMAIN_SM_MISSING'', 0x6987)]"

definition codes_cardcomm :: "(string \<times> int) list" where
  "codes_cardcomm = [
     (''STAT_CCR_UNKNOWN'', 0x1000),
     (''STAT_CCR_INVALID_HANDLE'', 0x1001),
     (''STAT_CCR_CARD_NOT_PRESENT'', 0x1002),
     (''STAT_CCR_SESSION_NOT_OPENED'', 0x1003),
     (''STAT_CCR_INVALID_SLOT_ID'', 0x1004),
     (''STAT_CCR_FUNCTION_FAILED'', 0x1005),
     (''STAT_CCR_CANCELLED'', 0x1006)]"

definition status_codes :: "(string \<times> int) list" where
  "status_codes = codes_base @ codes_applet @ codes_applet_more @ codes_iso @ codes_jcdomain @ codes_cardcomm"

abbreviation SW_BYTES_REMAINING_00 :: int where "SW_BYTES_REMAINING_00 \<equiv> 0x6100"
abbreviation SW_CORRECT_LENGTH_00 :: int where "SW_CORRECT_LENGTH_00 \<equiv> 0x6C00"

subsection \<open>The texts\<close>

definition cases_base :: "int \<Rightarrow> string option" where
  "cases_base e = (
     if e = 0 then Some ''SUCCESS'' else
     if e = 1 then Some ''NOT_IMPLEMENTED_YET'' else
     if e = 2 then Some ''SESSION_NOT_OPEN'' else
     if e = 3 then Some ''NOT_ENOUGHT_MEMORY'' else
     if e = 4 then Some ''CHANNEL_SECURITY_NOT_ACHIEVED'' else
     if e = 5 then Some ''CHANNEL_DESTROY_FAIL'' else
     if e = 6 then Some ''CHANNEL_NOT_EXISTS'' else
     if e = 7 then Some ''INCORRECT_HWT'' else
     if e = 8 then Some ''INCORRECT_SWA'' else
     if e = 10 then Some ''DATA_CORRUPTED'' else
     if e = 11 then Some ''DATA_INCORRECT_LENGTH'' else
     if e = 12 then Some ''KEY_SCHEDULE_FAIL'' else
     if e = 13 then Some ''CIPHER_INIT_FAIL'' else
     if e = 14 then Some ''ENCRYPT_FAIL'' else
     if e = 15 then Some ''DECRYPT_FAIL'' else
     if e = 16 then Some ''FILE_OPEN_FAIL'' else
     if e = 17 then Some ''SEAUT_FRESHNESS_FAIL'' else
     if e = 18 then Some ''NO_CONNECTION'' else
     if e = 20 then Some ''NOT_ENOUGHT_DATA_TYPE'' else
     if e = 21 then Some ''STAT_LICENCE_TOO_LONG'' else
     if e = 22 then Some ''STAT_RESPONSE_DATA_LENGTH_BAD'' else
     if e = 23 then Some ''STAT_USERDATA_BAD'' else
     if e = 24 then Some ''STAT_KEY_LENGTH_BAD'' else
     if e = 25 then Some ''STAT_DATA_TOO_LONG'' else
     if e = 26 then Some ''STAT_INI_DATA_WRITE_FAIL'' else
     if e = 27 then Some ''STAT_INI_DATA_READ_FAIL'' else
     if e = 28 then Some ''STAT_CODING_NOT_BIJECT'' else
     if e = 29 then Some ''STAT_CODING_ALREADY_ASSIGNED'' else
     if e = 30 then Some ''STAT_CONFIG_SCRIPT_INCOMPLETE'' else
     if e = 31 then Some ''STAT_IOC_CORRUPTED'' else
     if e = 32 then Some ''STAT_LOAD_AUTH_FNC_FAIL'' else
     if e = 33 then Some ''STAT_LOAD_LIBRARY_FAIL'' else
     if e = 34 then Some ''STAT_SCARD_ERROR'' else
     if e = 35 then Some ''STAT_FULL_PATH_FAIL'' else
     if e = 36 then Some ''STAT_UNKNOWN_SCARD_PROTOCOL'' else
     if e = 37 then Some ''STAT_OPERATION_CANCELED'' else
     if e = 38 then Some ''STAT_STRING_NOT_FOUND'' else
     if e = 39 then Some ''STAT_COORDINATES_EXCEEDS'' else
     if e = 40 then Some ''STAT_NODE_NOT_EXISTS'' else
     if e = 41 then Some ''STAT_NO_SUCH_NEIGHBOUR'' else
     if e = 42 then Some ''STAT_PORT_DRIVER_INIT_FAIL'' else
     if e = 43 then Some ''STAT_SOFT_KILLED'' else
     if e = 44 then Some ''STAT_DEPLOY_INTEGRITY_BAD'' else
     if e = 45 then Some ''STAT_BS_SELECTRULEUNKNOWN'' else
     if e = 46 then Some ''STAT_BS_ROUTESTRATEGYUNKNOWN'' else
     if e = 48 then Some ''STAT_WRONG_NONCE'' else
     if e = 100 then Some ''STAT_DATA_NOT_ALIGNED'' else
     if e = 101 then Some ''STAT_INTERNAL_ERROR'' else
     if e = 102 then Some ''STAT_DIVISION_BY_ZERO'' else
     if e = 103 then Some ''STAT_DATA_INCORRECT_LIMITS'' else
     if e = 104 then Some ''STAT_VALUE_NOT_READ'' else
     if e = 105 then Some ''STAT_VALUE_NOT_SET'' else
     if e = 106 then Some ''STAT_UNKNOWN_VALUE'' else
     if e = 107 then Some ''STAT_DLG_NOT_EXISTS'' else
     if e = 108 then Some ''STAT_CAP_UPLOAD_FAILED'' else
     None)"

definition cases_cardcomm :: "int \<Rightarrow> string option" where
  "cases_cardcomm e = (
     if e = 200 then Some ''STAT_CANCEL'' else
     if e = 0x1000 then Some ''STAT_CCR_UNKNOWN'' else
     if e = 0x1001 then Some ''STAT_CCR_INVALID_HANDLE'' else
     if e = 0x1002 then Some ''STAT_CCR_CARD_NOT_PRESENT'' else
     if e = 0x1003 then Some ''STAT_CCR_SESSION_NOT_OPENED'' else
     if e = 0x1004 then Some ''STAT_CCR_INVALID_SLOT_ID'' else
     if e = 0x1005 then Some ''STAT_CCR_FUNCTION_FAILED'' else
     None)"

definition cases_iso :: "int \<Rightarrow> string option" where
  "cases_iso e = (
     if e = 0x1006 then Some ''STAT_CCR_CANCELLED'' else
     if e = 0x6A84 then Some ''SW_FILE_FULL'' else
     if e = 0x6F00 then Some ''SW_UNKNOWN'' else
     if e = 0x6E00 then Some ''SW_CLA_NOT_SUPPORTED'' else
     if e = 0x6D00 then Some ''SW_INS_NOT_SUPPORTED'' else
     if e = 0x6C00 then Some ''SW_CORRECT_LENGTH_00'' else
     if e = 0x6B00 then Some ''SW_WRONG_P1P2'' else
     if e = 0x6A87 then Some ''SW_LC_INCONSISTENT_WITH_P1P2'' else
     if e = 0x6A86 then Some ''SW_INCORRECT_P1P2'' else
     if e = 0x6A83 then Some ''SW_RECORD_NOT_FOUND'' else
     if e = 0x6A82 then Some ''SW_CLA_NOT_SUPPORTED'' else
     if e = 0x6A81 then Some ''SW_FUNC_NOT_SUPPORTED'' else
     if e = 0x6A80 then Some ''SW_WRONG_DATA'' else
     if e = 0x6999 then Some ''SW_APPLET_SELECT_FAILED'' else
     if e = 0x6986 then Some ''SW_COMMAND_NOT_ALLOWED'' else
     if e = 0x6985 then Some ''SW_CONDITIONS_NOT_SATISFIED'' else
     if e = 0x6984 then Some ''SW_DATA_INVALID'' else
     if e = 0x6983 then Some ''SW_FILE_INVALID'' else
     if e = 0x6982 then Some ''SW_SECURITY_STATUS_NOT_SATISFIED'' else
     if e = 0x6700 then Some ''SW_WRONG_LENGTH'' else
     if e = 0x6100 then Some ''SW_BYTES_REMAINING_00'' else
     None)"

definition cases_jcdomain :: "int \<Rightarrow> string option" where
  "cases_jcdomain e = (
     if e = 0x9000 then Some ''SW_NO_ERROR'' else
     if e = 0x9484 then Some ''SW_JCDOMAIN_ALGORITHM_NOT_SUPPORTED'' else
     if e = 0x6283 then Some ''SW_JCDOMAIN_APPLET_INVALIDATED'' else
     if e = 0x6300 then Some ''SW_JCDOMAIN_AUTHENTICATION_FAILED'' else
     if e = 0x9482 then Some ''SW_JCDOMAIN_AUTHORIZATION_FAILED'' else
     if e = 0x9584 then Some ''SW_JCDOMAIN_CHECKSUM_FAILED'' else
     if e = 0x9583 then Some ''SW_JCDOMAIN_DECRYPTION_FAILED'' else
     if e = 0x9585 then Some ''SW_JCDOMAIN_INSTALLATION_FAILED'' else
     if e = 0x9481 then Some ''SW_JCDOMAIN_INVALID_STATE'' else
     if e = 0x6400 then Some ''SW_JCDOMAIN_NO_SPECIFIC_DIAGNOSIS'' else
     if e = 0x6A88 then Some ''SW_JCDOMAIN_REFERENCE_DATA_NOT_FOUND'' else
     if e = 0x9586 then Some ''SW_JCDOMAIN_REGISTRATION_FAILED'' else
     if e = 0x9582 then Some ''SW_JCDOMAIN_SIGNATURE_CHECK_FAILED'' else
     if e = 0x6988 then Some ''SW_JCDOMAIN_SM_INCORRECT'' else
     if e = 0x6987 then Some ''SW_JCDOMAIN_SM_MISSING'' else
     None)"

definition cases_applet :: "int \<Rightarrow> string option" where
  "cases_applet e = (
     if e = 0x6680 then Some ''SW_SECURITY_NOT_SATISFIED'' else
     if e = 0x6681 then Some ''SW_USAGE_UPDATE_FAIL'' else
     if e = 0x6682 then Some ''SW_USAGE_NOT_ALLOWED'' else
     if e = 0x6683 then Some ''SW_ALG_UUID_NOT_UNIQUE'' else
     if e = 0x6684 then Some ''SW_ALG_CONTAINER_FULL'' else
     if e = 0x6685 then Some ''SW_ALG_UUID_NOT_FOUND'' else
     if e = 0x6686 then Some ''SW_SWA_UUID_NOT_UNIQUE'' else
     if e = 0x6687 then Some ''SW_SWA_CONTAINER_FULL'' else
     if e = 0x6688 then Some ''SW_BAD_KEY'' else
     if e = 0x6689 then Some ''SW_ALG_TYPE_UNKNOWN'' else
     if e = 0x6690 then Some ''SW_ALG_UUID_BAD_LENGTH'' else
     if e = 0x6691 then Some ''SW_SWA_UUID_BAD_LENGTH'' else
     if e = 0x6692 then Some ''SW_HWT_UUID_BAD'' else
     if e = 0x6693 then Some ''SW_SWA_UUID_BAD'' else
     if e = 0x6694 then Some ''SW_XML_UNEXPECTED_ELEM'' else
     if e = 0x6695 then Some ''SW_XML_UNEXPECTED_END'' else
     if e = 0x6696 then Some ''SW_LICENCE_OUTDATED'' else
     if e = 0x6697 then Some ''SW_SWA_PERMIT_ALG_FULL'' else
     if e = 0x6698 then Some ''SW_ALG_SWA_NOT_PERMITED'' else
     if e = 0x6699 then Some ''SW_LICENCE_OUTOFORDER'' else
     if e = 0x6714 then Some ''SW_SEAUT_STOP_MESSAGE_BAD'' else
     if e = 0x6701 then Some ''SW_SWA_AUTH_REQUIRED'' else
     if e = 0x6702 then Some ''SW_ENCRYPT_FAIL'' else
     if e = 0x6704 then Some ''SW_SWA_NOT_FOUND'' else
     if e = 0x6705 then Some ''SW_ALG_NOT_FOUND'' else
     if e = 0x6706 then Some ''SW_XMLPARSER_INSUFFICIENT_DATA'' else
     if e = 0x6707 then Some ''SW_XMLPARSER_INVALID_DATA'' else
     if e = 0x6708 then Some ''SW_XMLPARSER_UNKNOWN_ERROR'' else
     if e = 0x6709 then Some ''SW_IV_BAD'' else
     if e = 0x6710 then Some ''SW_CIPHER_DATA_LENGTH_BAD'' else
     if e = 0x6711 then Some ''SW_MESSAGE_LENGTH_BAD'' else
     if e = 0x6712 then Some ''SW_SEAUT_STEP_BAD'' else
     if e = 0x6713 then Some ''SW_SEAUT_FRESHNESS_FAIL'' else
     if e = 0x6715 then Some ''SW_KEY_LENGTH_BAD'' else
     if e = 0x6716 then Some ''SW_ALG_INPUT_BAD'' else
     if e = 0x6900 then Some ''SW_BAD_PIN'' else
     if e = 0x6717 then Some ''SW_BAD_TEST_DATA_LEN'' else
     None)"

definition cases_applet_more :: "int \<Rightarrow> string option" where
  "cases_applet_more e = (
     if e = 0x6720 then Some ''SW_SENSITIVE_ATTEMPTS_BLOCKED'' else
     if e = 0x6721 then Some ''SW_SENSITIVE_ATTEMPTS_TOO_HIGH'' else
     if e = 0x6722 then Some ''SW_INVALID_ACTIVE_STATE'' else
     if e = 0x6723 then Some ''SW_WRONG_MAGIC_VALUE'' else
     if e = 0x6724 then Some ''SW_UNKNOWN_OPERATION'' else
     if e = 0x6725 then Some ''SW_NOT_IMPLEMENTED_YET'' else
     if e = 0x6726 then Some ''SW_UNKNOWN_INTERNAL_STATE'' else
     if e = 0x6727 then Some ''SW_WRONG_INTERNAL_STATE'' else
     if e = 0x6728 then Some ''SW_RSA_DECRYPT_BAD'' else
     if e = 0x6729 then Some ''SW_WRONG_HASH_LENGTH'' else
     if e = 0x6730 then Some ''SW_HASH_DIFFERS'' else
     if e = 0x6731 then Some ''SW_UNKNOWN_LICENCE_TYPE'' else
     if e = 0x6732 then Some ''SW_WRONG_APPLET_SN'' else
     if e = 0x6734 then Some ''SW_LICENCE_ALREADY_USED'' else
     if e = 0x6735 then Some ''SW_LICENCE_LENGTH_BAD'' else
     if e = 0x6736 then Some ''SW_NO_CREDIT_LEFT'' else
     if e = 0x6737 then Some ''SW_WRONG_LICENCE_TAG'' else
     if e = 0x6738 then Some ''SW_LICENCE_PREVIOUS_EXPECTED'' else
     if e = 0x6739 then Some ''SW_NO_SUCH_APPLICATION_PROFILE'' else
     if e = 0x6740 then Some ''SW_WRONG_MAC'' else
     if e = 0x6741 then Some ''SW_WRONG_PADDING'' else
     if e = 0x6742 then Some ''SW_INTERNAL_LENGTH_WRONG'' else
     if e = 0x6743 then Some ''SW_MASTER_BOARD_SLOT_BAD'' else
     if e = 0x6744 then Some ''SW_LICENCE_MAX_COUNTER_REACHED'' else
     if e = 0x6745 then Some ''SW_HASH_DIFFERS2'' else
     None)"

text \<open>The two \<open>switch\<close> statements over the low byte: two decimal digits up to 15.\<close>

definition low_byte_text :: "int \<Rightarrow> string" where
  "low_byte_text b =
     (if b < 10 then [CHR ''0'', char_of (48 + nat b)]
      else if b < 16 then [CHR ''1'', char_of (38 + nat b)] else ''XX'')"

definition unknown_text :: string where
  "unknown_text = [CHR 0x27] @ ''unknown'' @ [CHR 0x27]"

definition default_text :: "int \<Rightarrow> string" where
  "default_text error =
     (if error AND 0xFF00 = SW_BYTES_REMAINING_00 then ''SW_BYTES_REMAINING_'' @ low_byte_text (error AND 0xFF)
      else if error AND 0xFF00 = SW_CORRECT_LENGTH_00 then ''SW_CORRECT_LENGTH_'' @ low_byte_text (error AND 0xFF)
      else unknown_text)"

definition ErrorToString :: "int \<Rightarrow> string" where
  "ErrorToString error =
     (case cases_base error of Some t \<Rightarrow> t | None \<Rightarrow>
      case cases_cardcomm error of Some t \<Rightarrow> t | None \<Rightarrow>
      case cases_iso error of Some t \<Rightarrow> t | None \<Rightarrow>
      case cases_jcdomain error of Some t \<Rightarrow> t | None \<Rightarrow>
      case cases_applet error of Some t \<Rightarrow> t | None \<Rightarrow>
      case cases_applet_more error of Some t \<Rightarrow> t | None \<Rightarrow> default_text error)"

subsection \<open>Which constants have which text\<close>

text \<open>What a constant is called in its text: its name, the name without \<open>STAT_\<close>, or something else.\<close>

definition own_text :: "string \<times> int \<Rightarrow> bool" where
  "own_text cv = (let (c, v) = cv; t = ErrorToString v in t = c \<or> ''STAT_'' @ t = c)"

definition other_text :: "(string \<times> int) list \<Rightarrow> (string \<times> int) list" where
  "other_text = filter (\<lambda>cv. \<not> own_text cv)"

lemma other_text_append: "other_text (xs @ ys) = other_text xs @ other_text ys"
  by (simp add: other_text_def)

lemma other_texts:
  "other_text codes_base = [(''STAT_OK'', 0), (''STAT_WRONG_PADDING'', 47), (''STAT_NOT_HEXA_CHARACTER'', 109), (''STAT_VALUE_NOT_FOUND'', 110)]"
  "other_text codes_applet = [(''SW_DECRYPT_FAIL'', 0x6703)]"
  "other_text codes_applet_more = []"
  "other_text codes_iso = [(''SW_FILE_NOT_FOUND'', 0x6A82)]"
  "other_text codes_jcdomain = []"
  "other_text codes_cardcomm = []"
  by code_simp+

text \<open>
  The texts of the status codes. Every constant of \<open>status.H\<close> is translated to its own name or its
  name without \<open>STAT_\<close>, except \<open>STAT_OK\<close> (SUCCESS), \<open>SW_FILE_NOT_FOUND\<close>, which is reported as
  \<open>SW_CLA_NOT_SUPPORTED\<close>, and four constants without a text of their own.
\<close>

theorem status_codes_described:
  "other_text status_codes =
     [(''STAT_OK'', 0), (''STAT_WRONG_PADDING'', 47), (''STAT_NOT_HEXA_CHARACTER'', 109), (''STAT_VALUE_NOT_FOUND'', 110),
      (''SW_DECRYPT_FAIL'', 0x6703), (''SW_FILE_NOT_FOUND'', 0x6A82)] \<and>
   ErrorToString 0 = ''SUCCESS'' \<and> ErrorToString 0x6A82 = ''SW_CLA_NOT_SUPPORTED'' \<and>
   map ErrorToString [47, 109, 110, 0x6703] = replicate 4 unknown_text"
proof (intro conjI)
  show "other_text status_codes =
     [(''STAT_OK'', 0), (''STAT_WRONG_PADDING'', 47), (''STAT_NOT_HEXA_CHARACTER'', 109), (''STAT_VALUE_NOT_FOUND'', 110),
      (''SW_DECRYPT_FAIL'', 0x6703), (''SW_FILE_NOT_FOUND'', 0x6A82)]"
    unfolding status_codes_def other_text_append other_texts by simp
  show "ErrorToString 0 = ''SUCCESS''" "ErrorToString 0x6A82 = ''SW_CLA_NOT_SUPPORTED''"
    "map ErrorToString [47, 109, 110, 0x6703] = replicate 4 unknown_text"
    by code_simp+
qed

end
