(* ===== verification/Measure_Files.thy ===== *)
theory Measure_Files
  imports Hex_Codec
begin

text \<open>
  The file functions of \<open>CommonFnc.cpp\<close> for measured data: finding a free file name
  (\<open>File_GetAvailableFileName\<close>) and writing a range of samples as decimal lines or as raw memory
  (\<open>File_SaveMatrixInt\<close>). The file system is a predicate on names, the content of a file a text; a
  text stream of the Windows runtime writes every newline as a carriage return and a newline.
\<close>

subsection \<open>A free file name\<close>

definition MAX_PATH :: nat where "MAX_PATH = 260"

text \<open>
  The zeroes in front of the index. \<open>index\<close> is a \<open>DWORD\<close>, printed by \<open>%d\<close> as a signed number; the
  four parts of the path come from the runtime's \<open>_splitpath_s\<close>.
\<close>

definition index_zeroes :: "dword \<Rightarrow> string" where
  "index_zeroes index =
     (if index < 10 then ''0000'' else if index < 100 then ''000'' else if index < 1000 then ''00''
      else if index < 10000 then ''0'' else [])"

definition indexed_name :: "string \<times> string \<times> string \<times> string \<Rightarrow> dword \<Rightarrow> string" where
  "indexed_name parts index = (let (drive, dir, fname, ext) = parts
     in drive @ dir @ fname @ index_zeroes index @ fmt_d index @ ext)"

text \<open>
  The search loop: every candidate is copied into an array of \<open>MAX_PATH\<close> characters before it is
  looked up. When all names are taken the index wraps and the loop goes on for ever.
\<close>

partial_function (option) next_available ::
    "(string \<Rightarrow> bool) \<Rightarrow> string \<times> string \<times> string \<times> string \<Rightarrow> dword \<Rightarrow> string res option" where
  "next_available exists_file parts index =
     (let fileName = indexed_name parts index in
      if \<not> length fileName < MAX_PATH then Some (Inl Out_Of_Bounds)
      else if exists_file fileName then next_available exists_file parts (index + 1)
      else Some (Inr fileName))"

definition File_GetAvailableFileName ::
    "(string \<Rightarrow> string \<times> string \<times> string \<times> string) \<Rightarrow> (string \<Rightarrow> bool) \<Rightarrow> string \<Rightarrow> (status \<times> string) res option" where
  "File_GetAvailableFileName split_path exists_file baseFile =
     map_option (\<lambda>r. bindE r (\<lambda>name. Inr (STAT_OK, name))) (next_available exists_file (split_path baseFile) 1)"

subsection \<open>Saving samples\<close>

definition NUM_VALUES_PER_WRITE :: nat where "NUM_VALUES_PER_WRITE = 1000"

record int_data_blob =
  pData :: "dword list"
  dwMaxLen :: dword
  dwActLen :: dword

text \<open>What a text stream puts into the file.\<close>

definition crlf :: "string \<Rightarrow> string" where
  "crlf s = concat (map (\<lambda>c. if c = NL then [CHR 0x0D, NL] else [c]) s)"

definition int_bytes :: "dword \<Rightarrow> string" where
  "int_bytes w = map (\<lambda>k. char_of_byte (ucast (drop_bit (8 * k) w))) [0, 1, 2, 3]"

text \<open>
  The loop over the samples; \<open>values\<close> is the text not yet written, \<open>out\<close> the content of the file.
  It is written whenever the index is a multiple of 1000, and once more at the end.
\<close>

fun save_loop :: "dword list \<Rightarrow> nat list \<Rightarrow> string \<times> string \<Rightarrow> (string \<times> string) res" where
  "save_loop pd [] st = Inr st"
| "save_loop pd (i # js) (values, out) =
     (if i < length pd then
        (let values1 = values @ fmt_d (pd ! i) @ [NL]
         in if i mod NUM_VALUES_PER_WRITE = 0 then save_loop pd js ([], out @ crlf values1)
            else save_loop pd js (values1, out))
      else Inl Out_Of_Bounds)"

text \<open>
  \<open>old\<close> is the content of the file when it can be opened. The stream appends, so the position that
  \<open>startFileOffset\<close> asks for has no effect on where is written.
\<close>

definition File_SaveMatrixInt ::
    "string option \<Rightarrow> int_data_blob \<Rightarrow> 64 word \<Rightarrow> 64 word \<Rightarrow> 64 word \<Rightarrow> bool \<Rightarrow> (status \<times> string option) res" where
  "File_SaveMatrixInt old pBlob startOffset endOffset0 startFileOffset bSaveBinary =
     (let endOffset = (if endOffset0 = - 1 then ucast (dwActLen pBlob) else endOffset0); s = unat startOffset; e = unat endOffset
      in case old of
        None \<Rightarrow> Inr (STAT_FILE_OPEN_FAIL, None)
      | Some content \<Rightarrow>
          if bSaveBinary then
            (if s \<le> e \<and> e \<le> length (pData pBlob)
             then Inr (STAT_OK, Some (content @ crlf (concat (map int_bytes (take (e - s) (drop s (pData pBlob)))))))
             else Inl Out_Of_Bounds)
          else
            bindE (save_loop (pData pBlob) [s..<e] ([], content)) (\<lambda>(values, out).
            Inr (STAT_OK, Some (out @ crlf values))))"

definition File_SaveMatrixIntFileOffset ::
    "64 word \<Rightarrow> string option \<Rightarrow> int_data_blob \<Rightarrow> 64 word \<Rightarrow> 64 word \<Rightarrow> bool \<Rightarrow> (status \<times> string option) res" where
  "File_SaveMatrixIntFileOffset startFileOffset old pBlob startOffset endOffset bSaveBinary =
     File_SaveMatrixInt old pBlob startOffset endOffset startFileOffset bSaveBinary"

subsection \<open>Names are found\<close>

lemma fmt_d_small: "n < 2 ^ 31 \<Longrightarrow> fmt_d (of_nat n) = fmt_u n"
proof -
  assume n: "n < 2 ^ 31"
  then have "sint (of_nat n :: dword) = int n"
    by (simp add: sint_uint unat_of_nat signed_take_bit_int_eq_self take_bit_nat_eq_self uint_nat)
  then show ?thesis by (simp add: fmt_d_def)
qed

lemma index_digits: "\<exists>zs. index_zeroes w = zs \<and> (\<forall>c \<in> set zs. c = CHR ''0'')"
  by (simp add: index_zeroes_def)

lemma digits_val_zeroes: "\<forall>c \<in> set zs. c = CHR ''0'' \<Longrightarrow> digits_val 10 0 (zs @ ds) = digits_val 10 0 ds"
  by (induction zs) (simp_all add: digit_in_def digit_val_def)

lemma indexed_name_inject:
  assumes "m < 2 ^ 31" and "n < 2 ^ 31" and "indexed_name parts (of_nat m) = indexed_name parts (of_nat n)"
  shows "m = n"
proof -
  obtain drive dir fname ext where parts: "parts = (drive, dir, fname, ext)" by (cases parts)
  have "index_zeroes (of_nat m) @ fmt_u m = index_zeroes (of_nat n) @ fmt_u n"
    using assms(3) unfolding indexed_name_def parts prod.case Let_def fmt_d_small[OF assms(1)] fmt_d_small[OF assms(2)]
      append_assoc[symmetric] by (simp only: append_same_eq) simp
  then have "digits_val 10 0 (index_zeroes (of_nat m) @ fmt_u m) = digits_val 10 0 (index_zeroes (of_nat n) @ fmt_u n)" by simp
  then show ?thesis
    using digits_val_zeroes[of "index_zeroes (of_nat m)"] digits_val_zeroes[of "index_zeroes (of_nat n)"]
      index_digits[of "of_nat m"] index_digits[of "of_nat n"] digits_val_radix_10 by (simp add: fmt_u_def)
qed

lemma next_available_reaches:
  assumes "\<And>i. length (indexed_name parts i) < MAX_PATH"
    and "\<not> ex (indexed_name parts (of_nat (n + k)))" and "\<And>j. j < k \<Longrightarrow> ex (indexed_name parts (of_nat (n + j)))"
  shows "next_available ex parts (of_nat n) = Some (Inr (indexed_name parts (of_nat (n + k))))"
  using assms(2,3)
proof (induction k arbitrary: n)
  case 0
  then show ?case using assms(1) by (subst next_available.simps) (simp add: Let_def)
next
  case (Suc k)
  have "next_available ex parts (of_nat (Suc n)) = Some (Inr (indexed_name parts (of_nat (Suc n + k))))"
  proof (rule Suc.IH)
    fix j assume "j < k"
    then show "ex (indexed_name parts (of_nat (Suc n + j)))" using Suc.prems(2)[of "Suc j"] by simp
  qed (use Suc.prems(1) in simp)
  moreover have "ex (indexed_name parts (of_nat n))" using Suc.prems(2)[of 0] by simp
  ultimately show ?case using assms(1) by (subst next_available.simps) (simp add: Let_def add.commute)
qed

lemma length_indexed_name:
  "length (indexed_name (drive, dir, fname, ext) i) \<le> length drive + length dir + length fname + length ext + 15"
proof -
  have s: "- (2 ^ 31) \<le> sint i" "sint i < 2 ^ 31" using sint_ge[of i] sint_lt[of i] by simp_all
  then have "length (fmt_u (nat (- sint i))) \<le> 10" "length (fmt_u (nat (sint i))) \<le> 10" by (auto intro: length_fmt_u)
  then have "length (fmt_d i) \<le> 11" by (simp add: fmt_d_def Let_def)
  moreover have "length (index_zeroes i) \<le> 4" by (simp add: index_zeroes_def)
  ultimately show ?thesis by (simp add: indexed_name_def)
qed

text \<open>
  C31: A free name is found. As long as fewer than 2147483647 files exist and the path leaves
  room for the index in the array, \<open>File_GetAvailableFileName\<close> returns: the name with the first index
  from 1 on, written with at least five digits, that no file has.
\<close>

theorem available_name_found:
  assumes "split_path baseFile = (drive, dir, fname, ext)"
    and "length drive + length dir + length fname + length ext \<le> 240"
    and "finite {f. exists_file f}" and "card {f. exists_file f} < 2 ^ 31 - 1"
  shows "\<exists>k \<ge> 1. k < 2 ^ 31 \<and>
    File_GetAvailableFileName split_path exists_file baseFile =
      Some (Inr (STAT_OK, indexed_name (drive, dir, fname, ext) (of_nat k))) \<and>
    \<not> exists_file (indexed_name (drive, dir, fname, ext) (of_nat k)) \<and>
    (\<forall>j. 1 \<le> j \<and> j < k \<longrightarrow> exists_file (indexed_name (drive, dir, fname, ext) (of_nat j)))"
proof -
  let ?p = "(drive, dir, fname, ext)"
  let ?name = "\<lambda>n :: nat. indexed_name ?p (of_nat n)"
  let ?free = "\<lambda>k. 1 \<le> k \<and> k < 2 ^ 31 \<and> \<not> exists_file (?name k)"
  have "\<exists>k. ?free k"
  proof (rule ccontr)
    assume "\<nexists>k. ?free k"
    then have sub: "?name ` {1..<2 ^ 31} \<subseteq> {f. exists_file f}" by auto
    have "inj_on ?name {1..<2 ^ 31}" by (rule inj_onI) (use indexed_name_inject in auto)
    then have "card (?name ` {1..<2 ^ 31}) = 2 ^ 31 - 1" by (simp add: card_image)
    then show False using card_mono[OF assms(3) sub] assms(4) by simp
  qed
  then obtain k where k: "?free k" "\<forall>j < k. \<not> ?free j" using exists_least_iff[of ?free] by blast
  have before: "exists_file (?name j)" if "1 \<le> j" "j < k" for j using that k by auto
  have "next_available exists_file ?p (of_nat 1) = Some (Inr (indexed_name ?p (of_nat (1 + (k - 1)))))"
  proof (rule next_available_reaches)
    show "length (indexed_name ?p i) < MAX_PATH" for i
      using length_indexed_name[of drive dir fname ext i] assms(2) by (simp add: MAX_PATH_def)
    show "\<not> exists_file (indexed_name ?p (of_nat (1 + (k - 1))))" using k(1) by simp
    fix j assume "j < k - 1"
    then show "exists_file (indexed_name ?p (of_nat (1 + j)))" by (intro before) simp_all
  qed
  then have "File_GetAvailableFileName split_path exists_file baseFile = Some (Inr (STAT_OK, ?name k))"
    using k(1) assms(1) by (simp add: File_GetAvailableFileName_def)
  then show ?thesis using k(1) before by blast
qed

text \<open>With the first two names taken, the third one is returned.\<close>

theorem available_name_found_witness:
  "File_GetAvailableFileName (\<lambda>_. ([], ''m/'', ''data'', ''.txt'')) (\<lambda>f. f \<in> {''m/data00001.txt'', ''m/data00002.txt''}) ''m/data.txt'' =
     Some (Inr (STAT_OK, ''m/data00003.txt''))"
proof -
  let ?ex = "\<lambda>f. f \<in> {''m/data00001.txt'', ''m/data00002.txt''}" and ?p = "([], ''m/'', ''data'', ''.txt'')"
  have names: "indexed_name ?p (of_nat 1) = ''m/data00001.txt''" "indexed_name ?p (of_nat 2) = ''m/data00002.txt''"
    "indexed_name ?p (of_nat 3) = ''m/data00003.txt''"
    by code_simp+
  have "finite {f. ?ex f}" "card {f. ?ex f} < 2 ^ 31 - 1" unfolding Collect_mem_eq by (simp_all add: card_insert_if)
  then obtain k where k: "1 \<le> k" "k < 2 ^ 31" "\<not> ?ex (indexed_name ?p (of_nat k))"
    "File_GetAvailableFileName (\<lambda>_. ?p) ?ex ''m/data.txt'' = Some (Inr (STAT_OK, indexed_name ?p (of_nat k)))"
    "\<forall>j. 1 \<le> j \<and> j < k \<longrightarrow> ?ex (indexed_name ?p (of_nat j))"
    using available_name_found[of "\<lambda>_. ?p" "''m/data.txt''" "[]" "''m/''" "''data''" "''.txt''" ?ex] by auto
  have "k \<noteq> 1" "k \<noteq> 2" using k(3) names by auto
  moreover have "\<not> 3 < k" using k(5)[rule_format, of 3] names by auto
  ultimately have "k = 3" using k(1) by linarith
  then show ?thesis using k(4) names(3) by simp
qed

subsection \<open>Samples are saved\<close>

lemma crlf_append [simp]: "crlf (s @ t) = crlf s @ crlf t"
  by (simp add: crlf_def)

definition sample_lines :: "dword list \<Rightarrow> string" where
  "sample_lines ws = concat (map (\<lambda>w. fmt_d w @ [NL]) ws)"

text \<open>Splitting the text into blocks makes no difference to the file.\<close>

lemma save_loop_text:
  assumes "\<forall>i \<in> set js. i < length pd"
  shows "\<exists>values' out'. save_loop pd js (values, out) = Inr (values', out') \<and>
    out' @ crlf values' = out @ crlf values @ crlf (sample_lines (map ((!) pd) js))"
  using assms
proof (induction js arbitrary: "values" out)
  case Nil
  then show ?case by (simp add: sample_lines_def crlf_def)
next
  case (Cons i js)
  have ok: "\<forall>i \<in> set js. i < length pd" and i: "i < length pd" using Cons.prems by simp_all
  let ?v = "values @ fmt_d (pd ! i) @ [NL]"
  show ?case
  proof (cases "i mod NUM_VALUES_PER_WRITE = 0")
    case True
    then show ?thesis using Cons.IH[OF ok, of "[]" "out @ crlf ?v"] i by (auto simp: sample_lines_def crlf_def)
  next
    case False
    then show ?thesis using Cons.IH[OF ok, of ?v out] i by (auto simp: sample_lines_def crlf_def)
  qed
qed

definition end_offset :: "int_data_blob \<Rightarrow> 64 word \<Rightarrow> 64 word" where
  "end_offset b e = (if e = - 1 then ucast (dwActLen b) else e)"

definition sample_range :: "int_data_blob \<Rightarrow> 64 word \<Rightarrow> 64 word \<Rightarrow> dword list" where
  "sample_range b s e = take (unat (end_offset b e) - unat s) (drop (unat s) (pData b))"

text \<open>
  C30: Samples are saved as written. For a range within the samples, -1 standing for the end of all of
  them, and a file that can be opened, the text form appends one line with the signed decimal number
  for each sample of the range, in order and whatever the blocks in which it is written. Without a
  file the status is \<open>STAT_FILE_OPEN_FAIL\<close>. The position asked for is ignored.
\<close>

theorem samples_saved_as_text:
  assumes "unat s \<le> unat (end_offset b e)" and "unat (end_offset b e) \<le> length (pData b)"
  shows "File_SaveMatrixIntFileOffset pos (Some old) b s e False =
      Inr (STAT_OK, Some (old @ crlf (sample_lines (sample_range b s e)))) \<and>
    File_SaveMatrixIntFileOffset pos None b s e False = Inr (STAT_FILE_OPEN_FAIL, None)"
proof -
  let ?s = "unat s" and ?e = "unat (end_offset b e)"
  have "map ((!) (pData b)) [?s..<?e] = sample_range b s e"
    using assms by (auto simp: sample_range_def list_eq_iff_nth_eq)
  moreover have "\<forall>i \<in> set [?s..<?e]. i < length (pData b)" using assms by simp
  ultimately obtain vs out where "save_loop (pData b) [?s..<?e] ([], old) = Inr (vs, out)"
    "out @ crlf vs = old @ crlf (sample_lines (sample_range b s e))"
    using save_loop_text[of "[?s..<?e]" "pData b" "[]" old] by (auto simp: crlf_def)
  then show ?thesis
    by (simp add: File_SaveMatrixIntFileOffset_def File_SaveMatrixInt_def Let_def flip: end_offset_def)
qed

theorem samples_saved_as_text_witness:
  "File_SaveMatrixIntFileOffset 8 (Some ''x'') \<lparr>pData = [7, - 1, 12], dwMaxLen = 3, dwActLen = 2\<rparr> 0 (- 1) False =
     Inr (STAT_OK, Some (''x7'' @ [CHR 0x0D, NL] @ ''-1'' @ [CHR 0x0D, NL]))"
proof -
  let ?b = "\<lparr>pData = [7, - 1, 12], dwMaxLen = 3, dwActLen = 2\<rparr>"
  have e: "end_offset ?b (- 1) = 2" by (simp add: end_offset_def)
  have t: "sample_range ?b 0 (- 1) = [7, - 1]" by (simp add: sample_range_def e)
  have "crlf (sample_lines [7, - 1]) = ''7'' @ [CHR 0x0D, NL] @ ''-1'' @ [CHR 0x0D, NL]" by code_simp
  then show ?thesis using samples_saved_as_text[of 0 ?b "- 1" 8 "''x''"] unfolding e t by simp
qed

text \<open>
  Samples saved as raw memory are changed. The binary form goes through the same text stream, so each
  byte 0A of the samples becomes two: the file grows by four bytes per sample and one more for every
  such byte, and holds the samples themselves only when there is none.
\<close>

theorem binary_samples_change:
  assumes "unat s \<le> unat (end_offset b e)" and "unat (end_offset b e) \<le> length (pData b)"
  shows "\<exists>added. File_SaveMatrixIntFileOffset pos (Some old) b s e True = Inr (STAT_OK, Some (old @ added)) \<and>
    length added = 4 * (unat (end_offset b e) - unat s) +
      length (filter (\<lambda>c. c = NL) (concat (map int_bytes (sample_range b s e)))) \<and>
    (added = concat (map int_bytes (sample_range b s e)) \<longleftrightarrow> NL \<notin> set (concat (map int_bytes (sample_range b s e))))"
proof -
  let ?raw = "concat (map int_bytes (sample_range b s e))"
  have len: "length (crlf t) = length t + length (filter (\<lambda>c. c = NL) t)" for t
    by (induction t) (simp_all add: crlf_def)
  have "length (concat (map int_bytes ws)) = 4 * length ws" for ws
    by (induction ws) (simp_all add: int_bytes_def)
  then have raw: "length ?raw = 4 * (unat (end_offset b e) - unat s)" using assms by (simp add: sample_range_def)
  have "crlf t = t" if "NL \<notin> set t" for t using that by (induction t) (auto simp: crlf_def)
  moreover have "crlf t \<noteq> t" if "NL \<in> set t" for t
  proof
    assume "crlf t = t"
    then have "length (filter (\<lambda>c. c = NL) t) = 0" using len[of t] by simp
    then have "filter (\<lambda>c. c = NL) t = []" by simp
    then show False using that unfolding filter_empty_conv by blast
  qed
  ultimately have "crlf ?raw = ?raw \<longleftrightarrow> NL \<notin> set ?raw" by blast
  moreover have "File_SaveMatrixIntFileOffset pos (Some old) b s e True = Inr (STAT_OK, Some (old @ crlf ?raw))"
    using assms by (simp add: File_SaveMatrixIntFileOffset_def File_SaveMatrixInt_def Let_def sample_range_def flip: end_offset_def)
  ultimately show ?thesis using len[of ?raw] raw by auto
qed

theorem binary_samples_change_witness:
  "\<exists>added. File_SaveMatrixIntFileOffset 0 (Some []) \<lparr>pData = [10], dwMaxLen = 1, dwActLen = 1\<rparr> 0 1 True = Inr (STAT_OK, Some added) \<and>
     length added = 5"
proof -
  let ?b = "\<lparr>pData = [10], dwMaxLen = 1, dwActLen = 1\<rparr>"
  have e: "end_offset ?b 1 = 1" by (simp add: end_offset_def)
  have t: "sample_range ?b 0 1 = [10]" by (simp add: sample_range_def e)
  have "length (filter (\<lambda>c. c = NL) (concat (map int_bytes [10]))) = 1" by code_simp
  then show ?thesis using binary_samples_change[of 0 ?b 1 0 "[]"] unfolding e t by auto
qed

end
