(* ===== verification/Socket_Objects.thy ===== *)
theory Socket_Objects
  imports Sockets
begin

text \<open>
  The life of the objects of \<open>socket.cpp\<close> in detail: \<open>Socket\<close> shares one handle of the operating
  system between copies by a counter on the heap, and counts all objects in \<open>nofSockets_\<close> to start and
  stop Winsock. Here the counters are cells of a heap, the open handles a list, and every operation
  - constructors, destructor, copy, assignment, \<open>SocketServer\<close>, \<open>Accept\<close>, \<open>SocketClient\<close> - is a
  function on that state; their sequences are an inductive step relation. What the operating system
  answers is given with each operation. The theory ends with \<open>ReceiveBytes\<close> and \<open>SendBytes\<close>.
\<close>

subsection \<open>State\<close>

type_synonym sock = "64 word"

definition INVALID_SOCKET :: sock where "INVALID_SOCKET = - 1"

text \<open>
  An object is its name, the handle \<open>s_\<close> and the cell \<open>refCounter_\<close> points to. A \<open>closesocket\<close> of
  something that is not open is remembered as \<open>stray\<close>: it fails, or closes a stranger's handle.
\<close>

record sock_obj =
  ob_id :: nat
  ob_handle :: sock
  ob_cell :: nat

record sock_sys =
  nofSockets :: int
  cells :: "nat \<rightharpoonup> int"
  next_cell :: nat
  objs :: "sock_obj list"
  open_socks :: "sock list"
  stray :: "sock list"
  wsa_started :: nat
  wsa_cleaned :: nat

definition no_sockets :: sock_sys where
  "no_sockets = \<lparr>nofSockets = 0, cells = Map.empty, next_cell = 0, objs = [], open_socks = [], stray = [],
     wsa_started = 0, wsa_cleaned = 0\<rparr>"

text \<open>The object with a name.\<close>

definition find_object :: "nat \<Rightarrow> sock_sys \<Rightarrow> sock_obj option" where
  "find_object x st = find (\<lambda>ob. ob_id ob = x) (objs st)"

type_synonym 'a sock_act = "sock_sys \<Rightarrow> 'a res \<times> sock_sys"

definition andThen :: "'a sock_act \<Rightarrow> ('a \<Rightarrow> 'b sock_act) \<Rightarrow> 'b sock_act" where
  "andThen m f st = (case m st of (Inl e, st1) \<Rightarrow> (Inl e, st1) | (Inr x, st1) \<Rightarrow> f x st1)"

definition closesocket :: "sock \<Rightarrow> sock_sys \<Rightarrow> sock_sys" where
  "closesocket s st =
     (if s \<in> set (open_socks st) then st\<lparr>open_socks := removeAll s (open_socks st)\<rparr>
      else st\<lparr>stray := stray st @ [s]\<rparr>)"

subsection \<open>Operations\<close>

definition Socket_Start :: "bool \<Rightarrow> unit sock_act" where
  "Socket_Start wsa_ok st =
     (if nofSockets st = 0 \<and> \<not> wsa_ok then (Inl (Throws (Exn_CString ''Could not start WSA'')), st)
      else (Inr (), st\<lparr>nofSockets := nofSockets st + 1,
              wsa_started := (if nofSockets st = 0 then wsa_started st + 1 else wsa_started st)\<rparr>))"

definition Socket_End :: "sock_sys \<Rightarrow> sock_sys" where
  "Socket_End st = st\<lparr>wsa_cleaned := wsa_cleaned st + 1\<rparr>"

text \<open>\<open>refCounter_ = new int(1)\<close> for an object \<open>x\<close> with handle \<open>s\<close>.\<close>

definition count_object :: "nat \<Rightarrow> sock \<Rightarrow> sock_sys \<Rightarrow> sock_sys" where
  "count_object x s st =
     st\<lparr>cells := (cells st)(next_cell st \<mapsto> 1), next_cell := next_cell st + 1, objs := \<lparr>ob_id = x, ob_handle = s, ob_cell = next_cell st\<rparr> # objs st\<rparr>"

text \<open>The default constructor; \<open>sock\<close> is what \<open>socket()\<close> returns.\<close>

definition Socket_new :: "nat \<Rightarrow> bool \<Rightarrow> sock \<Rightarrow> unit sock_act" where
  "Socket_new x wsa_ok sock =
     andThen (Socket_Start wsa_ok) (\<lambda>_ st.
       if sock = INVALID_SOCKET then (Inl (Throws (Exn_CString ''INVALID_SOCKET'')), st)
       else (Inr (), count_object x sock (st\<lparr>open_socks := sock # open_socks st\<rparr>)))"

text \<open>The constructor for a handle that is already open.\<close>

definition Socket_of :: "nat \<Rightarrow> bool \<Rightarrow> sock \<Rightarrow> unit sock_act" where
  "Socket_of x wsa_ok s =
     andThen (Socket_Start wsa_ok) (\<lambda>_ st. (Inr (), count_object x s st))"

text \<open>The destructor. A counter that is gone is read through a dangling pointer.\<close>

definition Socket_delete :: "nat \<Rightarrow> unit sock_act" where
  "Socket_delete x st =
     (case find_object x st of
        None \<Rightarrow> (Inl Use_After_Free, st)
      | Some ob \<Rightarrow>
          (case cells st (ob_cell ob) of
             None \<Rightarrow> (Inl Use_After_Free, st)
           | Some n \<Rightarrow>
               (let st1 = (if n - 1 = 0 then (closesocket (ob_handle ob) st)\<lparr>cells := (cells st)(ob_cell ob := None)\<rparr>
                           else st\<lparr>cells := (cells st)(ob_cell ob \<mapsto> n - 1)\<rparr>);
                    st2 = st1\<lparr>objs := filter (\<lambda>ob. ob_id ob \<noteq> x) (objs st), nofSockets := nofSockets st - 1\<rparr>
                in (Inr (), if nofSockets st2 = 0 then Socket_End st2 else st2))))"

text \<open>The copy constructor of \<open>x\<close> from \<open>y\<close>, and \<open>x = y\<close>, which forgets the old handle and counter of \<open>x\<close>.\<close>

definition share_count :: "nat \<Rightarrow> sock_obj sock_act" where
  "share_count y st =
     (case find_object y st of
        None \<Rightarrow> (Inl Use_After_Free, st)
      | Some ob \<Rightarrow>
          (case cells st (ob_cell ob) of
             None \<Rightarrow> (Inl Use_After_Free, st)
           | Some n \<Rightarrow> (Inr ob, st\<lparr>cells := (cells st)(ob_cell ob \<mapsto> n + 1), nofSockets := nofSockets st + 1\<rparr>)))"

definition Socket_copy :: "nat \<Rightarrow> nat \<Rightarrow> unit sock_act" where
  "Socket_copy x y = andThen (share_count y) (\<lambda>ob st. (Inr (), st\<lparr>objs := ob\<lparr>ob_id := x\<rparr> # objs st\<rparr>))"

definition Socket_assign :: "nat \<Rightarrow> nat \<Rightarrow> unit sock_act" where
  "Socket_assign x y =
     andThen (share_count y) (\<lambda>o2 st.
       (Inr (), st\<lparr>objs := map (\<lambda>ob. if ob_id ob = x then o2\<lparr>ob_id := x\<rparr> else ob) (objs st)\<rparr>))"

text \<open>
  An exception in the constructor of a derived class destroys the complete base object. For
  \<open>SocketClient\<close>: the host lookup fails or \<open>connect\<close> does, with the text of the error.
\<close>

definition throw_from :: "nat \<Rightarrow> cpp_exn \<Rightarrow> unit sock_act" where
  "throw_from x e = andThen (Socket_delete x) (\<lambda>_ st. (Inl (Throws e), st))"

definition SocketClient :: "nat \<Rightarrow> bool \<Rightarrow> sock \<Rightarrow> string option \<Rightarrow> string option \<Rightarrow> unit sock_act" where
  "SocketClient x wsa_ok sock host_error connect_error =
     andThen (Socket_new x wsa_ok sock) (\<lambda>_.
       case host_error of Some e \<Rightarrow> throw_from x (Exn_String e)
       | None \<Rightarrow>
         (case connect_error of Some e \<Rightarrow> throw_from x (Exn_String e) | None \<Rightarrow> (\<lambda>st. (Inr (), st))))"

text \<open>
  \<open>SocketServer\<close>: the handle of the base object is overwritten by that of a second \<open>socket()\<close>; when
  \<open>bind\<close> fails it is closed here, before the base object is destroyed.
\<close>

definition set_handle :: "nat \<Rightarrow> sock \<Rightarrow> sock_sys \<Rightarrow> sock_sys" where
  "set_handle x s st = st\<lparr>objs := map (\<lambda>ob. if ob_id ob = x then ob\<lparr>ob_handle := s\<rparr> else ob) (objs st)\<rparr>"

definition SocketServer :: "nat \<Rightarrow> bool \<Rightarrow> sock \<Rightarrow> sock \<Rightarrow> bool \<Rightarrow> unit sock_act" where
  "SocketServer x wsa_ok sock sock2 bind_ok =
     andThen (Socket_new x wsa_ok sock) (\<lambda>_ st.
       if sock2 = INVALID_SOCKET then throw_from x (Exn_CString ''INVALID_SOCKET'') (set_handle x sock2 st)
       else (let st1 = set_handle x sock2 (st\<lparr>open_socks := sock2 # open_socks st\<rparr>)
             in if \<not> bind_ok then throw_from x (Exn_CString ''INVALID_SOCKET'') (closesocket sock2 st1)
                else (Inr (), st1)))"

text \<open>
  \<open>Accept\<close> on the server \<open>srv\<close>: \<open>new_sock\<close> is the result of \<open>accept\<close>, \<open>would_block\<close> whether the error is
  \<open>WSAEWOULDBLOCK\<close>. The result is the new object \<open>x\<close>, or \<open>NULL\<close> when nobody is waiting.
\<close>

definition SocketServer_Accept :: "nat \<Rightarrow> nat \<Rightarrow> bool \<Rightarrow> sock \<Rightarrow> bool \<Rightarrow> nat option sock_act" where
  "SocketServer_Accept srv x wsa_ok new_sock would_block st =
     (if find_object srv st = None then (Inl Use_After_Free, st)
      else if new_sock = INVALID_SOCKET then
        (if would_block then (Inr None, st) else (Inl (Throws (Exn_CString ''Invalid Socket'')), st))
      else andThen (Socket_of x wsa_ok new_sock) (\<lambda>_ st. (Inr (Some x), st))
             (st\<lparr>open_socks := new_sock # open_socks st\<rparr>))"

subsection \<open>Sequences of operations\<close>

text \<open>
  A handle the operating system returns is new. \<open>plain\<close> programs neither assign sockets nor construct
  servers; the others may, as long as the servers can bind.
\<close>

definition new_handle :: "sock \<Rightarrow> sock_sys \<Rightarrow> bool" where
  "new_handle s st \<longleftrightarrow> s \<notin> set (open_socks st)"

definition new_object :: "nat \<Rightarrow> sock_sys \<Rightarrow> bool" where
  "new_object x st \<longleftrightarrow> x \<notin> ob_id ` set (objs st)"

inductive sock_step :: "bool \<Rightarrow> sock_sys \<Rightarrow> sock_sys \<Rightarrow> bool" where
  client: "new_object x st \<Longrightarrow> new_handle s st \<Longrightarrow> SocketClient x wsa_ok s host_error connect_error st = (r, t) \<Longrightarrow>
    sock_step plain st t"
| accept: "new_object x st \<Longrightarrow> new_handle s st \<Longrightarrow> srv \<in> ob_id ` set (objs st) \<Longrightarrow>
    SocketServer_Accept srv x wsa_ok s would_block st = (r, t) \<Longrightarrow> sock_step plain st t"
| copy: "new_object x st \<Longrightarrow> y \<in> ob_id ` set (objs st) \<Longrightarrow> Socket_copy x y st = (r, t) \<Longrightarrow> sock_step plain st t"
| delete: "x \<in> ob_id ` set (objs st) \<Longrightarrow> Socket_delete x st = (r, t) \<Longrightarrow> sock_step plain st t"
| assign: "x \<in> ob_id ` set (objs st) \<Longrightarrow> y \<in> ob_id ` set (objs st) \<Longrightarrow> Socket_assign x y st = (r, t) \<Longrightarrow> sock_step False st t"
| server: "new_object x st \<Longrightarrow> new_handle s st \<Longrightarrow> new_handle s2 st \<Longrightarrow> s2 \<noteq> s \<Longrightarrow> s2 \<noteq> INVALID_SOCKET \<Longrightarrow>
    SocketServer x wsa_ok s s2 True st = (r, t) \<Longrightarrow> sock_step False st t"

inductive sockets_reach :: "bool \<Rightarrow> sock_sys \<Rightarrow> bool" where
  start: "sockets_reach plain no_sockets"
| step: "sockets_reach plain st \<Longrightarrow> sock_step plain st t \<Longrightarrow> sockets_reach plain t"

subsection \<open>Invariants\<close>

definition holders :: "nat \<Rightarrow> sock_obj list \<Rightarrow> nat" where
  "holders c obs = length (filter (\<lambda>ob. ob_cell ob = c) obs)"

text \<open>
  The invariant kept by all sequences: every object has an open handle and a counter that is at
  least the number of its objects, two objects have the same counter exactly when they have the same
  handle, nothing was closed that was not open, and Winsock runs while an object exists. \<open>k\<close> counts
  objects under construction.
\<close>

definition objects_inv :: "int \<Rightarrow> sock_sys \<Rightarrow> bool" where
  "objects_inv k st \<longleftrightarrow> distinct (map ob_id (objs st)) \<and>
     (\<forall>ob \<in> set (objs st). ob_handle ob \<in> set (open_socks st)) \<and>
     (\<forall>ob \<in> set (objs st). \<exists>n. cells st (ob_cell ob) = Some n \<and> int (holders (ob_cell ob) (objs st)) \<le> n) \<and>
     (\<forall>ob \<in> set (objs st). \<forall>ob' \<in> set (objs st). ob_cell ob = ob_cell ob' \<longleftrightarrow> ob_handle ob = ob_handle ob') \<and>
     (\<forall>c. cells st c \<noteq> None \<longrightarrow> c < next_cell st) \<and> stray st = [] \<and>
     int (length (objs st)) + k \<le> nofSockets st \<and>
     wsa_started st = wsa_cleaned st + (if nofSockets st = 0 then 0 else 1)"

text \<open>
  Without assignment and servers the counters are exact and every open handle, except one about to get
  its object, belongs to an object.
\<close>

definition sock_exact :: "sock set \<Rightarrow> sock_sys \<Rightarrow> bool" where
  "sock_exact E st \<longleftrightarrow>
     (\<forall>c n. cells st c = Some n \<longrightarrow> n = int (holders c (objs st)) \<and> 0 < n) \<and>
     set (open_socks st) = ob_handle ` set (objs st) \<union> E"

lemma objects_invD:
  assumes "objects_inv k st"
  shows "distinct (map ob_id (objs st))" "\<And>ob. ob \<in> set (objs st) \<Longrightarrow> ob_handle ob \<in> set (open_socks st)"
    "\<And>ob. ob \<in> set (objs st) \<Longrightarrow> \<exists>n. cells st (ob_cell ob) = Some n \<and> int (holders (ob_cell ob) (objs st)) \<le> n"
    "\<And>ob ob'. ob \<in> set (objs st) \<Longrightarrow> ob' \<in> set (objs st) \<Longrightarrow> ob_cell ob = ob_cell ob' \<longleftrightarrow> ob_handle ob = ob_handle ob'"
    "\<And>c n. cells st c = Some n \<Longrightarrow> c < next_cell st" "stray st = []" "int (length (objs st)) + k \<le> nofSockets st"
    "wsa_started st = wsa_cleaned st + (if nofSockets st = 0 then 0 else 1)"
  using assms unfolding objects_inv_def by blast+

lemma holders_Cons [simp]: "holders c (ob # obs) = (if ob_cell ob = c then 1 else 0) + holders c obs"
  by (simp add: holders_def)

lemma holders_0: "holders c obs = 0 \<longleftrightarrow> (\<forall>ob \<in> set obs. ob_cell ob \<noteq> c)"
  by (auto simp: holders_def filter_empty_conv)

lemma remove_object:
  assumes "distinct (map ob_id obs)" and "ob \<in> set obs"
  shows "holders c (filter (\<lambda>o2. ob_id o2 \<noteq> ob_id ob) obs) = holders c obs - (if c = ob_cell ob then 1 else 0)"
    "length (filter (\<lambda>o2. ob_id o2 \<noteq> ob_id ob) obs) + 1 = length obs"
proof -
  obtain xs ys where o: "obs = xs @ ob # ys" using assms(2) by (auto dest: split_list)
  have "ob_id ob \<notin> ob_id ` set xs" "ob_id ob \<notin> ob_id ` set ys" using assms(1) by (simp_all add: o)
  then have "\<forall>o2 \<in> set xs. ob_id o2 \<noteq> ob_id ob" "\<forall>o2 \<in> set ys. ob_id o2 \<noteq> ob_id ob" by (metis image_eqI)+
  then have f: "filter (\<lambda>o2. ob_id o2 \<noteq> ob_id ob) xs = xs" "filter (\<lambda>o2. ob_id o2 \<noteq> ob_id ob) ys = ys"
    by (simp_all add: filter_id_conv)
  show "holders c (filter (\<lambda>o2. ob_id o2 \<noteq> ob_id ob) obs) = holders c obs - (if c = ob_cell ob then 1 else 0)"
    "length (filter (\<lambda>o2. ob_id o2 \<noteq> ob_id ob) obs) + 1 = length obs"
    by (simp_all add: o f holders_def)
qed

lemma find_object: "distinct (map ob_id (objs st)) \<Longrightarrow> ob \<in> set (objs st) \<Longrightarrow> find_object (ob_id ob) st = Some ob"
proof -
  have "distinct (map ob_id obs) \<Longrightarrow> ob \<in> set obs \<Longrightarrow> find (\<lambda>o2. ob_id o2 = ob_id ob) obs = Some ob" for obs
    by (induction obs) force+
  then show "distinct (map ob_id (objs st)) \<Longrightarrow> ob \<in> set (objs st) \<Longrightarrow> find_object (ob_id ob) st = Some ob"
    by (simp add: find_object_def)
qed

lemma find_objectD: "find_object x st = Some ob \<Longrightarrow> ob \<in> set (objs st) \<and> ob_id ob = x"
  by (auto simp: find_object_def find_Some_iff)

text \<open>Each operation keeps the invariants.\<close>

lemma start_inv:
  assumes "objects_inv 0 st" and "Socket_Start wsa_ok st = (Inr u, t)"
  shows "objects_inv 1 t" "objs t = objs st" "open_socks t = open_socks st" "cells t = cells st" "next_cell t = next_cell st"
    "stray t = stray st"
  using assms objects_invD(7)[OF assms(1)] by (auto simp: Socket_Start_def objects_inv_def split: if_splits)

lemma start_error: "Socket_Start wsa_ok st = (Inl e, t) \<Longrightarrow> t = st"
  by (auto simp: Socket_Start_def split: if_splits)

lemma open_inv:
  "objects_inv k st \<Longrightarrow> objects_inv k (st\<lparr>open_socks := s # open_socks st\<rparr>)"
  "sock_exact {} st \<Longrightarrow> sock_exact {s} (st\<lparr>open_socks := s # open_socks st\<rparr>)"
  by (auto simp: objects_inv_def sock_exact_def)

lemma count_inv:
  assumes "objects_inv 1 st" and "new_object x st" and "s \<in> set (open_socks st)" and "s \<notin> ob_handle ` set (objs st)"
  shows "objects_inv 0 (count_object x s st)" "sock_exact {s} st \<Longrightarrow> sock_exact {} (count_object x s st)"
proof -
  note i = objects_invD[OF assms(1)]
  let ?c = "next_cell st" and ?t = "count_object x s st"
  have fresh: "cells st ?c = None" using i(5)[of ?c] by (cases "cells st ?c") auto
  then have h: "ob_cell ob \<noteq> ?c" if "ob \<in> set (objs st)" for ob using i(3)[OF that] by auto
  then have h0: "holders ?c (objs st) = 0" by (simp add: holders_0)
  show "objects_inv 0 ?t"
    unfolding objects_inv_def
  proof (intro conjI)
    show "distinct (map ob_id (objs ?t))" using i(1) assms(2) by (simp add: count_object_def new_object_def)
    show "\<forall>ob \<in> set (objs ?t). ob_handle ob \<in> set (open_socks ?t)" using i(2) assms(3) by (simp add: count_object_def)
    show "\<forall>ob \<in> set (objs ?t). \<exists>n. cells ?t (ob_cell ob) = Some n \<and> int (holders (ob_cell ob) (objs ?t)) \<le> n"
      using i(3) h h0 by (fastforce simp: count_object_def)
    show "\<forall>ob \<in> set (objs ?t). \<forall>ob' \<in> set (objs ?t). ob_cell ob = ob_cell ob' \<longleftrightarrow> ob_handle ob = ob_handle ob'"
      using i(4) h assms(4) by (force simp: count_object_def)
    show "\<forall>c. cells ?t c \<noteq> None \<longrightarrow> c < next_cell ?t" using i(5) by (auto simp: count_object_def less_Suc_eq)
  qed (use i(6-8) in \<open>simp_all add: count_object_def\<close>)
  show "sock_exact {} ?t" if "sock_exact {s} st"
    using that h0 fresh unfolding sock_exact_def by (auto simp: count_object_def)
qed

lemma delete_inv:
  assumes "objects_inv 0 st" and "x \<in> ob_id ` set (objs st)"
  shows "\<exists>t. Socket_delete x st = (Inr (), t) \<and> objects_inv 0 t \<and> (sock_exact {} st \<longrightarrow> sock_exact {} t)"
proof -
  note i = objects_invD[OF assms(1)]
  obtain ob where ob: "ob \<in> set (objs st)" "ob_id ob = x" using assms(2) by blast
  obtain n where n: "cells st (ob_cell ob) = Some n" "int (holders (ob_cell ob) (objs st)) \<le> n" using i(3)[OF ob(1)] by blast
  let ?c = "ob_cell ob" and ?s = "ob_handle ob" and ?obs = "filter (\<lambda>o2. ob_id o2 \<noteq> x) (objs st)"
  note rem = remove_object[OF i(1) ob(1), unfolded ob(2)]
  have "0 < holders ?c (objs st)" using holders_0[of ?c "objs st"] ob(1) by auto
  have sub: "set ?obs \<subseteq> set (objs st)" by auto
  have others: "o2 \<in> set ?obs" if "o2 \<in> set (objs st)" "o2 \<noteq> ob" for o2
    using that i(1) ob by (auto simp: distinct_map inj_on_def)
  define gone where "gone \<longleftrightarrow> n - 1 = 0"
  define st2 where "st2 = (if gone then (closesocket ?s st)\<lparr>cells := (cells st)(?c := None)\<rparr>
    else st\<lparr>cells := (cells st)(?c \<mapsto> n - 1)\<rparr>)\<lparr>objs := ?obs, nofSockets := nofSockets st - 1\<rparr>"
  define t where "t = (if nofSockets st2 = 0 then Socket_End st2 else st2)"
  have run: "Socket_delete x st = (Inr (), t)"
    using find_object[OF i(1) ob(1)] n(1) by (simp add: Socket_delete_def ob(2) t_def st2_def gone_def Let_def)
  have same: "objs t = ?obs" "cells t = (cells st)(?c := if gone then None else Some (n - 1))" "next_cell t = next_cell st"
    "stray t = []" "nofSockets t = nofSockets st - 1" "wsa_started t = wsa_started st"
    "open_socks t = (if gone then removeAll ?s (open_socks st) else open_socks st)"
    using i(2)[OF ob(1)] i(6) by (auto simp: t_def st2_def Socket_End_def closesocket_def)
  have alone: "holders ?c ?obs = 0" if gone using that rem(1)[of ?c] n(2) by (simp add: gone_def)
  have cell: "ob_cell o2 \<noteq> ?c \<and> ob_handle o2 \<noteq> ?s" if gone "o2 \<in> set ?obs" for o2
    using alone that i(4)[OF _ ob(1), of o2] sub by (auto simp: holders_0)
  have wsa: "wsa_started t = wsa_cleaned t + (if nofSockets t = 0 then 0 else 1)"
  proof -
    have "0 < nofSockets st" using i(7) ob(1) length_pos_if_in_set[OF ob(1)] by linarith
    then show ?thesis using i(8) by (auto simp: t_def st2_def Socket_End_def closesocket_def)
  qed
  have "objects_inv 0 t"
    unfolding objects_inv_def same
  proof (intro conjI)
    show "distinct (map ob_id ?obs)" using i(1) by (simp add: distinct_map_filter)
    show "\<forall>o2 \<in> set ?obs. ob_handle o2 \<in> set (if gone then removeAll ?s (open_socks st) else open_socks st)"
      using i(2) sub cell by auto
    show "\<forall>o2 \<in> set ?obs. \<exists>m. ((cells st)(?c := if gone then None else Some (n - 1))) (ob_cell o2) = Some m \<and>
        int (holders (ob_cell o2) ?obs) \<le> m"
    proof
      fix o2 assume o2: "o2 \<in> set ?obs"
      then obtain m where "cells st (ob_cell o2) = Some m" "int (holders (ob_cell o2) (objs st)) \<le> m" using i(3) sub by blast
      then show "\<exists>m. ((cells st)(?c := if gone then None else Some (n - 1))) (ob_cell o2) = Some m \<and>
          int (holders (ob_cell o2) ?obs) \<le> m"
        using cell[OF _ o2] rem(1)[of "ob_cell o2"] n \<open>0 < holders ?c (objs st)\<close>
        by (cases "ob_cell o2 = ?c"; cases gone) auto
    qed
    show "\<forall>o1 \<in> set ?obs. \<forall>o2 \<in> set ?obs. (ob_cell o1 = ob_cell o2) = (ob_handle o1 = ob_handle o2)"
      using i(4) sub by blast
    show "\<forall>c. ((cells st)(?c := if gone then None else Some (n - 1))) c \<noteq> None \<longrightarrow> c < next_cell st"
      using i(5) n(1) by (auto split: if_splits)
    show "int (length ?obs) + 0 \<le> nofSockets st - 1" using i(7) rem(2) by simp
  qed (use wsa same in simp_all)
  moreover have "sock_exact {} t" if e: "sock_exact {} st"
  proof -
    have n': "n = int (holders ?c (objs st))" using e n(1) by (simp add: sock_exact_def)
    have "m = int (holders c ?obs) \<and> 0 < m" if "cells t c = Some m" for c m
      using that e rem(1)[of c] n' \<open>0 < holders ?c (objs st)\<close>
      by (cases "c = ?c") (auto simp: same sock_exact_def gone_def split: if_splits)
    moreover have "set (open_socks t) = ob_handle ` set ?obs"
    proof (cases gone)
      case True
      have "ob_handle ` set (objs st) = insert ?s (ob_handle ` set ?obs)" using ob(1) others sub by blast
      moreover have "?s \<notin> ob_handle ` set ?obs" using cell[OF True] by (metis imageE)
      ultimately show ?thesis using e True by (auto simp: same sock_exact_def)
    next
      case False
      have "holders ?c ?obs \<noteq> 0" using False rem(1)[of ?c] n' \<open>0 < holders ?c (objs st)\<close> by (auto simp: gone_def)
      then obtain o2 where "o2 \<in> set ?obs" "ob_cell o2 = ?c" by (auto simp: holders_0)
      moreover from this have "ob_handle o2 = ?s" using i(4)[OF _ ob(1), of o2] sub by blast
      ultimately have "?s \<in> ob_handle ` set ?obs" by (metis image_eqI)
      then have "ob_handle ` set (objs st) = ob_handle ` set ?obs" using others sub by blast
      then show ?thesis using e False by (simp add: same sock_exact_def)
    qed
    ultimately show ?thesis unfolding sock_exact_def same(1) by simp
  qed
  ultimately show ?thesis using run by blast
qed

text \<open>Sharing: one more object for the counter and the handle of \<open>y\<close>.\<close>

lemma share_runs:
  assumes "objects_inv 0 st" and "y \<in> ob_id ` set (objs st)"
  obtains ob n where "ob \<in> set (objs st)" "ob_id ob = y" "cells st (ob_cell ob) = Some n" "int (holders (ob_cell ob) (objs st)) \<le> n"
    "share_count y st = (Inr ob, st\<lparr>cells := (cells st)(ob_cell ob \<mapsto> n + 1), nofSockets := nofSockets st + 1\<rparr>)"
proof -
  note i = objects_invD[OF assms(1)]
  obtain ob where ob: "ob \<in> set (objs st)" "ob_id ob = y" using assms(2) by blast
  obtain n where n: "cells st (ob_cell ob) = Some n" "int (holders (ob_cell ob) (objs st)) \<le> n" using i(3)[OF ob(1)] by blast
  with find_object[OF i(1) ob(1)] that ob show ?thesis by (simp add: share_count_def)
qed

lemma copy_inv:
  assumes "objects_inv 0 st" and "new_object x st" and "y \<in> ob_id ` set (objs st)"
  shows "\<exists>t. Socket_copy x y st = (Inr (), t) \<and> objects_inv 0 t \<and> (sock_exact {} st \<longrightarrow> sock_exact {} t)"
proof -
  note i = objects_invD[OF assms(1)]
  obtain ob n where ob: "ob \<in> set (objs st)" and n: "cells st (ob_cell ob) = Some n" "int (holders (ob_cell ob) (objs st)) \<le> n"
    and run: "share_count y st = (Inr ob, st\<lparr>cells := (cells st)(ob_cell ob \<mapsto> n + 1), nofSockets := nofSockets st + 1\<rparr>)"
    by (rule share_runs[OF assms(1,3)])
  let ?t = "st\<lparr>cells := (cells st)(ob_cell ob \<mapsto> n + 1), nofSockets := nofSockets st + 1, objs := ob\<lparr>ob_id := x\<rparr> # objs st\<rparr>"
  have "objects_inv 0 ?t"
    unfolding objects_inv_def
  proof (intro conjI)
    show "\<forall>o2 \<in> set (objs ?t). \<exists>m. cells ?t (ob_cell o2) = Some m \<and> int (holders (ob_cell o2) (objs ?t)) \<le> m"
    proof
      fix o2 assume "o2 \<in> set (objs ?t)"
      then have "o2 = ob\<lparr>ob_id := x\<rparr> \<or> o2 \<in> set (objs st)" by simp
      then show "\<exists>m. cells ?t (ob_cell o2) = Some m \<and> int (holders (ob_cell o2) (objs ?t)) \<le> m"
        using n i(3)[of o2] by (cases "ob_cell o2 = ob_cell ob") auto
    qed
    show "\<forall>o1 \<in> set (objs ?t). \<forall>o2 \<in> set (objs ?t). (ob_cell o1 = ob_cell o2) = (ob_handle o1 = ob_handle o2)"
      using i(4) ob by simp
  qed (use i(1,2,5-8) ob assms(2) n in \<open>auto simp: new_object_def\<close>)
  moreover have "sock_exact {} ?t" if e: "sock_exact {} st"
  proof -
    have "n = int (holders (ob_cell ob) (objs st))" "0 < n" using e n(1) by (simp_all add: sock_exact_def)
    then have "m = int (holders c (objs ?t)) \<and> 0 < m" if "cells ?t c = Some m" for c m
      using that e by (cases "c = ob_cell ob") (simp_all add: sock_exact_def)
    moreover have "set (open_socks ?t) = ob_handle ` set (objs ?t)" using e ob by (auto simp: sock_exact_def)
    ultimately show ?thesis unfolding sock_exact_def by simp
  qed
  ultimately show ?thesis using run by (auto simp: Socket_copy_def andThen_def)
qed

lemma assign_inv:
  assumes "objects_inv 0 st" and "x \<in> ob_id ` set (objs st)" and "y \<in> ob_id ` set (objs st)"
  shows "\<exists>t. Socket_assign x y st = (Inr (), t) \<and> objects_inv 0 t"
proof -
  note i = objects_invD[OF assms(1)]
  obtain ob n where ob: "ob \<in> set (objs st)" and n: "cells st (ob_cell ob) = Some n" "int (holders (ob_cell ob) (objs st)) \<le> n"
    and run: "share_count y st = (Inr ob, st\<lparr>cells := (cells st)(ob_cell ob \<mapsto> n + 1), nofSockets := nofSockets st + 1\<rparr>)"
    by (rule share_runs[OF assms(1,3)])
  let ?f = "\<lambda>o2. if ob_id o2 = x then ob\<lparr>ob_id := x\<rparr> else o2"
  let ?t = "st\<lparr>cells := (cells st)(ob_cell ob \<mapsto> n + 1), nofSockets := nofSockets st + 1, objs := map ?f (objs st)\<rparr>"
  have one: "holders c (map ?f obs) \<le> holders c obs + (if c = ob_cell ob then 1 else 0)" if "distinct (map ob_id obs)" for c obs
    using that
  proof (induction obs)
    case (Cons o2 obs)
    have "map ?f obs = obs" if "x \<notin> ob_id ` set obs" using that by (induction obs) auto
    then show ?case using Cons by (cases "ob_id o2 = x") auto
  qed simp
  have "objects_inv 0 ?t"
    unfolding objects_inv_def
  proof (intro conjI)
    have "map ob_id (objs ?t) = map ob_id (objs st)" by simp
    then show "distinct (map ob_id (objs ?t))" using i(1) by metis
    show "\<forall>o2 \<in> set (objs ?t). \<exists>m. cells ?t (ob_cell o2) = Some m \<and> int (holders (ob_cell o2) (objs ?t)) \<le> m"
    proof
      fix o2 assume "o2 \<in> set (objs ?t)"
      then obtain o1 where o1: "o1 \<in> set (objs st)" "ob_cell o2 = ob_cell o1" using ob by (auto split: if_splits)
      then show "\<exists>m. cells ?t (ob_cell o2) = Some m \<and> int (holders (ob_cell o2) (objs ?t)) \<le> m"
        using n i(3)[OF o1(1)] one[OF i(1), of "ob_cell o1"] by (cases "ob_cell o1 = ob_cell ob") force+
    qed
    show "\<forall>o1 \<in> set (objs ?t). \<forall>o2 \<in> set (objs ?t). (ob_cell o1 = ob_cell o2) = (ob_handle o1 = ob_handle o2)"
      using i(4) ob by auto
  qed (use i(2,5-8) ob n in auto)
  then show ?thesis using run by (auto simp: Socket_assign_def andThen_def)
qed

lemma socket_new_inv:
  assumes "objects_inv 0 st" and "new_object x st" and "new_handle s st" and "Socket_new x wsa_ok s st = (r, t)"
  shows "objects_inv 0 t \<and> (sock_exact {} st \<longrightarrow> sock_exact {} t)"
    "r = Inr u \<Longrightarrow> x \<in> ob_id ` set (objs t)"
    "r = Inr u \<Longrightarrow> \<exists>st1. t = count_object x s (st1\<lparr>open_socks := s # open_socks st\<rparr>) \<and> objects_inv 1 st1 \<and>
       objs st1 = objs st \<and> open_socks st1 = open_socks st"
proof -
  have "(objects_inv 0 t \<and> (sock_exact {} st \<longrightarrow> sock_exact {} t)) \<and> (r = Inr u \<longrightarrow> x \<in> ob_id ` set (objs t) \<and>
    (\<exists>st1. t = count_object x s (st1\<lparr>open_socks := s # open_socks st\<rparr>) \<and> objects_inv 1 st1 \<and>
       objs st1 = objs st \<and> open_socks st1 = open_socks st))"
  proof (cases "Socket_Start wsa_ok st")
    case (Pair r1 st1)
    show ?thesis
    proof (cases r1)
      case (Inl e)
      then have "st1 = st" using Pair start_error by simp
      then show ?thesis using assms Pair Inl by (auto simp: Socket_new_def andThen_def)
    next
      case (Inr v)
      note s = start_inv[OF assms(1) Pair[unfolded Inr]]
      have e1: "sock_exact {} st \<Longrightarrow> sock_exact {} st1" using s(2-4) by (simp add: sock_exact_def)
      let ?st2 = "st1\<lparr>open_socks := s # open_socks st1\<rparr>"
      have "objects_inv 0 st1" using s(1) by (auto simp: objects_inv_def)
      moreover have "s \<notin> ob_handle ` set (objs ?st2)"
        using assms(3) objects_invD(2)[OF assms(1)] s(2) by (auto simp: new_handle_def)
      then have "objects_inv 0 (count_object x s ?st2)" "sock_exact {s} ?st2 \<Longrightarrow> sock_exact {} (count_object x s ?st2)"
        using count_inv[OF open_inv(1)[OF s(1)], of x s s] assms(2) s(2) by (simp_all add: new_object_def)
      moreover from this(2) have "sock_exact {} (count_object x s ?st2)" if "sock_exact {} st"
        using open_inv(2)[OF e1[OF that]] by blast
      moreover have "x \<in> ob_id ` set (objs (count_object x s ?st2))" by (simp add: count_object_def)
      ultimately show ?thesis
        using assms(4) Pair Inr e1 s by (auto simp: Socket_new_def andThen_def split: if_splits)
    qed
  qed
  then show "objects_inv 0 t \<and> (sock_exact {} st \<longrightarrow> sock_exact {} t)" "r = Inr u \<Longrightarrow> x \<in> ob_id ` set (objs t)"
    "r = Inr u \<Longrightarrow> \<exists>st1. t = count_object x s (st1\<lparr>open_socks := s # open_socks st\<rparr>) \<and> objects_inv 1 st1 \<and>
       objs st1 = objs st \<and> open_socks st1 = open_socks st" by blast+
qed

lemma client_inv:
  assumes "objects_inv 0 st" and "new_object x st" and "new_handle s st"
    and "SocketClient x wsa_ok s host_error connect_error st = (r, t)"
  shows "objects_inv 0 t \<and> (sock_exact {} st \<longrightarrow> sock_exact {} t)"
proof (cases "Socket_new x wsa_ok s st")
  case (Pair r1 st1)
  note n = socket_new_inv[OF assms(1-3) Pair]
  show ?thesis
  proof (cases r1)
    case (Inl e)
    then show ?thesis using n(1) assms(4) Pair by (auto simp: SocketClient_def andThen_def)
  next
    case (Inr u)
    obtain st2 where "Socket_delete x st1 = (Inr (), st2)" "objects_inv 0 st2 \<and> (sock_exact {} st1 \<longrightarrow> sock_exact {} st2)"
      using delete_inv[of st1 x] n(1) n(2)[OF Inr] by blast
    then show ?thesis
      using n(1) assms(4) Pair Inr by (auto simp: SocketClient_def andThen_def throw_from_def split: option.splits)
  qed
qed

lemma accept_inv:
  assumes "objects_inv 0 st" and "new_object x st" and "new_handle s st" and "srv \<in> ob_id ` set (objs st)"
    and "SocketServer_Accept srv x wsa_ok s would_block st = (r, t)"
  shows "objects_inv 0 t \<and> (sock_exact {} st \<longrightarrow> sock_exact {} t)"
proof (cases "s = INVALID_SOCKET")
  case True
  then show ?thesis using assms(1,5) by (auto simp: SocketServer_Accept_def split: if_splits)
next
  case False
  obtain ob where ob: "ob \<in> set (objs st)" "ob_id ob = srv" using assms(4) by blast
  then have f: "find_object srv st = Some ob" using find_object objects_invD(1)[OF assms(1)] by blast
  let ?st1 = "st\<lparr>open_socks := s # open_socks st\<rparr>"
  have i: "objects_inv 0 ?st1" using open_inv(1)[OF assms(1)] .
  have "nofSockets st \<noteq> 0" using objects_invD(7)[OF assms(1)] length_pos_if_in_set[OF ob(1)] by linarith
  then obtain st2 where st2: "Socket_Start wsa_ok ?st1 = (Inr (), st2)" by (simp add: Socket_Start_def)
  note s = start_inv[OF i st2]
  have "objects_inv 0 (count_object x s st2)" "sock_exact {s} st2 \<Longrightarrow> sock_exact {} (count_object x s st2)"
    using count_inv[OF s(1), of x s] s(2,3) assms(2,3) objects_invD(2)[OF assms(1)]
    by (auto simp: new_object_def new_handle_def)
  moreover have "sock_exact {} st \<Longrightarrow> sock_exact {s} st2"
    using open_inv(2)[of st s] s(2-4) by (simp add: sock_exact_def)
  ultimately show ?thesis
    using assms(5) False f st2 by (auto simp: SocketServer_Accept_def andThen_def Socket_of_def)
qed

lemma server_inv:
  assumes "objects_inv 0 st" and "new_object x st" and "new_handle s st" "new_handle s2 st" "s2 \<noteq> s" "s2 \<noteq> INVALID_SOCKET"
    and "SocketServer x wsa_ok s s2 True st = (r, t)"
  shows "objects_inv 0 t"
proof (cases "Socket_new x wsa_ok s st")
  case (Pair r1 st1)
  note n = socket_new_inv[OF assms(1-3) Pair]
  show ?thesis
  proof (cases r1)
    case (Inl e)
    then show ?thesis using n(1) assms(7) Pair by (auto simp: SocketServer_def andThen_def)
  next
    case (Inr u)
    obtain st0 where st0: "st1 = count_object x s (st0\<lparr>open_socks := s # open_socks st\<rparr>)" "objects_inv 1 st0"
      "objs st0 = objs st" "open_socks st0 = open_socks st"
      using n(3)[OF Inr] by blast
    let ?st2 = "st0\<lparr>open_socks := s2 # s # open_socks st\<rparr>"
    have "map (\<lambda>ob. if ob_id ob = x then ob\<lparr>ob_handle := s2\<rparr> else ob) (objs st) = objs st"
      using assms(2) by (intro map_idI) (auto simp: new_object_def)
    then have "set_handle x s2 (st1\<lparr>open_socks := s2 # open_socks st1\<rparr>) = count_object x s2 ?st2"
      by (simp add: st0 set_handle_def count_object_def)
    then have "t = count_object x s2 ?st2"
      using assms(6,7) Pair Inr by (simp add: SocketServer_def andThen_def Let_def)
    moreover have "objects_inv 1 ?st2"
      using open_inv(1)[OF open_inv(1)[OF st0(2), of s], of s2] st0(4) by simp
    ultimately show ?thesis
      using count_inv(1)[of ?st2 x s2] assms(2,4) st0(3) objects_invD(2)[OF assms(1)]
      by (auto simp: new_object_def new_handle_def)
  qed
qed

lemma step_inv:
  assumes "sock_step plain st t" and "objects_inv 0 st"
  shows "objects_inv 0 t \<and> (plain \<and> sock_exact {} st \<longrightarrow> sock_exact {} t)"
  using assms
proof (induction rule: sock_step.induct)
  case (client x st s wsa_ok host_error connect_error r t plain)
  then show ?case using client_inv[of st x s] by blast
next
  case (accept x st s srv wsa_ok would_block r t plain)
  then show ?case using accept_inv[of st x s srv] by blast
next
  case (copy x st y r t plain)
  then show ?case using copy_inv[of st x y] by auto
next
  case (delete x st r t plain)
  then show ?case using delete_inv[of st x] by auto
next
  case (assign x st y r t)
  then show ?case using assign_inv[of st x y] by auto
next
  case (server x st s s2 wsa_ok r t)
  then show ?case using server_inv[of st x s s2] by blast
qed

lemma reach_inv: "sockets_reach plain st \<Longrightarrow> objects_inv 0 st \<and> (plain \<longrightarrow> sock_exact {} st)"
proof (induction rule: sockets_reach.induct)
  case (start plain)
  show ?case by (simp add: no_sockets_def objects_inv_def sock_exact_def)
next
  case (step plain st t)
  then show ?case using step_inv by blast
qed

subsection \<open>Properties\<close>


text \<open>A client is constructed, copied, and the first of the two objects destroyed.\<close>

definition shared_client :: sock_sys where
  "shared_client = snd (Socket_delete 1 (snd (Socket_copy 2 1 (snd (SocketClient 1 True 7 None None no_sockets)))))"

lemma shared_client_reach: "sockets_reach plain shared_client"
proof -
  let ?s1 = "snd (SocketClient 1 True 7 None None no_sockets)"
  let ?s2 = "snd (Socket_copy 2 1 ?s1)"
  have o1: "objs ?s1 = [\<lparr>ob_id = 1, ob_handle = 7, ob_cell = 0\<rparr>]" and o2: "ob_id ` set (objs ?s2) = {1, 2}"
    by (simp_all add: SocketClient_def Socket_new_def andThen_def Socket_Start_def no_sockets_def INVALID_SOCKET_def
        count_object_def Socket_copy_def share_count_def find_object_def insert_commute)
  have "sockets_reach plain ?s1"
    by (rule sockets_reach.step[OF sockets_reach.start sock_step.client[OF _ _ surjective_pairing]])
      (simp_all add: new_object_def new_handle_def no_sockets_def)
  then have "sockets_reach plain ?s2"
    by (rule sockets_reach.step[OF _ sock_step.copy[OF _ _ surjective_pairing]]) (simp_all add: new_object_def o1[simplified])
  then have "sockets_reach plain (snd (Socket_delete 1 ?s2))"
    by (rule sockets_reach.step[OF _ sock_step.delete[OF _ surjective_pairing]]) (simp add: o2[simplified])
  then show ?thesis by (simp only: shared_client_def)
qed

lemma shared_client_objs: "objs shared_client = [\<lparr>ob_id = 2, ob_handle = 7, ob_cell = 0\<rparr>]"
  by (simp add: shared_client_def Socket_delete_def SocketClient_def Socket_new_def andThen_def Socket_Start_def no_sockets_def
      INVALID_SOCKET_def count_object_def Socket_copy_def share_count_def find_object_def Let_def)




text \<open>
  A server that cannot bind closes a handle twice and leaks another. Whenever Winsock can be started and
  two handles are created, a failing \<open>bind\<close> makes \<open>SocketServer\<close> throw after closing the second handle, and
  the destruction of the base object closes it again; the first handle, which the base object had
  created, stays open without an owner.
\<close>

theorem failing_server_closes_twice:
  assumes "new_object x st" and "cells st (next_cell st) = None" and "wsa_ok \<or> nofSockets st \<noteq> 0"
    and "s \<noteq> INVALID_SOCKET" "s2 \<noteq> INVALID_SOCKET" "new_handle s st" "new_handle s2 st" "s2 \<noteq> s"
  shows "\<exists>t. SocketServer x wsa_ok s s2 False st = (Inl (Throws (Exn_CString ''INVALID_SOCKET'')), t) \<and>
    stray t = stray st @ [s2] \<and> set (open_socks t) = insert s (set (open_socks st)) \<and> objs t = objs st"
proof -
  have o: "map (\<lambda>ob. if ob_id ob = x then ob\<lparr>ob_handle := s2\<rparr> else ob) (objs st) = objs st"
    "filter (\<lambda>ob. ob_id ob \<noteq> x) (objs st) = objs st"
    using assms(1) by (auto simp: new_object_def filter_id_conv intro!: map_idI)
  obtain st1 where st1: "Socket_Start wsa_ok st = (Inr (), st1)" "objs st1 = objs st" "open_socks st1 = open_socks st"
    "stray st1 = stray st" "next_cell st1 = next_cell st"
    using assms(3) by (auto simp: Socket_Start_def)
  let ?ob = "\<lparr>ob_id = x, ob_handle = s2, ob_cell = next_cell st\<rparr>"
  let ?st2 = "st1\<lparr>cells := (cells st1)(next_cell st \<mapsto> 1), next_cell := next_cell st + 1, objs := ?ob # objs st,
    open_socks := s # open_socks st\<rparr>"
  have "SocketServer x wsa_ok s s2 False st = throw_from x (Exn_CString ''INVALID_SOCKET'') ?st2"
    using assms(4,5,6,7,8) st1
    by (simp add: SocketServer_def Socket_new_def andThen_def count_object_def set_handle_def o closesocket_def Let_def new_handle_def)
  moreover have "find_object x ?st2 = Some ?ob" by (simp add: find_object_def)
  then have "\<exists>t. Socket_delete x ?st2 = (Inr (), t) \<and> stray t = stray st @ [s2] \<and>
      set (open_socks t) = insert s (set (open_socks st)) \<and> objs t = objs st"
    using assms(7,8) st1 by (simp add: Socket_delete_def Let_def closesocket_def new_handle_def Socket_End_def o)
  ultimately show ?thesis by (auto simp: throw_from_def andThen_def)
qed

theorem failing_server_closes_twice_witness:
  "\<exists>t. SocketServer 1 True 5 6 False no_sockets = (Inl (Throws (Exn_CString ''INVALID_SOCKET'')), t) \<and>
    stray t = [6] \<and> set (open_socks t) = {5} \<and> objs t = []"
  using failing_server_closes_twice[of 1 no_sockets True 5 6]
  by (simp add: no_sockets_def new_object_def new_handle_def INVALID_SOCKET_def)

text \<open>A handle that is open without an owner stays so.\<close>

definition orphan :: "sock \<Rightarrow> sock_sys \<Rightarrow> bool" where
  "orphan s st \<longleftrightarrow> s \<in> set (open_socks st) \<and> s \<notin> ob_handle ` set (objs st)"

lemma orphan_closesocket: "s \<noteq> s' \<Longrightarrow> s \<in> set (open_socks (closesocket s' st)) \<longleftrightarrow> s \<in> set (open_socks st)"
  by (simp add: closesocket_def)

lemma orphan_delete:
  assumes "orphan s st"
  shows "orphan s (snd (Socket_delete x st))"
proof -
  have "s \<noteq> ob_handle ob" if "find_object x st = Some ob" for ob
    using find_objectD[OF that] assms by (auto simp: orphan_def)
  then show ?thesis
    using assms by (auto simp: Socket_delete_def orphan_def Socket_End_def Let_def orphan_closesocket split: option.split)
qed

lemma orphan_start: "orphan s st \<Longrightarrow> orphan s (snd (Socket_Start wsa_ok st))"
  by (simp add: Socket_Start_def orphan_def)

lemma orphan_count: "orphan s st \<Longrightarrow> s' \<noteq> s \<Longrightarrow> orphan s (count_object x s' st)"
  by (auto simp: count_object_def orphan_def)

lemma orphan_open: "orphan s st \<Longrightarrow> orphan s (st\<lparr>open_socks := s' # open_socks st\<rparr>)"
  by (simp add: orphan_def)

lemma orphan_new:
  assumes "orphan s st" and "new_handle s' st"
  shows "orphan s (snd (Socket_new x wsa_ok s' st))"
proof -
  have "s' \<noteq> s" using assms by (auto simp: orphan_def new_handle_def)
  then show ?thesis
    using orphan_start[OF assms(1), of wsa_ok] orphan_count orphan_open
    by (cases "Socket_Start wsa_ok st") (auto simp: Socket_new_def andThen_def split: sum.split)
qed

lemma orphan_client:
  assumes "orphan s st" and "new_handle s' st"
  shows "orphan s (snd (SocketClient x wsa_ok s' host_error connect_error st))"
proof (cases "Socket_new x wsa_ok s' st")
  case (Pair r st1)
  then have "orphan s st1" using orphan_new[OF assms, of x wsa_ok] by simp
  then show ?thesis
    using Pair orphan_delete[of s st1 x]
    by (cases "Socket_delete x st1") (auto simp: SocketClient_def andThen_def throw_from_def split: sum.split option.split)
qed

lemma orphan_share:
  assumes "orphan s st" and "share_count y st = (r, st1)"
  shows "orphan s st1" "r = Inr ob \<Longrightarrow> ob_handle ob \<noteq> s"
  using assms by (auto simp: share_count_def orphan_def split: option.splits dest!: find_objectD)

lemma orphan_step:
  assumes "sock_step plain st t" and "orphan s st"
  shows "orphan s t"
  using assms
proof (induction rule: sock_step.induct)
  case (client x st s' wsa_ok host_error connect_error r t plain)
  then show ?case using orphan_client[of s st s' x wsa_ok host_error connect_error] by simp
next
  case (accept x st s' srv wsa_ok would_block r t plain)
  have "s' \<noteq> s" using accept(2,5) by (auto simp: orphan_def new_handle_def)
  let ?st1 = "st\<lparr>open_socks := s' # open_socks st\<rparr>"
  have "orphan s ?st1" using orphan_open accept(5) .
  then have "orphan s (snd (Socket_Start wsa_ok ?st1))" by (rule orphan_start)
  then show ?case
    using accept(4,5) orphan_count[OF _ \<open>s' \<noteq> s\<close>]
    by (cases "Socket_Start wsa_ok ?st1") (auto simp: SocketServer_Accept_def Socket_of_def andThen_def split: if_splits sum.splits)
next
  case (copy x st y r t plain)
  obtain r1 st1 where s: "share_count y st = (r1, st1)" by (cases "share_count y st")
  note o = orphan_share[OF copy(4) s]
  show ?case using o(1) o(2) s copy(3) by (auto simp: Socket_copy_def andThen_def orphan_def split: sum.splits)
next
  case (delete x st r t plain)
  then show ?case using orphan_delete[of s st x] by simp
next
  case (assign x st y r t)
  obtain r1 st1 where s: "share_count y st = (r1, st1)" by (cases "share_count y st")
  note o = orphan_share[OF assign(4) s]
  show ?case using o(1) o(2) s assign(3) by (auto simp: Socket_assign_def andThen_def orphan_def split: sum.splits)
next
  case (server x st s1 s2 wsa_ok r t)
  have ne: "s2 \<noteq> s" using server(3,7) by (auto simp: orphan_def new_handle_def)
  obtain r1 st1 where s: "Socket_new x wsa_ok s1 st = (r1, st1)" by (cases "Socket_new x wsa_ok s1 st")
  then have "orphan s st1" using orphan_new[OF server(7,2), of x wsa_ok] by simp
  then show ?case
    using s server(5,6) ne by (auto simp: SocketServer_def andThen_def orphan_def set_handle_def Let_def split: sum.splits)
qed

text \<open>
  An assignment forgets the handle it overwrites. When \<open>x\<close> has no copies and \<open>y\<close> another handle, \<open>x = y\<close>
  leaves the former handle of \<open>x\<close> open without an owner, and no sequence of operations after it closes
  the handle.
\<close>

theorem assignment_leaks_handle:
  assumes "sockets_reach False st" and "find_object x st = Some ob" and "find_object y st = Some ob2"
    and "ob_handle ob2 \<noteq> ob_handle ob" and "holders (ob_cell ob) (objs st) = 1"
  shows "\<exists>t. Socket_assign x y st = (Inr (), t) \<and> orphan (ob_handle ob) t \<and>
    ((sock_step False)\<^sup>*\<^sup>* t u \<longrightarrow> orphan (ob_handle ob) u)"
proof -
  have i: "objects_inv 0 st" using reach_inv[OF assms(1)] by simp
  note o = find_objectD[OF assms(2)] find_objectD[OF assms(3)]
  have only: "o2 = ob" if "o2 \<in> set (objs st)" "ob_handle o2 = ob_handle ob" for o2
  proof (rule ccontr)
    assume "o2 \<noteq> ob"
    then have "ob_id o2 \<noteq> x" using that(1) o(1) objects_invD(1)[OF i] by (auto simp: distinct_map inj_on_def)
    then have "o2 \<in> set (filter (\<lambda>o3. ob_id o3 \<noteq> ob_id ob) (objs st))" using that(1) o(1) by simp
    moreover have "holders (ob_cell ob) (filter (\<lambda>o3. ob_id o3 \<noteq> ob_id ob) (objs st)) = 0"
      using remove_object(1)[OF objects_invD(1)[OF i], of ob "ob_cell ob"] o(1) assms(5) by simp
    ultimately show False using objects_invD(4)[OF i that(1), of ob] o(1) that(2) by (simp add: holders_0)
  qed
  obtain t where t: "Socket_assign x y st = (Inr (), t)" using assign_inv[OF i, of x y] o by blast
  obtain n where n: "cells st (ob_cell ob2) = Some n" using objects_invD(3)[OF i, of ob2] o(2) by blast
  have "objs t = map (\<lambda>o2. if ob_id o2 = x then ob2\<lparr>ob_id := x\<rparr> else o2) (objs st)" "open_socks t = open_socks st"
    using t n assms(3) by (auto simp: Socket_assign_def andThen_def share_count_def)
  then have eq: "objs t = map (\<lambda>o2. if ob_id o2 = x then ob2\<lparr>ob_id := x\<rparr> else o2) (objs st)" "open_socks t = open_socks st" .
  have "ob_handle o3 \<noteq> ob_handle ob" if mem: "o3 \<in> set (objs t)" for o3
  proof
    assume h: "ob_handle o3 = ob_handle ob"
    obtain o2 where o2: "o2 \<in> set (objs st)" "o3 = (if ob_id o2 = x then ob2\<lparr>ob_id := x\<rparr> else o2)"
      using mem unfolding eq(1) by auto
    show False
    proof (cases "ob_id o2 = x")
      case True
      then show False using o2(2) h assms(4) by simp
    next
      case False
      then show False using o2 h only[OF o2(1)] o(1) by simp
    qed
  qed
  moreover have "ob_handle ob \<in> set (open_socks t)" unfolding eq(2) using objects_invD(2)[OF i] o(1) by blast
  ultimately have orph: "orphan (ob_handle ob) t" unfolding orphan_def by (metis imageE)
  have "orphan (ob_handle ob) u" if "(sock_step False)\<^sup>*\<^sup>* t u"
    using that orph by (induction rule: rtranclp_induct) (auto intro: orphan_step)
  then show ?thesis using t orph by blast
qed

definition two_clients :: sock_sys where
  "two_clients = snd (SocketClient 2 True 8 None None (snd (SocketClient 1 True 7 None None no_sockets)))"

lemma two_clients_objs: "objs two_clients = [\<lparr>ob_id = 2, ob_handle = 8, ob_cell = 1\<rparr>, \<lparr>ob_id = 1, ob_handle = 7, ob_cell = 0\<rparr>]"
  by (simp add: two_clients_def SocketClient_def Socket_new_def andThen_def Socket_Start_def no_sockets_def
      INVALID_SOCKET_def count_object_def)

lemma two_clients_reach: "sockets_reach plain two_clients"
proof -
  let ?s1 = "snd (SocketClient 1 True 7 None None no_sockets)"
  have o: "objs ?s1 = [\<lparr>ob_id = 1, ob_handle = 7, ob_cell = 0\<rparr>]" "open_socks ?s1 = [7]"
    by (simp_all add: SocketClient_def Socket_new_def andThen_def Socket_Start_def no_sockets_def INVALID_SOCKET_def count_object_def)
  have "sockets_reach plain ?s1"
    by (rule sockets_reach.step[OF sockets_reach.start sock_step.client[OF _ _ surjective_pairing]])
      (simp_all add: new_object_def new_handle_def no_sockets_def)
  then show ?thesis
    unfolding two_clients_def
    by (rule sockets_reach.step[OF _ sock_step.client[OF _ _ surjective_pairing]])
      (simp_all add: new_object_def new_handle_def o[simplified])
qed

theorem assignment_leaks_handle_witness:
  "\<exists>t. Socket_assign 1 2 two_clients = (Inr (), t) \<and> orphan 7 t"
proof -
  have f: "find_object 1 two_clients = Some \<lparr>ob_id = 1, ob_handle = 7, ob_cell = 0\<rparr>"
    "find_object 2 two_clients = Some \<lparr>ob_id = 2, ob_handle = 8, ob_cell = 1\<rparr>"
    by (simp_all add: find_object_def two_clients_objs)
  have ne: "(8 :: sock) \<noteq> 7" by simp
  have h: "holders 0 (objs two_clients) = 1" by (simp add: holders_def two_clients_objs)
  note leak = assignment_leaks_handle[OF two_clients_reach f, unfolded sock_obj.select_convs, OF ne h]
  show ?thesis using leak[of no_sockets] by (elim exE conjE) (intro exI conjI)
qed

subsection \<open>The abstract sockets of the library\<close>

text \<open>
  The state \<open>app\<close> of the library only lists the sockets that exist, and its operations \<open>new_SocketClient\<close>
  and \<open>delete_Socket\<close> stand for the constructor and the destructor. A connection outcome is related to
  what the operating system answers to each call the constructor makes.
\<close>

definition conn_answers :: "conn_event \<Rightarrow> bool \<Rightarrow> sock \<Rightarrow> string option \<Rightarrow> string option \<Rightarrow> sock_sys \<Rightarrow> bool" where
  "conn_answers c wsa_ok sock host_error connect_error st =
     (case c of
        ConnOk \<Rightarrow> (wsa_ok \<or> nofSockets st \<noteq> 0) \<and> sock \<noteq> INVALID_SOCKET \<and> host_error = None \<and> connect_error = None
      | ConnNoSocket msg \<Rightarrow>
          (if \<not> wsa_ok \<and> nofSockets st = 0 then msg = ''Could not start WSA''
           else sock = INVALID_SOCKET \<and> msg = ''INVALID_SOCKET'')
      | ConnFailed e \<Rightarrow> (wsa_ok \<or> nofSockets st \<noteq> 0) \<and> sock \<noteq> INVALID_SOCKET \<and>
          (host_error = Some e \<or> host_error = None \<and> connect_error = Some e))"

definition same_sockets :: "app \<Rightarrow> sock_sys \<Rightarrow> bool" where
  "same_sockets a st \<longleftrightarrow> w_live a = map ob_id (objs st) \<and> (\<forall>x \<in> set (w_live a). x < w_nextsock a)"

lemma delete_objects:
  assumes "objects_inv 0 st" and "x \<in> ob_id ` set (objs st)"
  shows "\<exists>t. Socket_delete x st = (Inr (), t) \<and> objects_inv 0 t \<and> map ob_id (objs t) = removeAll x (map ob_id (objs st))"
proof -
  obtain t where t: "Socket_delete x st = (Inr (), t)" "objects_inv 0 t" using delete_inv[OF assms] by blast
  then have "objs t = filter (\<lambda>ob. ob_id ob \<noteq> x) (objs st)"
    by (auto simp: Socket_delete_def Let_def Socket_End_def split: option.splits if_splits)
  then show ?thesis using t by (auto simp: removeAll_filter_not_eq filter_map o_def eq_commute[of x])
qed

lemma client_objects:
  assumes "objects_inv 0 st" and "new_object x st" and "new_handle s st" and "conn_answers c wsa_ok s host_error connect_error st"
  shows "\<exists>t. SocketClient x wsa_ok s host_error connect_error st =
      ((case c of ConnOk \<Rightarrow> Inr () | ConnNoSocket msg \<Rightarrow> Inl (Throws (Exn_CString msg)) | ConnFailed e \<Rightarrow> Inl (Throws (Exn_String e))), t) \<and>
    map ob_id (objs t) = (if c = ConnOk then x # map ob_id (objs st) else map ob_id (objs st))"
proof (cases c)
  case (ConnNoSocket msg)
  then show ?thesis
    using assms(4) by (auto simp: conn_answers_def SocketClient_def Socket_new_def andThen_def Socket_Start_def split: if_splits)
next
  case (ConnFailed e)
  have ok: "wsa_ok \<or> nofSockets st \<noteq> 0" "s \<noteq> INVALID_SOCKET" using assms(4) ConnFailed by (simp_all add: conn_answers_def)
  then obtain st1 where st1: "Socket_new x wsa_ok s st = (Inr (), st1)" "map ob_id (objs st1) = x # map ob_id (objs st)"
    by (auto simp: Socket_new_def andThen_def Socket_Start_def count_object_def)
  have "objects_inv 0 st1" "x \<in> ob_id ` set (objs st1)" using socket_new_inv(1,2)[OF assms(1-3) st1(1)] by simp_all
  then obtain t where t: "Socket_delete x st1 = (Inr (), t)" "map ob_id (objs t) = removeAll x (map ob_id (objs st1))"
    using delete_objects by blast
  moreover have "removeAll x (map ob_id (objs st)) = map ob_id (objs st)" using assms(2) by (simp add: new_object_def)
  ultimately show ?thesis
    using assms(4) ConnFailed st1 by (auto simp: conn_answers_def SocketClient_def andThen_def throw_from_def)
next
  case ConnOk
  then show ?thesis
    using assms(4) by (auto simp: conn_answers_def SocketClient_def Socket_new_def andThen_def Socket_Start_def count_object_def)
qed

text \<open>
  C13: The socket objects implement the abstract sockets of the library. In states with the same sockets,
  constructing a \<open>SocketClient\<close> under the name the library gives it returns or throws what
  \<open>new_SocketClient\<close> does for the corresponding outcome, and destroying an object succeeds exactly when
  \<open>delete_Socket\<close> does; the states reached have the same sockets again.
\<close>

theorem socket_objects_refine_library:
  assumes "sockets_reach plain st" and "same_sockets a st"
    and "w_conns a = c # cs" and "new_handle s st" and "conn_answers c wsa_ok s host_error connect_error st"
  shows "(\<exists>t. SocketClient (w_nextsock a) wsa_ok s host_error connect_error st =
        (map_sum id (\<lambda>_. ()) (fst (new_SocketClient host port a)), t) \<and> same_sockets (snd (new_SocketClient host port a)) t) \<and>
    (\<exists>r t. Socket_delete x st = (r, t) \<and> (r = Inr () \<longleftrightarrow> fst (delete_Socket x a) = Inr ()) \<and>
      same_sockets (snd (delete_Socket x a)) t)"
proof
  have i: "objects_inv 0 st" using reach_inv[OF assms(1)] by simp
  have live: "set (w_live a) = ob_id ` set (objs st)" using assms(2) by (simp add: same_sockets_def)
  then have "new_object (w_nextsock a) st" using assms(2) by (auto simp: same_sockets_def new_object_def)
  then show "\<exists>t. SocketClient (w_nextsock a) wsa_ok s host_error connect_error st =
      (map_sum id (\<lambda>_. ()) (fst (new_SocketClient host port a)), t) \<and> same_sockets (snd (new_SocketClient host port a)) t"
    using client_objects[OF i _ assms(4,5)] assms(2,3)
    by (cases c) (fastforce simp: new_SocketClient_def same_sockets_def Let_def less_Suc_eq)+
  show "\<exists>r t. Socket_delete x st = (r, t) \<and> (r = Inr () \<longleftrightarrow> fst (delete_Socket x a) = Inr ()) \<and>
      same_sockets (snd (delete_Socket x a)) t"
  proof (cases "x \<in> set (w_live a)")
    case True
    then show ?thesis using delete_objects[OF i, of x] live assms(2) by (auto simp: delete_Socket_def same_sockets_def)
  next
    case False
    then have "find_object x st = None" using live by (auto simp: find_object_def find_None_iff)
    then show ?thesis using False assms(2) by (simp add: Socket_delete_def delete_Socket_def)
  qed
qed

definition dialing_app :: app where
  "dialing_app = app_init False quiet_env [ConnFailed ''refused''] []"

theorem socket_objects_refine_library_witness:
  "\<exists>t. SocketClient 0 True 7 None (Some ''refused'') no_sockets = (Inl (Throws (Exn_String ''refused'')), t) \<and>
     objs t = [] \<and> fst (Socket_delete 3 t) \<noteq> Inr ()"
proof -
  have s: "same_sockets dialing_app no_sockets" and w: "w_conns dialing_app = [ConnFailed ''refused'']"
    and c: "new_handle 7 no_sockets" "conn_answers (ConnFailed ''refused'') True 7 None (Some ''refused'') no_sockets"
    by (simp_all add: same_sockets_def dialing_app_def app_init_def no_sockets_def new_handle_def conn_answers_def INVALID_SOCKET_def)
  have n: "w_nextsock dialing_app = 0" "fst (new_SocketClient h p dialing_app) = Inl (Throws (Exn_String ''refused''))"
    "w_live (snd (new_SocketClient h p dialing_app)) = []" for h p
    by (simp_all add: new_SocketClient_def dialing_app_def app_init_def Let_def)
  note r = socket_objects_refine_library[OF sockets_reach.start s w c]
  obtain t where t: "SocketClient 0 True 7 None (Some ''refused'') no_sockets = (Inl (Throws (Exn_String ''refused'')), t)" "objs t = []"
    using r[of "''localhost''" 80, THEN conjunct1] n by (auto simp: same_sockets_def)
  then show ?thesis by (auto simp: Socket_delete_def find_object_def)
qed

subsection \<open>Waiting for data\<close>

text \<open>
  \<open>select\<close> and \<open>recv\<close> are the operating system's; \<open>os_select\<close> is given the handles to watch and the time
  limit. \<open>recvtimeout\<close> returns -2 when the time is over, -1 for an error of \<open>select\<close>.
\<close>

definition recvtimeout :: "(sock list \<Rightarrow> int \<Rightarrow> int) \<Rightarrow> (sock \<Rightarrow> int \<Rightarrow> int) \<Rightarrow> sock \<Rightarrow> int \<Rightarrow> int \<Rightarrow> int" where
  "recvtimeout os_select os_recv s len timeout =
     (let n = os_select [s] timeout in if n = 0 then -2 else if n = -1 then -1 else os_recv s len)"

text \<open>
  \<open>SocketSelect\<close> collects the handles of one or two sockets and waits, for a microsecond or without limit
  (\<open>None\<close>). The answer is the set of handles that are ready, \<open>None\<close> for an error.
\<close>

datatype TypeSocket = BlockingSocket | NonBlockingSocket

definition FD_SET :: "sock \<Rightarrow> sock list \<Rightarrow> sock list" where
  "FD_SET s fds = (if s \<in> set fds then fds else fds @ [s])"

definition handle_of :: "nat \<Rightarrow> sock sock_act" where
  "handle_of x st = (case find_object x st of None \<Rightarrow> (Inl Use_After_Free, st) | Some ob \<Rightarrow> (Inr (ob_handle ob), st))"

definition SocketSelect ::
    "(sock list \<Rightarrow> (int \<times> int) option \<Rightarrow> sock list option) \<Rightarrow> nat \<Rightarrow> nat option \<Rightarrow> TypeSocket \<Rightarrow> sock list sock_act" where
  "SocketSelect os_select s1 s2 type =
     andThen (handle_of s1) (\<lambda>h1.
     andThen (case s2 of None \<Rightarrow> (\<lambda>st. (Inr (FD_SET h1 []), st))
              | Some y \<Rightarrow> andThen (handle_of y) (\<lambda>h2 st. (Inr (FD_SET h2 (FD_SET h1 [])), st))) (\<lambda>fds st.
     case os_select fds (if type = NonBlockingSocket then Some (0, 1) else None) of
       None \<Rightarrow> (Inl (Throws (Exn_CString ''Error in select'')), st)
     | Some ready \<Rightarrow> (Inr ready, st)))"

definition SocketSelect_Readable :: "sock list \<Rightarrow> nat \<Rightarrow> bool sock_act" where
  "SocketSelect_Readable fds s = andThen (handle_of s) (\<lambda>h st. (Inr (h \<in> set fds), st))"

text \<open>Watching one or two existing sockets asks for exactly their handles and changes nothing.\<close>

lemma select_watches:
  assumes "find_object x st = Some ob" and "find_object y st = Some ob2"
  shows "SocketSelect (\<lambda>fds _. Some fds) x None type st = (Inr [ob_handle ob], st)"
    "\<exists>fds. SocketSelect (\<lambda>fds _. Some fds) x (Some y) type st = (Inr fds, st) \<and> distinct fds \<and> set fds = {ob_handle ob, ob_handle ob2}"
  using assms by (auto simp: SocketSelect_def handle_of_def andThen_def FD_SET_def)

subsection \<open>Unbuffered bytes\<close>

text \<open>
  \<open>ReceiveBytes\<close>: as long as \<open>FIONREAD\<close> reports waiting bytes (the first component, \<open>None\<close> when the call
  fails), at most 1024 of them are received (the second component, \<open>None\<close> for an error or the end of the
  connection). When the list of answers ends nothing is waiting.
\<close>

fun receive_bytes :: "(nat option \<times> string option) list \<Rightarrow> string \<Rightarrow> string res" where
  "receive_bytes [] ret = Inr ret"
| "receive_bytes ((avail, got) # es) ret =
     (case avail of
        None \<Rightarrow> Inr ret
      | Some 0 \<Rightarrow> Inr ret
      | Some arg \<Rightarrow>
          (case got of
             None \<Rightarrow> Inr ret
           | Some t \<Rightarrow> if t = [] then Inr ret
               else if length t \<le> min arg 1024 then receive_bytes es (ret @ t) else Inl Out_Of_Bounds))"

definition SendBytes :: "sockid \<Rightarrow> string \<Rightarrow> unit act" where
  "SendBytes p l = bindA (deref_Socket p) (\<lambda>_. modA (\<lambda>s. s\<lparr>w_tx := w_tx s @ [l]\<rparr>))"

text \<open>A network that has all of \<open>q\<close> waiting and delivers whatever is asked for.\<close>

function waiting :: "string \<Rightarrow> (nat option \<times> string option) list" where
  "waiting q = (if q = [] then [(Some 0, None)]
     else (Some (length q), Some (take (min (length q) 1024) q)) # waiting (drop 1024 q))"
  by pat_completeness auto
termination by (relation "measure length") auto

declare waiting.simps [simp del]

lemma receive_bytes_all: "receive_bytes (waiting q) ret = Inr (ret @ q)"
proof (induction q arbitrary: ret rule: waiting.induct)
  case (1 q)
  show ?case
  proof (cases "q = []")
    case True
    then show ?thesis by (simp add: waiting.simps)
  next
    case False
    then show ?thesis using 1[OF False] by (subst waiting.simps) (auto simp: min_def split: nat.split)
  qed
qed

end
