(* ===== verification/Spec2Isabelle.thy ===== *)
theory Spec2Isabelle
  imports Base64_Codec Sep_Array Library_Machine Proxy_Start Linux_Start Rule_Loader_Unicode Ini_Access Ini_Shape
    Status_Text Measure_Files Socket_Objects
begin

text \<open>
  APDUPlay is a replacement for the Windows library \<open>winscard.dll\<close>. An application calls it as the
  smart card interface; it logs every call, forwards it to the original library (renamed to
  \<open>original64.dll\<close>), can rewrite the exchanged APDUs by rules of a configuration file, add virtual
  readers to the list of readers, and redirect the cards in them to a proxy behind a socket. This
  development models the program as it is built for 64-bit Windows without \<open>UNICODE\<close>, file by file.

  \<^bold>\<open>The parts and how they interact.\<close> At its start (\<open>InitInstance\<close>) the library reads the environment,
  loads the rules file through the ini parser, connects to the proxy when redirection is on, and
  resolves the procedures of the original library. An application then establishes a context,
  lists the readers (the real ones from the original library, the virtual ones from the
  configuration and from the proxy), connects to one (the handle of a virtual reader is remembered
  as remote) and transmits APDUs. Each transmission is logged, kept in a history, rewritten by the
  rules, sent either to the original library or to the proxy, perhaps completed by \<open>GET DATA\<close>
  commands, and its answer is rewritten and returned. All other calls are forwarded, except that a
  remote card's handle is never passed to the original library.

  \<^bold>\<open>Theories.\<close> In the order of their dependencies:
  \<^item> \<open>Prelude\<close>: machine types, the faults a C++ run can end in, computations that may fault
    (\<open>'a res\<close>), the locales \<open>codec\<close> and \<open>inv_machine\<close>, the lemma collections.
  \<^item> \<open>Cxx_Library\<close>: what the source uses of the C and C++ standard library (string searching and
    erasing, \<open>strtol\<close> on a 32-bit \<open>long\<close>, \<open>printf\<close> conversions), and \<open>compareWithNoCase\<close>.
  \<^item> \<open>Hex_Codec\<close>, \<open>Base64_Codec\<close>, \<open>Sep_Array\<close>: the conversions of \<open>CommonFnc.cpp\<close>; each is an
    interpretation of \<open>codec\<close> or has its round trip as a property.
  \<^item> \<open>Ini_Dict\<close>, \<open>Ini_Parser\<close>, \<open>Ini_Files\<close>: \<open>iniparser_all.h\<close>. The hash table with its probing and
    growth is a \<open>map_store\<close> (a locale, interpreted on the table's operations); lines are classified by
    the \<open>sscanf\<close> patterns; a printed file is read back as the map it denotes. \<open>Ini_Access\<close>: the getters,
    the enumeration of keys and the dumps. \<open>Ini_Shape\<close>: what every loaded dictionary looks like.
  \<^item> \<open>App_State\<close>: the record \<open>app\<close> of the members of \<open>CWinscardApp\<close>, of the global variables and of the
    environment; the actions (\<open>'a act\<close>: state passing with faults, with \<open>tryA\<close> for \<open>try\<close>/\<open>catch\<close>);
    logging.
  \<^item> \<open>Apdu_Rules\<close>: \<open>ApplyRules\<close> and its declarative counterpart, the patches of all matching rules.
  \<^item> \<open>Sockets\<close>, \<open>Remote_Proto\<close>: \<open>socket.cpp\<close> and the \<open>Remote_\<close> functions: one request and its response,
    listing, connecting and transmitting. \<open>Socket_Objects\<close>: the objects behind the library's sockets, with
    handles, shared counters and the operating system's answers, related to \<open>Sockets\<close> by a refinement.
  \<^item> \<open>Measure_Files\<close>: the file functions for measured data. \<open>Status_Text\<close>: \<open>status.H\<close> and \<open>status.cpp\<close>.
  \<^item> \<open>Rule_Loader\<close>: \<open>LoadRule\<close> and \<open>LoadRules\<close>, from the values of a section to the configuration and
    the list of rules. \<open>Rules_File\<close>: the composition with the ini parser, from the text of a rules file
    to the list of rules. \<open>Config_File\<close>: a complete file with settings and rules, against the meaning of its
    single settings. \<open>Rule_Loader_Unicode\<close>: the same two functions in their \<open>UNICODE\<close> variant.
  \<^item> \<open>Forwarders\<close>, \<open>Card_Handles\<close>, \<open>Reader_Lists\<close>, \<open>Transmit\<close>: the exported functions. \<open>Remote_Session\<close>: connecting
    to a remote card and transmitting a sequence of commands. \<open>Library_Machine\<close>: the exported functions as steps of
    one state machine, with the locale \<open>library_inv\<close> of what a property must survive to survive every call
    (\<open>transmit_inv\<close> is its part for \<open>SCardTransmit\<close>), interpreted on three invariants.
  \<^item> \<open>Lib_Loader\<close>: \<open>initialize\<close> and \<open>InitInstance\<close>; \<open>Linux_Start\<close>: \<open>initialize\<close> as the Linux build has it.
  \<^item> \<open>Proxy_Start\<close>: the program as a gateway to a remote card, from the configuration file over the start and the
    connection to the proxy to the answers of a session. This theory: an output rule from the text of the rules file
    to the answer an application receives.

  \<^bold>\<open>State and outside world.\<close> The environment (clock texts, environment variables, files, random
  values) is a read-only field \<open>w_env\<close> of the state. The network is a pair of queues, outcomes of
  connection attempts (\<open>w_conns\<close>) and of single \<open>recv\<close> calls (\<open>w_rx\<close>); what the program emits is
  collected in order: log text (\<open>w_out\<close>), sent lines (\<open>w_tx\<close>), requested delays (\<open>w_sleeps\<close>), dialled
  hosts (\<open>w_dialed\<close>), freed memory (\<open>w_freed\<close>). A function of the original library is an argument,
  \<open>None\<close> for a null procedure pointer; where one call uses it several times it also gets the number
  of the use. Uninitialised memory is an argument too (\<open>junk\<close>, \<open>stack\<close>, the record \<open>frame\<close>), so
  that the properties hold for every content. Undefined behaviour that the code can reach is a fault
  value, and faults of this kind are not caught by \<open>catch\<close> clauses.

  \<^bold>\<open>What the lemmas show.\<close>
  \<^item> Transmission: with rules, the card gets the command patched by the matching input rules and the
    application the answer patched by the output rules; without, both pass unchanged; a remote card
    is answered by the proxy's bytes, with one request; in a session each command gets its own answer and
    nothing is left over. Boundaries: commands over 300 bytes, answers that never end, second read-out, forced data.
  \<^item> Rules: the loop of \<open>ApplyRules\<close> computes exactly the declarative patches; a printed \<open>MATCH\<close> value is
    loaded as the rules it denotes, a file of written rules as their meanings in the order of the
    file; a complete file changes the configuration as its settings mean; which section changes what. With the separators exchanged, the loader of the \<open>UNICODE\<close> build makes
    the same rule of a section, and it alone takes all \<open>MATCH\<close> values.
  \<^item> Ini files: the dictionary is a finite map; printed files and dumped dictionaries are read back; every
    loaded dictionary has lower-case keys under present sections, within the parser's buffers.
  \<^item> Remote protocol: responses of several lines are received whole, receiving ends;
    a response with another identifier is rejected.
  \<^item> The library as a machine: after any sequence of calls rules and configuration are as loaded, every remote card
    has its reader, the socket pointer is null or live, and with logging off nothing was written.
  \<^item> Socket objects: after every sequence of constructions, copies and destructions the open handles are
    those of the existing objects; assignment and a failing server break this, as two theorems show.
  \<^item> Measured data: the blocks in which samples are written do not show in the file, and the search for a
    free name ends.
  \<^item> Handles and readers: remote cards are never forwarded, every remote handle has its reader,
    listings append the virtual readers, memory is freed once.
  \<^item> Start: success exactly for a complete library, and what each procedure pointer then holds, on Windows and
    on Linux; with redirection, the two connections to the configured address and the personalisation.
  \<^item> The whole: a session configured by a file, with every request on the wire and every answer.
  \<^item> Conversions: round trips, and what happens when the array does not have the required size.

  \<^bold>\<open>Bounds and fuel.\<close> \<open>next_free\<close> has the size of the table as fuel, which is enough whenever a slot is
  free (\<open>next_free_total\<close>); \<open>match_loop\<close> has two more steps than the table has slots, as each step
  needs another key; \<open>load_loop\<close> terminates on the length of the rest of the file, the receive loops
  on the number of remaining network events; \<open>match_loop_u\<close> on the distance of its counter to the largest
  \<open>int\<close>; \<open>next_available\<close> and the \<open>GET DATA\<close> loop are \<open>partial_function\<close>s, since they
  may run for ever (\<open>get_data_never_ends\<close>); that the first ends when a name is free is a property. Bytes,
  lengths and status values are words of their width; the loop counters of the source that cannot wrap
  on the data at hand are naturals.

  \<^bold>\<open>Not modelled.\<close>
  \<^item> The 32-bit build and, but for \<open>initialize\<close> and \<open>SCardGetStatusChange\<close>, the code under \<open>__linux__\<close>: other
    configurations of the same source (there \<open>long\<close> has 64 bits, so numbers of the rules file differ). Of the
    \<open>UNICODE\<close> configuration only the two loaders differ in their logic; as a whole it does not compile.
  \<^item> Reclamation of dictionaries, failures of \<open>malloc\<close> and \<open>new\<close>; \<open>iniparser_getdouble\<close> (a call of \<open>atof\<close>)
    and the parser's error messages; \<open>CWinApp\<close> and the message map.
  \<^item> The unit tests with the Catch framework, the Java program that draws the logs.
\<close>

subsection \<open>A rule of the file at work\<close>

text \<open>
  What an output rule of a file does with an answer: whether it fires for a command, and the bytes
  it puts into the answer.
\<close>

definition written_fires :: "written_rule \<Rightarrow> byte list \<Rightarrow> bool" where
  "written_fires w cmd \<longleftrightarrow> (\<forall>e \<in> set (wr_match w). padded cmd ! nat (snd (fst e)) = snd e)"

definition written_patch :: "written_rule \<Rightarrow> byte list \<Rightarrow> byte list" where
  "written_patch w = patch_all (map (\<lambda>e. (nat (snd (fst e)), snd e)) (wr_action w))"

definition output_rule :: "written_rule \<Rightarrow> bool" where
  "output_rule w \<longleftrightarrow> written_ok w \<and> wr_usage w = 1 \<and> wr_apduin w = 0 \<and> wr_in w = 1 \<and> wr_history w = 0 \<and>
     (wr_delay w = 0 \<or> 10 \<le> wr_delay w) \<and> list_all (\<lambda>e. fst e \<in> set header_names) (wr_action w)"

lemma header_element:
  assumes "(n, k) \<in> set header_names"
  shows "0 \<le> k" "k < 5" "in_buffer k" "k \<noteq> LE_ELEM"
  using assms by (auto simp: header_names_def elem_defs in_buffer_def)

lemma take_patch_all: "take n (patch_all ps buf) = patch_all ps (take n buf)"
  unfolding patch_all_def by (induction ps arbitrary: buf) (auto simp: take_update_swap)

lemma output_rule_meaning:
  assumes "output_rule w"
  shows "r_direction (rule_meaning w) = OUTPUT_APDU" "r_usage (rule_meaning w) = 1" "le_values (rule_meaning w) = []"
    "patches (rule_meaning w) = map (\<lambda>e. (nat (snd (fst e)), snd e)) (wr_action w)"
    "apduInList s \<noteq> [] \<Longrightarrow> rule_ok s (rule_meaning w)"
    "apduInList s = padded cmd # as \<Longrightarrow> rule_matches s (rule_meaning w) = written_fires w cmd"
proof -
  have act: "in_buffer (snd (fst e)) \<and> snd (fst e) \<noteq> LE_ELEM" if "e \<in> set (wr_action w)" for e
    using assms that header_element[of "fst (fst e)" "snd (fst e)"] by (auto simp: output_rule_def list_all_iff)
  have mat: "in_buffer (snd (fst e))" if "e \<in> set (wr_match w)" for e
    using assms that header_element[of "fst (fst e)" "snd (fst e)"] by (auto simp: output_rule_def written_ok_def list_all_iff)
  show "r_direction (rule_meaning w) = OUTPUT_APDU" "r_usage (rule_meaning w) = 1"
    using assms by (simp_all add: output_rule_def rule_meaning_def elem_defs)
  show "le_values (rule_meaning w) = []"
    using act by (simp add: le_values_def rule_meaning_def elem_rule_def filter_empty_conv)
  have "filter (\<lambda>a. sr_valid a \<and> sr_element a \<noteq> LE_ELEM) (map (elem_rule 0 (wr_out w)) (wr_action w)) =
      map (elem_rule 0 (wr_out w)) (wr_action w)"
    using act by (simp add: filter_id_conv elem_rule_def)
  then show "patches (rule_meaning w) = map (\<lambda>e. (nat (snd (fst e)), snd e)) (wr_action w)"
    by (simp add: patches_def rule_meaning_def elem_rule_def comp_def)
  show "rule_ok s (rule_meaning w)" if "apduInList s \<noteq> []"
    using assms act mat that
    by (auto simp: rule_ok_def rule_meaning_def elem_rule_def match_ok_def output_rule_def elem_defs)
  show "rule_matches s (rule_meaning w) = written_fires w cmd" if "apduInList s = padded cmd # as"
    using assms that
    by (simp add: rule_matches_def rule_meaning_def elem_rule_def match_byte_def apdu_at_def written_fires_def
        output_rule_def elem_defs)
qed

lemma one_output_rule:
  assumes "output_rule w" and "rulesList u = [rule_meaning w]" "m_bRulesActive u"
    and "bMODIFY_APDU_BY_RULES (m_winscardConfig u)" "\<not> bAUTO_REQUEST_DATA (m_winscardConfig u)"
      "\<not> bFORCE_APDU_NONZERO_INPUT_DATA (m_winscardConfig u)"
    and "\<not> IsRemoteCard h u" and "hist_wf u" and "loggable u cmd"
    and "length cmd \<le> MAX_APDU_LENGTH"
    and "length (f_send fr) = MAX_APDU_LENGTH" "length (f_in fr) = MAX_APDU_LENGTH" "length (f_out fr) = MAX_APDU_LENGTH"
    and card: "f 0 (h, spci, cmd, rpci, rbuf, pcb) = (SCARD_S_SUCCESS, pci, rbuf', n)"
    and "unat n \<le> MAX_APDU_LENGTH" "unat n \<le> length rbuf'" "4 < length rbuf'"
  shows "\<exists>t. SCardTransmit (Some f) fr h spci cmd (of_nat (length cmd)) rpci rbuf pcb u =
    Some (Inr (SCARD_S_SUCCESS, pci,
      if written_fires w cmd then written_patch w (take (unat n) rbuf') @ drop (unat n) rbuf' else rbuf', n), t)"
proof -
  let ?cb = "of_nat (length cmd) :: dword" and ?r = "rule_meaning w"
  note r = output_rule_meaning[OF assms(1)] and u = assms(2,3)
  have cb: "unat ?cb = length cmd" using assms(10) by (simp add: MAX_APDU_LENGTH_def unat_of_nat take_bit_eq_mod)
  let ?s1 = "with_command cmd u" and ?s2 = "with_response (take (unat n) rbuf') (with_command cmd u)"
  have s1: "apduInList ?s1 = padded cmd # apduInList u" "rulesList ?s1 = [?r]" "m_bRulesActive ?s1" "hist_wf ?s1"
    using u assms(8,10) by (simp_all add: with_command_def hist_wf_def)
  have s2: "apduInList ?s2 = padded cmd # apduInList u" "rulesList ?s2 = [?r]" "m_bRulesActive ?s2" "hist_wf ?s2"
    using u assms(8,10,15) by (simp_all add: with_command_def with_response_def hist_wf_def)
  have in_none: "fired ?s1 INPUT_APDU [?r] = []" using r(1) by (simp add: fired_def elem_defs)
  let ?sb = "sent_buffer fr cmd"
  have sb: "?sb = cmd @ drop (length cmd) (f_send fr)" "length ?sb = MAX_APDU_LENGTH"
    using assms(10,11) by (simp_all add: sent_buffer_def blit_0)
  have L1: "rules_length ?s1 ?sb ?cb INPUT_APDU = ?cb" unfolding rules_length_def s1(2) in_none by simp
  have safe_in: "rules_safe ?s1 (f_in fr) ?sb ?cb INPUT_APDU"
    using s1 r(1) assms(10,12) L1 cb sb(2)
    by (simp add: rules_safe_def buffers_ok_def elem_defs)
  have "rewritten u fr cmd ?cb = cmd"
    using assms(12) cb unfolding rewritten_def rules_result_def L1 unfolding s1(2) in_none
    by (simp add: sb(1) blit_0)
  then have card': "f 0 (h, spci, rewritten u fr cmd ?cb, rpci, rbuf, pcb) = (SCARD_S_SUCCESS, pci, rbuf', n)"
    using card by simp
  have a: "answered SCARD_S_SUCCESS n = n" by (simp add: answered_def)
  have out: "fired ?s2 OUTPUT_APDU [?r] = (if written_fires w cmd then [?r] else [])"
    using r(1,2) r(6)[OF s2(1)] by (simp add: fired_def)
  have L2: "rules_length ?s2 rbuf' n OUTPUT_APDU = n"
    unfolding rules_length_def s2(2) out using r(3) by (simp add: elem_defs)
  have "rule_ok ?s2 ?r" using s2(1) by (intro r(5)) simp
  then have safe_out: "rules_safe ?s2 (f_out fr) rbuf' n OUTPUT_APDU"
    using s2 assms(13,15-17) L2 by (simp add: rules_safe_def buffers_ok_def)
  have res: "rules_result ?s2 (f_out fr) rbuf' n OUTPUT_APDU =
      (if written_fires w cmd then written_patch w (take (unat n) rbuf') else take (unat n) rbuf')"
    using r(4) assms(16) unfolding rules_result_def L2 unfolding s2(2) out
    by (simp add: take_patch_all written_patch_def blit_0)
  have len: "length (written_patch w (take (unat n) rbuf')) = unat n"
    using assms(16) by (simp add: written_patch_def)
  have "\<exists>t. SCardTransmit (Some f) fr h spci cmd ?cb rpci rbuf pcb u = Some (Inr (SCARD_S_SUCCESS, pci,
      blit rbuf' 0 (rules_result ?s2 (f_out fr) rbuf' n OUTPUT_APDU), n), t)"
    using transmit_with_rules[of u h cmd ?cb cmd fr f spci rpci rbuf pcb SCARD_S_SUCCESS pci rbuf' n "take (unat n) rbuf'"]
      assms(4-7,9,10) cb safe_in card' a safe_out L2 by auto
  then show ?thesis unfolding res using len assms(16) by (auto simp: blit_0)
qed

text \<open>
  C5: A rule of the file reaches the application's answers. When the rules file holds one output rule
  over header elements and the rules are in use, \<open>LoadRules\<close> succeeds, and afterwards
  \<open>SCardTransmit\<close> with a local card sends every command unchanged; the answer to a command with the
  bytes the rule asks for comes back with the bytes of the rule's action in it, the answer to any
  other command as the card gave it, both with the length the card gave.
\<close>

theorem written_rule_rewrites_answer:
  assumes "file_text (w_env s) RULE_FILE = Some (print_ini (map written_section [w]))" and "output_rule w"
    and "rulesList s = []" and "bMODIFY_APDU_BY_RULES (m_winscardConfig s)"
      "\<not> bAUTO_REQUEST_DATA (m_winscardConfig s)" "\<not> bFORCE_APDU_NONZERO_INPUT_DATA (m_winscardConfig s)"
      "\<not> bLOG_EXCHANGED_APDU (m_winscardConfig s)"
    and "\<not> IsRemoteCard h s" and "hist_wf s" and "length cmd \<le> MAX_APDU_LENGTH"
    and "length (f_send fr) = MAX_APDU_LENGTH" "length (f_in fr) = MAX_APDU_LENGTH" "length (f_out fr) = MAX_APDU_LENGTH"
    and card: "f 0 (h, spci, cmd, rpci, rbuf, pcb) = (SCARD_S_SUCCESS, pci, rbuf', n)"
    and "unat n \<le> MAX_APDU_LENGTH" "unat n \<le> length rbuf'" "4 < length rbuf'"
  shows "\<exists>u t. LoadRules junk s = (Inr STAT_OK, u) \<and>
    SCardTransmit (Some f) fr h spci cmd (of_nat (length cmd)) rpci rbuf pcb u =
    Some (Inr (SCARD_S_SUCCESS, pci,
      if written_fires w cmd then written_patch w (take (unat n) rbuf') @ drop (unat n) rbuf' else rbuf', n), t)"
proof -
  have ok: "list_all written_ok [w]" "distinct (map wr_number [w])" using assms(2) by (simp_all add: output_rule_def)
  obtain u where u: "LoadRules junk s = (Inr STAT_OK, u)" "rulesList u = rulesList s @ map rule_meaning [w]"
    "m_bRulesActive u" "transmit_part u = transmit_part s"
    using load_written_rules_file[OF assms(1) ok(2,1), of junk] by blast
  then have "\<exists>t. SCardTransmit (Some f) fr h spci cmd (of_nat (length cmd)) rpci rbuf pcb u =
    Some (Inr (SCARD_S_SUCCESS, pci,
      if written_fires w cmd then written_patch w (take (unat n) rbuf') @ drop (unat n) rbuf' else rbuf', n), t)"
    using assms by (intro one_output_rule) (simp_all add: transmit_part_def IsRemoteCard_def hist_wf_def loggable_def)
  with u(1) show ?thesis by blast
qed

text \<open>
  The second of the example rules: the answer to a command \<open>VERIFY\<close> begins with 90 00.
\<close>

definition verify_app :: app where
  "verify_app = quiet_app\<lparr>m_winscardConfig := (m_winscardConfig quiet_app)\<lparr>bMODIFY_APDU_BY_RULES := True\<rparr>,
     w_env := quiet_env\<lparr>file_text := [RULE_FILE \<mapsto> print_ini (map written_section [example_rules ! 1])]\<rparr>\<rparr>"

definition failing_card :: "nat \<Rightarrow> (unit, unit) transmit_fn" where
  "failing_card k = (\<lambda>(h, spci, cmd, pci, buf, n). (SCARD_S_SUCCESS, pci, blit buf 0 [0x6A, 0x82], 2))"

theorem written_rule_rewrites_answer_witness:
  "\<exists>u t. LoadRules 7 verify_app = (Inr STAT_OK, u) \<and>
     SCardTransmit (Some failing_card) zero_frame 1 () [0, 0x20, 0, 1, 2, 0x31, 0x32] 7 () [0, 0, 0, 0, 0, 0] 6 u =
       Some (Inr (SCARD_S_SUCCESS, (), [0x90, 0x00, 0, 0, 0, 0], 2), t)"
proof -
  let ?w = "example_rules ! 1" and ?cmd = "[0, 0x20, 0, 1, 2, 0x31, 0x32] :: byte list"
  have w: "output_rule ?w" "written_fires ?w ?cmd" "written_patch ?w [0x6A, 0x82] = [0x90, 0x00]"
    by (simp_all add: output_rule_def example_rules_def written_ok_def header_names_def action_names_def elem_defs
        written_fires_def written_patch_def patch_all_def padded_def blit_def)
  have "\<exists>u t. LoadRules 7 verify_app = (Inr STAT_OK, u) \<and>
     SCardTransmit (Some failing_card) zero_frame 1 () ?cmd (of_nat (length ?cmd)) () [0, 0, 0, 0, 0, 0] 6 u =
       Some (Inr (SCARD_S_SUCCESS, (), if written_fires ?w ?cmd then written_patch ?w (take (unat (2 :: dword)) [0x6A, 0x82, 0, 0, 0, 0]) @
         drop (unat (2 :: dword)) [0x6A, 0x82, 0, 0, 0, 0] else [0x6A, 0x82, 0, 0, 0, 0], 2), t)"
  proof (rule written_rule_rewrites_answer[OF _ w(1)])
    show "file_text (w_env verify_app) RULE_FILE = Some (print_ini (map written_section [?w]))"
      by (simp add: verify_app_def)
    show "failing_card 0 (1, (), ?cmd, (), [0, 0, 0, 0, 0, 0], 6) = (SCARD_S_SUCCESS, (), [0x6A, 0x82, 0, 0, 0, 0], 2)"
      by (simp add: failing_card_def blit_def)
  qed (simp_all add: verify_app_def quiet_app_def app_init_def WINSCARD_CONFIG_new_def WINSCARD_CONFIG_clear_def
      IsRemoteCard_def hist_wf_def MAX_APDU_LENGTH_def)
  then show ?thesis using w(2,3) by simp
qed

end
